(* ===== verification/Prelude.thy ===== *)
theory Prelude
  imports Main "HOL-Library.Word" "HOL-Library.Monad_Syntax"
begin

unbundle bit_operations_syntax

text \<open>
  Shared vocabulary of the development: the C integer types as fixed-width words, checked array
  access (an access out of bounds or through a null pointer is \<open>None\<close>, the kernel would fault),
  the bounded polling loop that the drivers use to wait for a device bit, the arithmetic of a
  free-running 32-bit ring index, and the generic lemmas on lists and words that the component
  theories use.
\<close>

named_theorems trace_simps \<open>rewriting a ledger or a register view along a trace\<close>
named_theorems frame_simps \<open>fields of the driver state that an operation leaves alone\<close>

type_synonym u8 = "8 word"
type_synonym u16 = "16 word"
type_synonym u32 = "32 word"
type_synonym u64 = "64 word"

section \<open>Checked memory access\<close>

definition idx :: "'a list \<Rightarrow> nat \<Rightarrow> 'a option" where
  "idx xs i = (if i < length xs then Some (xs ! i) else None)"

lemma idx_Some [simp]: "i < length xs \<Longrightarrow> idx xs i = Some (xs ! i)"
  by (simp add: idx_def)

lemma idx_eq_Some_iff: "idx xs i = Some x \<longleftrightarrow> i < length xs \<and> xs ! i = x"
  by (auto simp: idx_def)

lemma idx_eq_None_iff: "idx xs i = None \<longleftrightarrow> length xs \<le> i"
  by (auto simp: idx_def)

section \<open>Counting list entries under update\<close>

lemma count_list_update:
  assumes "i < length xs"
  shows "int (count_list (xs[i := y]) a) =
    int (count_list xs a) - (if xs ! i = a then 1 else 0) + (if y = a then 1 else 0)"
  using assms
proof (induction xs arbitrary: i)
  case Nil
  then show ?case by simp
next
  case (Cons x xs)
  show ?case
  proof (cases i)
    case 0
    then show ?thesis by simp
  next
    case (Suc k)
    with Cons.prems have "k < length xs" by simp
    from Cons.IH [OF this] Suc show ?thesis by (simp split: if_splits)
  qed
qed

lemma count_list_replicate_other: "x \<noteq> a \<Longrightarrow> count_list (replicate n x) a = 0"
  by (induction n) auto

lemma count_list_zero_nth:
  "(\<And>i. i < length xs \<Longrightarrow> xs ! i \<noteq> a) \<Longrightarrow> count_list xs a = 0"
  by (metis count_notin in_set_conv_nth)

lemma map_upt_add: "map f [0..<m + n] = map f [0..<m] @ map (\<lambda>j. f (m + j)) [0..<n]"
  by (induction n) simp_all

lemma takeWhile_take: "takeWhile P (take n xs) = take n (takeWhile P xs)"
  by (induction xs arbitrary: n) (simp_all add: take_Cons split: nat.split)

lemma takeWhile_append_exact:
  assumes "\<forall>x \<in> set xs. P x" "\<forall>y \<in> set ys. \<not> P y"
  shows "takeWhile P (xs @ ys) = xs"
  using assms by (cases ys) (simp_all add: takeWhile_append2)

section \<open>The bounded polling loop\<close>

text \<open>
  The drivers wait for a device with \<^verbatim>\<open>for (i = n; ...; ) { udelay(..); if (test) break; }\<close>.
  \<open>test\<close> performs the register read and returns whether the loop is left, together with the
  state after the read.
\<close>

primrec poll_loop :: "nat \<Rightarrow> ('s \<Rightarrow> bool \<times> 's) \<Rightarrow> 's \<Rightarrow> 's" where
  "poll_loop 0 test s = s"
| "poll_loop (Suc n) test s =
     (case test s of (stop, s') \<Rightarrow> if stop then s' else poll_loop n test s')"

lemma poll_loop_invariant:
  assumes "P s" and "\<And>s. P s \<Longrightarrow> P (snd (test s))"
  shows "P (poll_loop n test s)"
  using assms(1)
proof (induction n arbitrary: s)
  case 0
  then show ?case by simp
next
  case (Suc n)
  from assms(2)[OF Suc.prems] Suc.IH show ?case
    by (auto split: prod.split)
qed

lemma poll_loop_same:
  assumes "\<And>s. f (snd (test s)) = f s"
  shows "f (poll_loop n test s) = f s"
  by (rule poll_loop_invariant [where P = "\<lambda>u. f u = f s"]) (simp_all add: assms)

section \<open>A loop that counts the wrong way\<close>

text \<open>
  \<^verbatim>\<open>for (i = 0; i < 100; i--) { udelay(..); if (test) break; }\<close>, from the value \<open>i\<close> of the counter on. The counter is an
  \<^verbatim>\<open>int\<close>, which the kernel's compiler options make wrap around; it passes the bound only after it has wrapped from the
  smallest to the largest value.
\<close>

lemma sint_pred_u32:
  fixes i :: "32 word"
  shows "sint (i - 1) = (if sint i = - 2147483648 then 2147483647 else sint i - 1)"
proof -
  have b: "- 2147483648 \<le> sint i" "sint i < 2147483648"
    using sint_greater_eq [of i] sint_lt [of i] by simp_all
  have "sint (i - 1) = signed_take_bit 31 (sint i - 1)" by (simp add: sint_word_ariths)
  moreover have "signed_take_bit 31 (sint i - 1) = sint i - 1" if "sint i \<noteq> - 2147483648"
    using b that by (intro signed_take_bit_int_eq_self) simp_all
  moreover have "signed_take_bit 31 (- 2147483648 - 1 :: int) = 2147483647" by simp
  ultimately show ?thesis by auto
qed

function down_loop :: "32 word \<Rightarrow> ('s \<Rightarrow> bool \<times> 's) \<Rightarrow> 's \<Rightarrow> 's" where
  "down_loop i test s =
     (if sint i < 100 then
        let (stop, s') = test s in if stop then s' else down_loop (i - 1) test s'
      else s)"
  by pat_completeness auto
termination
proof (relation "measure (\<lambda>(i, _, _). if sint i < 100 then nat (sint i + 2147483649) else 0)")
  fix i :: "32 word" and test :: "'s \<Rightarrow> bool \<times> 's" and s stop s' x
  assume "sint i < 100"
  moreover have "- 2147483648 \<le> sint i" using sint_greater_eq [of i] by simp
  ultimately show "((i - 1, test, s'), i, test, s) \<in> measure (\<lambda>(i, _, _). if sint i < 100 then nat (sint i + 2147483649) else 0)"
    by (simp add: sint_pred_u32)
qed simp

declare down_loop.simps [simp del]

lemma down_loop_poll:
  "down_loop i test s = poll_loop (if sint i < 100 then nat (sint i + 2147483649) else 0) test s"
proof (induction i test s rule: down_loop.induct)
  case (1 i test s)
  have b: "- 2147483648 \<le> sint i" using sint_greater_eq [of i] by simp
  show ?case
  proof (cases "sint i < 100")
    case True
    then have n: "nat (sint i + 2147483649) = Suc (nat (sint i + 2147483648))" using b by linarith
    obtain stop s' where t: "test s = (stop, s')" by fastforce
    have "nat (sint i + 2147483648) = (if sint (i - 1) < 100 then nat (sint (i - 1) + 2147483649) else 0)"
      using True b by (simp add: sint_pred_u32 add.commute)
    then show ?thesis
      using "1" [OF True] True n t by (subst down_loop.simps) simp
  qed (simp add: down_loop.simps [of i])
qed
lemma down_loop_same: "(\<And>s. f (snd (test s)) = f s) \<Longrightarrow> f (down_loop i test s) = f s"
  unfolding down_loop_poll by (rule poll_loop_same)

section \<open>Ring indices\<close>

text \<open>
  A ring of \<open>N\<close> slots is indexed by free-running 32-bit counters; the slot of a counter is the
  counter modulo \<open>N\<close>. \<open>ring_window N d c\<close> lists the slots from counter \<open>d\<close> up to, and without,
  counter \<open>c\<close>.
\<close>

definition ring_slot :: "nat \<Rightarrow> u32 \<Rightarrow> nat" where
  "ring_slot N i = unat i mod N"

definition ring_window :: "nat \<Rightarrow> u32 \<Rightarrow> u32 \<Rightarrow> nat list" where
  "ring_window N d c = map (\<lambda>j. (unat d + j) mod N) [0..<unat (c - d)]"

lemma length_ring_window [simp]: "length (ring_window N d c) = unat (c - d)"
  by (simp add: ring_window_def)

lemma ring_window_empty [simp]: "ring_window N d d = []"
  by (simp add: ring_window_def)

lemma unat_minus_1_u32: "unat (- 1 :: u32) = 4294967295"
  by (simp add: unsigned_minus_1_eq_mask mask_eq_exp_minus_1)

lemma unat_succ_diff:
  fixes c d :: "'a::len word"
  shows "c - d \<noteq> - 1 \<Longrightarrow> unat (c + 1 - d) = Suc (unat (c - d))"
proof -
  assume "c - d \<noteq> - 1"
  then have "1 + (c - d) \<noteq> 0"
    by (metis add.commute eq_iff_diff_eq_0 diff_minus_eq_add)
  then have "unat (1 + (c - d)) = Suc (unat (c - d))"
    by (rule unatSuc)
  then show ?thesis by (simp add: algebra_simps)
qed

lemma unat_diff_succ:
  fixes c d :: "'a::len word"
  assumes "c \<noteq> d"
  shows "unat (c - d) = Suc (unat (c - (d + 1)))"
proof -
  have "1 + (c - (d + 1)) \<noteq> 0" using assms by (simp add: algebra_simps)
  then have "unat (1 + (c - (d + 1))) = Suc (unat (c - (d + 1)))"
    by (rule unatSuc)
  then show ?thesis by (simp add: algebra_simps)
qed

lemma unat_diff_succ_less:
  fixes c d :: "'a::len word"
  shows "0 < c - d \<Longrightarrow> unat (c - (d + 1)) < unat (c - d)"
  using unat_diff_succ [of c d] by (cases "c = d") simp_all

lemma unat_succ_less:
  fixes i b :: "'a::len word"
  assumes "i < b"
  shows "unat (i + 1) = Suc (unat i)"
proof -
  have "Suc (unat i) < 2 ^ LENGTH('a)"
  proof -
    have "unat b < 2 ^ LENGTH('a)" by (rule unsigned_less)
    with assms show ?thesis unfolding word_less_nat_alt by linarith
  qed
  then show ?thesis by (simp add: unat_word_ariths)
qed

end
