(* ===== verification/R8101.thy ===== *)
theory R8101
  imports Prelude
begin

text \<open>
  \<^verbatim>\<open>Rt8169Drv/r8101.h\<close>: the register map and the bit enumerations of the RTL8101E. Each C
  enumeration is a datatype with the source's enumerators and a function giving their values
  (aliases with the same value, as in C, are allowed). \<open>struct Desc\<close> of \<^verbatim>\<open>net_stk.h\<close>, the
  hardware descriptor, is here too since every ring, and the memory allocator's model, uses it.
  A descriptor of the model holds the CPU-order view of its fields: the code only accesses them
  through \<^verbatim>\<open>cpu_to_le32\<close> and \<^verbatim>\<open>le32_to_cpu\<close>, which are inverse to each other.
\<close>

section \<open>Register offsets\<close>

datatype RTL8101Registers =
    MAC0 | MAC4 | MAR0 | CounterAddrLow | CounterAddrHigh
  | TxDescStartAddrLow | TxDescStartAddrHigh | TxHDescStartAddrLow | TxHDescStartAddrHigh
  | ERSR | ChipCmd | TxPoll | IntrMask | IntrStatus | TxConfig | RxConfig | TCTR
  | Cfg9346 | Config0 | Config1 | Config2 | Config3 | Config4 | Config5 | TDFNR | TimeIntr
  | PHYAR | CSIDR | CSIAR | PHYstatus | MACDBG | GPIO | PMCH | ERIDR | ERIAR | EPHYAR
  | OCPDR | MACOCP | OCPAR | PHYOCP | DBG_reg | MCUCmd_reg | RxMaxSize | CPlusCmd
  | IntrMitigate | RxDescAddrLow | RxDescAddrHigh | MTPS | PHYIO

primrec reg :: "RTL8101Registers \<Rightarrow> nat" where
  "reg MAC0 = 0"
| "reg MAC4 = 0x04"
| "reg MAR0 = 8"
| "reg CounterAddrLow = 0x10"
| "reg CounterAddrHigh = 0x14"
| "reg TxDescStartAddrLow = 0x20"
| "reg TxDescStartAddrHigh = 0x24"
| "reg TxHDescStartAddrLow = 0x28"
| "reg TxHDescStartAddrHigh = 0x2c"
| "reg ERSR = 0x36"
| "reg ChipCmd = 0x37"
| "reg TxPoll = 0x38"
| "reg IntrMask = 0x3C"
| "reg IntrStatus = 0x3E"
| "reg TxConfig = 0x40"
| "reg RxConfig = 0x44"
| "reg TCTR = 0x48"
| "reg Cfg9346 = 0x50"
| "reg Config0 = 0x51"
| "reg Config1 = 0x52"
| "reg Config2 = 0x53"
| "reg Config3 = 0x54"
| "reg Config4 = 0x55"
| "reg Config5 = 0x56"
| "reg TDFNR = 0x57"
| "reg TimeIntr = 0x58"
| "reg PHYAR = 0x60"
| "reg CSIDR = 0x64"
| "reg CSIAR = 0x68"
| "reg PHYstatus = 0x6C"
| "reg MACDBG = 0x6D"
| "reg GPIO = 0x6E"
| "reg PMCH = 0x6F"
| "reg ERIDR = 0x70"
| "reg ERIAR = 0x74"
| "reg EPHYAR = 0x80"
| "reg OCPDR = 0xB0"
| "reg MACOCP = 0xB0"
| "reg OCPAR = 0xB4"
| "reg PHYOCP = 0xB8"
| "reg DBG_reg = 0xD1"
| "reg MCUCmd_reg = 0xD3"
| "reg RxMaxSize = 0xDA"
| "reg CPlusCmd = 0xE0"
| "reg IntrMitigate = 0xE2"
| "reg RxDescAddrLow = 0xE4"
| "reg RxDescAddrHigh = 0xE8"
| "reg MTPS = 0xEC"
| "reg PHYIO = 0xF8"

definition R8101_REGS_SIZE :: nat where
  "R8101_REGS_SIZE = 256"

section \<open>Descriptor bits\<close>

datatype DescStatusBits =
    DescOwn | RingEnd | FirstFrag | LastFrag
  | LargeSend | MSSShift | MSSMask | TxIPCS | TxUDPCS | TxTCPCS | TxVlanTag
  | RxRWT | RxRES | RxRUNT | RxCRC
  | PID1 | PID0 | RxIPF | RxUDPF | RxTCPF | RxVlanTag

primrec dbit :: "DescStatusBits \<Rightarrow> u32" where
  "dbit DescOwn = push_bit 31 1"
| "dbit RingEnd = push_bit 30 1"
| "dbit FirstFrag = push_bit 29 1"
| "dbit LastFrag = push_bit 28 1"
| "dbit LargeSend = push_bit 27 1"
| "dbit MSSShift = 16"
| "dbit MSSMask = 0x7FF"
| "dbit TxIPCS = push_bit 18 1"
| "dbit TxUDPCS = push_bit 17 1"
| "dbit TxTCPCS = push_bit 16 1"
| "dbit TxVlanTag = push_bit 17 1"
| "dbit RxRWT = push_bit 22 1"
| "dbit RxRES = push_bit 21 1"
| "dbit RxRUNT = push_bit 20 1"
| "dbit RxCRC = push_bit 19 1"
| "dbit PID1 = push_bit 18 1"
| "dbit PID0 = push_bit 17 1"
| "dbit RxIPF = push_bit 16 1"
| "dbit RxUDPF = push_bit 15 1"
| "dbit RxTCPF = push_bit 14 1"
| "dbit RxVlanTag = push_bit 16 1"

section \<open>Command, interrupt and configuration bits\<close>

datatype ChipCmdBits = StopReq | CmdReset | CmdRxEnb | CmdTxEnb | RxBufEmpty

primrec cmdbit :: "ChipCmdBits \<Rightarrow> u8" where
  "cmdbit StopReq = 0x80"
| "cmdbit CmdReset = 0x10"
| "cmdbit CmdRxEnb = 0x08"
| "cmdbit CmdTxEnb = 0x04"
| "cmdbit RxBufEmpty = 0x01"

datatype Cfg9346Bits = Cfg9346_Lock | Cfg9346_Unlock

primrec cfgbit :: "Cfg9346Bits \<Rightarrow> u8" where
  "cfgbit Cfg9346_Lock = 0x00"
| "cfgbit Cfg9346_Unlock = 0xC0"

datatype IntrStatusBits =
    PCIErr | PCSTimeout | SWInt | TxDescUnavail | RxFIFOOver | LinkChg | RxDescUnavail
  | TxErr | TxOK | RxErr | RxOK

primrec intrbit :: "IntrStatusBits \<Rightarrow> u16" where
  "intrbit PCIErr = 0x8000"
| "intrbit PCSTimeout = 0x4000"
| "intrbit SWInt = 0x0100"
| "intrbit TxDescUnavail = 0x80"
| "intrbit RxFIFOOver = 0x40"
| "intrbit LinkChg = 0x20"
| "intrbit RxDescUnavail = 0x10"
| "intrbit TxErr = 0x08"
| "intrbit TxOK = 0x04"
| "intrbit RxErr = 0x02"
| "intrbit RxOK = 0x01"

definition IntrEnMask :: u16 where
  "IntrEnMask = intrbit RxDescUnavail OR intrbit TxOK OR intrbit RxOK OR intrbit SWInt"

datatype TxConfigBits =
    TxIFG84 | TxIFG88 | TxIFG92 | TxIFG96 | TxLoopBack | TxCRC | TxClearAbt
  | TxDMAUnlimited | TxVersionMask

primrec txcfg :: "TxConfigBits \<Rightarrow> u32" where
  "txcfg TxIFG84 = push_bit 24 0"
| "txcfg TxIFG88 = push_bit 24 1"
| "txcfg TxIFG92 = push_bit 24 2"
| "txcfg TxIFG96 = push_bit 24 3"
| "txcfg TxLoopBack = push_bit 18 1 OR push_bit 17 1"
| "txcfg TxCRC = push_bit 16 1"
| "txcfg TxClearAbt = push_bit 0 1"
| "txcfg TxDMAUnlimited = push_bit 8 6"
| "txcfg TxVersionMask = 0x7C800000"

datatype RxConfigBits =
    RxFIFONone | RxDMAUnlimited | RxRcv8K | RxRcv16K | RxRcv32K | RxRcv64K
  | RxNoWrap | Rx9356SEL | AcceptErr | AcceptRunt | AcceptBroadcast | AcceptMulticast
  | AcceptMyPhys | AcceptAllPhys | RxConfigMask

primrec rxcfg :: "RxConfigBits \<Rightarrow> u32" where
  "rxcfg RxFIFONone = push_bit 13 7"
| "rxcfg RxDMAUnlimited = push_bit 8 6"
| "rxcfg RxRcv8K = 0"
| "rxcfg RxRcv16K = push_bit 11 1"
| "rxcfg RxRcv32K = push_bit 12 1"
| "rxcfg RxRcv64K = push_bit 11 1 OR push_bit 12 1"
| "rxcfg RxNoWrap = push_bit 7 1"
| "rxcfg Rx9356SEL = push_bit 6 1"
| "rxcfg AcceptErr = 0x20"
| "rxcfg AcceptRunt = 0x10"
| "rxcfg AcceptBroadcast = 0x08"
| "rxcfg AcceptMulticast = 0x04"
| "rxcfg AcceptMyPhys = 0x02"
| "rxcfg AcceptAllPhys = 0x01"
| "rxcfg RxConfigMask = 0xFF7E1880"

datatype TxPrioPoll = HPQ | NPQ | FSWInt

primrec pollbit :: "TxPrioPoll \<Rightarrow> u8" where
  "pollbit HPQ = 0x80"
| "pollbit NPQ = 0x40"
| "pollbit FSWInt = 0x01"

section \<open>The hardware descriptor\<close>

record Desc =
  opts1 :: u32
  opts2 :: u32
  addr :: u64

text \<open>The descriptor that \<^verbatim>\<open>memset(.., 0, ..)\<close> leaves.\<close>

definition zero_desc :: Desc where
  "zero_desc = \<lparr>opts1 = 0, opts2 = 0, addr = 0\<rparr>"

text \<open>Whether the descriptor belongs to the device, and its end-of-ring mark.\<close>

definition nic_owned :: "Desc \<Rightarrow> bool" where
  "nic_owned d \<longleftrightarrow> opts1 d AND dbit DescOwn \<noteq> 0"

definition ring_end :: "Desc \<Rightarrow> bool" where
  "ring_end d \<longleftrightarrow> opts1 d AND dbit RingEnd \<noteq> 0"

declare dbit.simps [simp del]

lemma bit_single_bit:
  "bit (push_bit k 1 :: 'a::len word) n \<longleftrightarrow> n = k \<and> k < LENGTH('a)"
  by (auto simp only: bit_push_bit_iff bit_1_iff possible_bit_word)

lemma and_single_bit:
  "x AND push_bit k 1 = (0 :: 'a::len word) \<longleftrightarrow> \<not> bit x k"
proof
  assume z: "x AND push_bit k 1 = 0"
  show "\<not> bit x k"
  proof
    assume "bit x k"
    then have "bit (x AND push_bit k 1) k"
      by (simp only: bit_and_iff bit_single_bit) (use bit_imp_le_length in blast)
    with z show False by simp
  qed
next
  assume "\<not> bit x k"
  then show "x AND push_bit k 1 = 0"
    by (intro bit_word_eqI) (auto simp only: bit_and_iff bit_single_bit bit_0_eq)
qed

text \<open>Flag tests and flag values, bit by bit: the rules every descriptor proof uses.\<close>

lemma dbit_test [simp]:
  "x AND dbit DescOwn = 0 \<longleftrightarrow> \<not> bit x 31"
  "x AND dbit RingEnd = 0 \<longleftrightarrow> \<not> bit x 30"
  "x AND dbit FirstFrag = 0 \<longleftrightarrow> \<not> bit x 29"
  "x AND dbit LastFrag = 0 \<longleftrightarrow> \<not> bit x 28"
  "x AND dbit RxRES = 0 \<longleftrightarrow> \<not> bit x 21"
  "x AND dbit RxCRC = 0 \<longleftrightarrow> \<not> bit x 19"
  by (simp_all only: dbit.simps and_single_bit)

lemma bit_dbit [simp]:
  "bit (dbit DescOwn) n \<longleftrightarrow> n = 31"
  "bit (dbit RingEnd) n \<longleftrightarrow> n = 30"
  "bit (dbit FirstFrag) n \<longleftrightarrow> n = 29"
  "bit (dbit LastFrag) n \<longleftrightarrow> n = 28"
  "bit (dbit RxRWT) n \<longleftrightarrow> n = 22"
  "bit (dbit RxRES) n \<longleftrightarrow> n = 21"
  "bit (dbit RxRUNT) n \<longleftrightarrow> n = 20"
  "bit (dbit RxCRC) n \<longleftrightarrow> n = 19"
  by (simp_all only: dbit.simps bit_single_bit) simp_all

lemma nic_owned_bit: "nic_owned d \<longleftrightarrow> bit (opts1 d) 31"
  by (simp add: nic_owned_def)

lemma ring_end_bit: "ring_end d \<longleftrightarrow> bit (opts1 d) 30"
  by (simp add: ring_end_def)

lemma zero_desc_simps [simp]:
  "opts1 zero_desc = 0" "opts2 zero_desc = 0" "addr zero_desc = 0"
  "\<not> nic_owned zero_desc" "\<not> ring_end zero_desc"
  by (simp_all add: zero_desc_def nic_owned_bit ring_end_bit)

lemma reg_in_window: "reg r < R8101_REGS_SIZE"
  by (cases r) (simp_all add: R8101_REGS_SIZE_def)

end
