(* ===== verification/Kernel_Env.thy ===== *)
theory Kernel_Env
  imports R8101
begin

text \<open>
  What lies outside the repository: the Linux kernel and the device. Everything they decide (the
  value of a register read, whether a request is granted, the address an allocation or a DMA
  mapping returns) is a parameter, a field of the record \<open>env\<close>, and may depend on the whole
  history: the environment is an arbitrary function of the trace of accesses and calls made so
  far. A driver operation extends the trace; the newest event comes first. Delays and log output
  leave no event.

  The functions on traces at the end are the ledgers of the theorems: the value last written to
  a register, the sk_buffs and DMA mappings still outstanding, and the stack of resources held.
\<close>

section \<open>Events\<close>

type_synonym ptr = nat \<comment> \<open>the address of a kernel object; NULL is \<open>None\<close>\<close>

datatype dma_dir = ToDevice | FromDevice

text \<open>Resources that a driver asks the kernel for and has to give back.\<close>

datatype res =
    PciDevice       \<comment> \<open>\<^verbatim>\<open>pci_enable_device / pci_disable_device\<close>\<close>
  | Mwi             \<comment> \<open>\<^verbatim>\<open>pci_set_mwi / pci_clear_mwi\<close>\<close>
  | Regions         \<comment> \<open>\<^verbatim>\<open>pci_request_regions / pci_release_regions\<close>\<close>
  | RegMap          \<comment> \<open>\<^verbatim>\<open>ioremap / iounmap\<close>\<close>
  | Msi             \<comment> \<open>\<^verbatim>\<open>pci_enable_msi / pci_disable_msi\<close>\<close>
  | NetDev          \<comment> \<open>\<^verbatim>\<open>alloc_etherdev / free_netdev\<close>\<close>
  | NetReg          \<comment> \<open>\<^verbatim>\<open>register_netdev / unregister_netdev\<close>\<close>
  | TxRing          \<comment> \<open>\<^verbatim>\<open>pci_alloc_consistent / pci_free_consistent\<close>, transmit descriptors\<close>
  | RxRing          \<comment> \<open>the same, receive descriptors\<close>
  | Irq             \<comment> \<open>\<^verbatim>\<open>request_irq / free_irq\<close>\<close>
  | PktTx           \<comment> \<open>\<^verbatim>\<open>kmalloc / kfree\<close>, transmit packet buffer\<close>
  | PktRx           \<comment> \<open>the same, receive packet buffer\<close>
  | Chrdev          \<comment> \<open>\<^verbatim>\<open>alloc_chrdev_region / unregister_chrdev_region\<close>\<close>
  | Cdev            \<comment> \<open>\<^verbatim>\<open>cdev_add / cdev_del\<close>\<close>
  | Class           \<comment> \<open>\<^verbatim>\<open>class_create / class_destroy\<close>\<close>
  | Device          \<comment> \<open>\<^verbatim>\<open>device_create / device_destroy\<close>\<close>
  | PciDriver       \<comment> \<open>\<^verbatim>\<open>pci_register_driver / pci_unregister_driver\<close>\<close>
  | Kprobe          \<comment> \<open>\<^verbatim>\<open>register_kprobe / unregister_kprobe\<close>, also of a return probe\<close>
  | PcpuStats       \<comment> \<open>\<^verbatim>\<open>netdev_alloc_pcpu_stats / free_percpu\<close>\<close>
  | DmaMask         \<comment> \<open>\<^verbatim>\<open>pci_set_dma_mask\<close>: a request, nothing is held\<close>

datatype event =
    R8 nat u8 | R16 nat u16 | R32 nat u32
  | W8 nat u8 | W16 nat u16 | W32 nat u32
  | Got res | Denied res int | Put res
  | AllocSkb "ptr option"            \<comment> \<open>\<^verbatim>\<open>dev_alloc_skb\<close>\<close>
  | TakeSkb ptr                      \<comment> \<open>the stack hands a packet to the driver\<close>
  | FreeSkb ptr                      \<comment> \<open>\<^verbatim>\<open>dev_kfree_skb\<close>, \<^verbatim>\<open>dev_kfree_skb_irq\<close>\<close>
  | RecvSkb ptr u32                  \<comment> \<open>\<^verbatim>\<open>napi_gro_receive\<close> of a packet of that length\<close>
  | MapSingle ptr u64 u32 dma_dir    \<comment> \<open>buffer, bus address, length\<close>
  | UnmapSingle u64 u32 dma_dir
  | SetMaster | SyncIrq | SyncSched | FlushWork

type_synonym trace = "event list"

section \<open>The environment\<close>

record env =
  ioread8 :: "trace \<Rightarrow> nat \<Rightarrow> u8"
  ioread16 :: "trace \<Rightarrow> nat \<Rightarrow> u16"
  ioread32 :: "trace \<Rightarrow> nat \<Rightarrow> u32"
  grant :: "trace \<Rightarrow> res \<Rightarrow> int"          \<comment> \<open>0: granted (for a pointer result: not NULL)\<close>
  coherent :: "trace \<Rightarrow> res \<Rightarrow> Desc list \<times> u64" \<comment> \<open>ring memory as found, bus address\<close>
  alloc_skb :: "trace \<Rightarrow> u32 \<Rightarrow> ptr option"
  map_addr :: "trace \<Rightarrow> ptr \<Rightarrow> u64"
  kmalloc_mem :: "trace \<Rightarrow> res \<Rightarrow> u8 list" \<comment> \<open>the bytes found in a fresh buffer\<close>
  user_copied :: "trace \<Rightarrow> nat \<Rightarrow> nat"     \<comment> \<open>how many of so many bytes a user copy transfers\<close>
  jiffies :: "trace \<Rightarrow> u64"
  HZ :: u64
  MAX_SKB_FRAGS :: u32
  MII_BMCR :: u32
  BMCR_ANENABLE :: u32
  BMCR_PDOWN :: u32

text \<open>Error numbers of \<^verbatim>\<open>errno.h\<close> that the sources return.\<close>

definition ENOMEM :: int where "ENOMEM = 12"
definition ENODEV :: int where "ENODEV = 19"
definition EAGAIN :: int where "EAGAIN = 11"
definition EFAULT :: int where "EFAULT = 14"
definition EBUSY :: int where "EBUSY = 16"
definition EINVAL :: int where "EINVAL = 22"

section \<open>Register access: the macros of r8101.h\<close>

definition REG_R8 :: "env \<Rightarrow> nat \<Rightarrow> trace \<Rightarrow> u8 \<times> trace" where
  "REG_R8 E r t = (let v = ioread8 E t r in (v, R8 r v # t))"

definition REG_R16 :: "env \<Rightarrow> nat \<Rightarrow> trace \<Rightarrow> u16 \<times> trace" where
  "REG_R16 E r t = (let v = ioread16 E t r in (v, R16 r v # t))"

definition REG_R32 :: "env \<Rightarrow> nat \<Rightarrow> trace \<Rightarrow> u32 \<times> trace" where
  "REG_R32 E r t = (let v = ioread32 E t r in (v, R32 r v # t))"

definition REG_W8 :: "u8 \<Rightarrow> nat \<Rightarrow> trace \<Rightarrow> trace" where
  "REG_W8 v r t = W8 r v # t"

definition REG_W16 :: "u16 \<Rightarrow> nat \<Rightarrow> trace \<Rightarrow> trace" where
  "REG_W16 v r t = W16 r v # t"

definition REG_W32 :: "u32 \<Rightarrow> nat \<Rightarrow> trace \<Rightarrow> trace" where
  "REG_W32 v r t = W32 r v # t"

lemmas REG_defs = REG_R8_def REG_R16_def REG_R32_def REG_W8_def REG_W16_def REG_W32_def

text \<open>A request to the kernel, with its return code, and giving the resource back.\<close>

definition acquire :: "env \<Rightarrow> res \<Rightarrow> trace \<Rightarrow> int \<times> trace" where
  "acquire E r t =
     (let c = grant E t r in (c, (if c = 0 then Got r else Denied r c) # t))"

definition release :: "res \<Rightarrow> trace \<Rightarrow> trace" where
  "release r t = Put r # t"

text \<open>\<^verbatim>\<open>pci_alloc_consistent\<close>: the memory with its bus address, or NULL.\<close>

definition pci_alloc_consistent :: "env \<Rightarrow> res \<Rightarrow> trace \<Rightarrow> (Desc list \<times> u64) option \<times> trace" where
  "pci_alloc_consistent E r t =
     (let (c, t') = acquire E r t in (if c = 0 then Some (coherent E t r) else None, t'))"

section \<open>Views of a trace\<close>

fun last_w8 :: "nat \<Rightarrow> trace \<Rightarrow> u8 option" where
  "last_w8 r [] = None"
| "last_w8 r (W8 q v # t) = (if q = r then Some v else last_w8 r t)"
| "last_w8 r (_ # t) = last_w8 r t"

fun last_w16 :: "nat \<Rightarrow> trace \<Rightarrow> u16 option" where
  "last_w16 r [] = None"
| "last_w16 r (W16 q v # t) = (if q = r then Some v else last_w16 r t)"
| "last_w16 r (_ # t) = last_w16 r t"

fun last_w32 :: "nat \<Rightarrow> trace \<Rightarrow> u32 option" where
  "last_w32 r [] = None"
| "last_w32 r (W32 q v # t) = (if q = r then Some v else last_w32 r t)"
| "last_w32 r (_ # t) = last_w32 r t"

text \<open>How many references to a sk_buff the driver has been given and not passed on.\<close>

fun skb_bal :: "ptr \<Rightarrow> trace \<Rightarrow> int" where
  "skb_bal p [] = 0"
| "skb_bal p (AllocSkb (Some q) # t) = skb_bal p t + (if q = p then 1 else 0)"
| "skb_bal p (TakeSkb q # t) = skb_bal p t + (if q = p then 1 else 0)"
| "skb_bal p (FreeSkb q # t) = skb_bal p t - (if q = p then 1 else 0)"
| "skb_bal p (RecvSkb q n # t) = skb_bal p t - (if q = p then 1 else 0)"
| "skb_bal p (_ # t) = skb_bal p t"

text \<open>How often a DMA mapping has been made and not been undone.\<close>

type_synonym dma_map = "u64 \<times> u32 \<times> dma_dir"

fun dma_bal :: "dma_map \<Rightarrow> trace \<Rightarrow> int" where
  "dma_bal m [] = 0"
| "dma_bal m (MapSingle b a n d # t) = dma_bal m t + (if (a, n, d) = m then 1 else 0)"
| "dma_bal m (UnmapSingle a n d # t) = dma_bal m t - (if (a, n, d) = m then 1 else 0)"
| "dma_bal m (_ # t) = dma_bal m t"

text \<open>The sk_buffs the driver has freed, oldest first.\<close>

fun freed :: "trace \<Rightarrow> ptr list" where
  "freed [] = []"
| "freed (FreeSkb p # t) = freed t @ [p]"
| "freed (_ # t) = freed t"

text \<open>The packets passed to the stack with their lengths, oldest first.\<close>

fun received :: "trace \<Rightarrow> (ptr \<times> u32) list" where
  "received [] = []"
| "received (RecvSkb p n # t) = received t @ [(p, n)]"
| "received (_ # t) = received t"

text \<open>
  The resources held, newest first. \<open>None\<close>: at some point a resource was given back that was
  not the newest one held (a release out of order, or of something not held).
\<close>

fun held :: "trace \<Rightarrow> res list option" where
  "held [] = Some []"
| "held (Got r # t) = (if r = DmaMask then held t else map_option (Cons r) (held t))"
| "held (Put r # t) =
     (case held t of
        Some (q # qs) \<Rightarrow> if q = r then Some qs else None
      | _ \<Rightarrow> None)"
| "held (_ # t) = held t"

text \<open>\<^verbatim>\<open>pci_dev_msi_enabled\<close>: a successful \<^verbatim>\<open>pci_enable_msi\<close> that no \<^verbatim>\<open>pci_disable_msi\<close> has undone.\<close>

fun msi_bal :: "trace \<Rightarrow> int" where
  "msi_bal [] = 0"
| "msi_bal (Got r # t) = msi_bal t + (if r = Msi then 1 else 0)"
| "msi_bal (Put r # t) = msi_bal t - (if r = Msi then 1 else 0)"
| "msi_bal (_ # t) = msi_bal t"

definition pci_dev_msi_enabled :: "trace \<Rightarrow> bool" where
  "pci_dev_msi_enabled t \<longleftrightarrow> 0 < msi_bal t"

lemma held_msi_bal: "held t = Some h \<Longrightarrow> msi_bal t = int (count_list h Msi)"
  by (induction t arbitrary: h rule: held.induct)
    (auto split: option.splits list.splits if_splits)

lemma held_msi: "held t = Some h \<Longrightarrow> pci_dev_msi_enabled t \<longleftrightarrow> Msi \<in> set h"
  using held_msi_bal [of t h] count_list_0_iff [of h Msi] by (auto simp: pci_dev_msi_enabled_def)

text \<open>
  Traces that differ only by register accesses agree on all ledgers. \<open>ledger\<close> bundles them, so
  that one rewrite rule per hardware operation serves every ledger.
\<close>

definition ledger :: "trace \<Rightarrow> (ptr \<Rightarrow> int) \<times> (dma_map \<Rightarrow> int) \<times> res list option \<times> ptr list
    \<times> (ptr \<times> u32) list" where
  "ledger t = (\<lambda>p. skb_bal p t, \<lambda>m. dma_bal m t, held t, freed t, received t)"

lemma ledger_io [trace_simps]:
  "ledger (R8 r v8 # t) = ledger t" "ledger (R16 r v16 # t) = ledger t"
  "ledger (R32 r v32 # t) = ledger t" "ledger (W8 r v8 # t) = ledger t"
  "ledger (W16 r v16 # t) = ledger t" "ledger (W32 r v32 # t) = ledger t"
  by (simp_all add: ledger_def)

lemma ledger_eqD:
  assumes "ledger t = ledger u"
  shows "skb_bal p t = skb_bal p u" "dma_bal m t = dma_bal m u"
    "held t = held u" "freed t = freed u" "received t = received u"
  using assms unfolding ledger_def prod.inject by (simp_all only: fun_eq_iff)

text \<open>A trace after which the driver owns no sk_buff and no DMA mapping.\<close>

definition clean_trace :: "trace \<Rightarrow> bool" where
  "clean_trace t \<longleftrightarrow> (\<forall>p. skb_bal p t = 0) \<and> (\<forall>m. dma_bal m t = 0)"

lemma clean_trace_ledger: "ledger t = ledger u \<Longrightarrow> clean_trace t = clean_trace u"
  by (simp add: clean_trace_def ledger_eqD [of t u])

lemma clean_trace_res [simp]:
  "clean_trace (Got r # t) = clean_trace t" "clean_trace (Denied r c # t) = clean_trace t"
  "clean_trace (Put r # t) = clean_trace t" "clean_trace (SetMaster # t) = clean_trace t"
  "clean_trace (FlushWork # t) = clean_trace t"
  by (simp_all add: clean_trace_def)

section \<open>Polling a register\<close>

text \<open>
  A polling loop whose test reads a register: the values read, newest first, are at most \<open>n\<close>;
  only the newest can satisfy the exit test, and it does when the loop ends before its bound.
\<close>

lemma poll_loop_reads:
  assumes "\<And>t. test t = (P (rd t), ev (rd t) # t)"
  shows "\<exists>vs. poll_loop n test t = map ev vs @ t \<and> length vs \<le> n
    \<and> (\<forall>v \<in> set (tl vs). \<not> P v) \<and> (length vs < n \<longrightarrow> vs \<noteq> [] \<and> P (hd vs))"
proof (induction n arbitrary: t)
  case 0
  show ?case by (intro exI [of _ "[]"]) simp
next
  case (Suc n)
  show ?case
  proof (cases "P (rd t)")
    case True
    then show ?thesis by (intro exI [of _ "[rd t]"]) (simp add: assms)
  next
    case False
    obtain vs where vs: "poll_loop n test (ev (rd t) # t) = map ev vs @ ev (rd t) # t"
      "length vs \<le> n" "\<forall>v \<in> set (tl vs). \<not> P v" "length vs < n \<longrightarrow> vs \<noteq> [] \<and> P (hd vs)"
      using Suc.IH [of "ev (rd t) # t"] by blast
    have "set (tl (vs @ [rd t])) \<subseteq> set (tl vs) \<union> {rd t}"
      by (cases vs) auto
    moreover have "poll_loop (Suc n) test t = map ev (vs @ [rd t]) @ t"
      using vs(1) False by (simp add: assms [of t])
    ultimately show ?thesis
      using vs(2-4) False by (intro exI [of _ "vs @ [rd t]"]) (auto simp: hd_append)
  qed
qed

end
