(* ===== verification/Ring_Index.thy ===== *)
theory Ring_Index
  imports Prelude
begin

text \<open>
  Laws of free-running ring indices. The locale \<open>ring\<close> states what the descriptor rings of the
  drivers rely on: the number of slots is positive and divides \<open>2 ^ 32\<close>, so that reducing a
  32-bit counter modulo the ring size keeps working when the counter wraps around. The lemmas
  say how a window of slots changes when one of its two counters is incremented. The locale
  \<open>ring_scan\<close> is the contract of a loop over such a ring.
\<close>

locale ring =
  fixes N :: nat
  assumes N_pos: "0 < N"
    and N_less: "N < 2 ^ 32"
    and N_dvd: "N dvd 2 ^ 32"
begin

lemma slot_less [simp]: "ring_slot N i < N"
  using N_pos by (simp add: ring_slot_def)

lemma slot_add: "ring_slot N (d + of_nat j) = (unat d + j) mod N"
proof -
  have "unat (d + of_nat j) = (unat d + j) mod 2 ^ 32"
    by (simp add: unat_word_ariths unat_of_nat mod_add_right_eq)
  then show ?thesis
    by (simp only: ring_slot_def mod_mod_cancel [OF N_dvd])
qed

lemma slot_succ: "ring_slot N (d + 1) = (unat d + 1) mod N"
  using slot_add [of d 1] by simp

lemma window_less: "e \<in> set (ring_window N d c) \<Longrightarrow> e < N"
  using N_pos by (auto simp: ring_window_def)

lemma window_Cons:
  assumes "d \<noteq> c"
  shows "ring_window N d c = ring_slot N d # ring_window N (d + 1) c"
proof -
  define n where "n = unat (c - (d + 1))"
  have len: "unat (c - d) = Suc n"
    using unat_diff_succ [of c d] assms by (auto simp: n_def)
  have "(unat (d + 1) + j) mod N = (unat d + Suc j) mod N" for j
    using slot_succ [of d] by (simp add: ring_slot_def) (metis add_Suc mod_add_left_eq)
  then show ?thesis
    by (simp add: ring_window_def len n_def [symmetric] ring_slot_def map_upt_Suc del: upt_Suc)
qed

lemma window_snoc:
  assumes "c - d \<noteq> - 1"
  shows "ring_window N d (c + 1) = ring_window N d c @ [ring_slot N c]"
proof -
  have "d + of_nat (unat (c - d)) = c" by simp
  then have "ring_slot N c = (unat d + unat (c - d)) mod N"
    using slot_add [of d "unat (c - d)"] by simp
  then show ?thesis
    using unat_succ_diff [OF assms] by (simp add: ring_window_def)
qed

lemma window_distinct:
  assumes "unat (c - d) \<le> N"
  shows "distinct (ring_window N d c)"
proof -
  have le: "i = j" if "i \<le> j" "j < N" "(unat d + j) mod N = (unat d + i) mod N" for i j
  proof -
    have "N dvd j - i"
      using that mod_eq_dvd_iff_nat [of "unat d + i" "unat d + j" N] by simp
    with \<open>j < N\<close> \<open>i \<le> j\<close> show ?thesis
      by (auto dest!: dvd_imp_le)
  qed
  have "inj_on (\<lambda>j. (unat d + j) mod N) {0..<unat (c - d)}"
  proof (rule inj_onI)
    fix i j
    assume "i \<in> {0..<unat (c - d)}" "j \<in> {0..<unat (c - d)}"
      and eq: "(unat d + i) mod N = (unat d + j) mod N"
    with assms have "i < N" "j < N" by simp_all
    then show "i = j"
      using le [of i j] le [of j i] eq by (cases "i \<le> j") (simp_all only: nat_le_linear, simp)
  qed
  then show ?thesis
    by (simp add: ring_window_def distinct_map)
qed

lemma slot_notin_window:
  assumes "unat (c - d) < N"
  shows "ring_slot N c \<notin> set (ring_window N d c)"
proof -
  have "c - d \<noteq> - 1"
  proof
    assume "c - d = - 1"
    then have "1 + unat (c - d) = 2 ^ 32" by (simp add: unat_minus_1_u32)
    with assms N_less show False by simp
  qed
  moreover from this have "unat (c + 1 - d) \<le> N"
    using unat_succ_diff [of c d] assms by simp
  ultimately show ?thesis
    using window_distinct [of "c + 1" d] window_snoc [of c d] by simp
qed

lemma window_full:
  assumes "unat (c - d) = N"
  shows "set (ring_window N d c) = {..<N}"
proof (rule card_subset_eq)
  show "set (ring_window N d c) \<subseteq> {..<N}" by (auto dest: window_less)
  show "card (set (ring_window N d c)) = card {..<N}"
    using distinct_card [OF window_distinct [of c d]] assms by simp
qed simp

lemma window_drop:
  assumes "n \<le> unat (c - d)"
  shows "ring_window N (d + of_nat n) c = drop n (ring_window N d c)
    \<and> unat (c - (d + of_nat n)) = unat (c - d) - n"
  using assms
proof (induction n)
  case (Suc n)
  then have ih: "ring_window N (d + of_nat n) c = drop n (ring_window N d c)"
    "unat (c - (d + of_nat n)) = unat (c - d) - n" by simp_all
  with Suc.prems have ne: "d + of_nat n \<noteq> c" by auto
  have "unat (c - (d + of_nat (Suc n))) = unat (c - d) - Suc n"
    using unat_diff_succ [of c "d + of_nat n"] ne ih(2) by (simp add: algebra_simps)
  moreover have "ring_window N (d + of_nat n + 1) c = drop (Suc n) (ring_window N d c)"
    using window_Cons [OF ne] ih(1) by (metis drop_Suc list.sel(3) tl_drop)
  ultimately show ?case by (simp add: algebra_simps)
qed simp

lemma window_take:
  assumes "unat (b - c) \<le> unat (b' - c)"
  shows "ring_window N c b = take (unat (b - c)) (ring_window N c b')"
  using assms by (simp add: ring_window_def take_map)

lemma unat_diff_add:
  assumes "unat (c - d) + unat (b - c) < 2 ^ 32"
  shows "unat (b - d :: u32) = unat (c - d) + unat (b - c)"
proof -
  have "b - d = (c - d) + (b - c)" by simp
  with assms show ?thesis by (simp only: unat_word_ariths) simp
qed

lemma window_append:
  assumes "unat (c - d) + unat (b - c) < 2 ^ 32"
  shows "ring_window N d b = ring_window N d c @ ring_window N c b"
proof -
  have "unat c mod N = (unat d + unat (c - d)) mod N"
    using slot_add [of d "unat (c - d)"] by (simp add: ring_slot_def)
  then have "(unat c + j) mod N = (unat d + unat (c - d) + j) mod N" for j
    by (metis mod_add_left_eq)
  then show ?thesis
    unfolding ring_window_def unat_diff_add [OF assms] map_upt_add by (simp add: add.assoc)
qed

text \<open>One full round, split at any index in it.\<close>

lemma unat_N: "unat (of_nat N :: u32) = N"
  using N_less by (simp add: unat_of_nat)

lemma window_round:
  assumes "unat (c - d) \<le> N"
  shows "ring_window N d (d + of_nat N) = ring_window N d c @ ring_window N c (d + of_nat N)"
    and "distinct (ring_window N d c @ ring_window N c (d + of_nat N))"
proof -
  have "d + of_nat N - c = of_nat N - (c - d)" by simp
  moreover have "c - d \<le> of_nat N" using assms unat_N by (simp add: word_le_nat_alt)
  ultimately have "unat (d + of_nat N - c) = N - unat (c - d)" by (simp only: unat_sub unat_N)
  with assms N_less show split: "ring_window N d (d + of_nat N) = ring_window N d c @ ring_window N c (d + of_nat N)"
    by (intro window_append) simp
  show "distinct (ring_window N d c @ ring_window N c (d + of_nat N))"
    unfolding split [symmetric] by (rule window_distinct) (simp add: unat_N)
qed

lemma window_disjoint:
  assumes "unat (c - d) + unat (b - c) \<le> N" "e \<in> set (ring_window N c b)"
  shows "e \<notin> set (ring_window N d c)"
proof -
  have lt: "unat (c - d) + unat (b - c) < 2 ^ 32" using assms(1) N_less by linarith
  then have "distinct (ring_window N d c @ ring_window N c b)"
    using window_distinct [of b d] assms(1) unat_diff_add [OF lt] window_append [OF lt] by simp
  with assms(2) show ?thesis by auto
qed

end

section \<open>Scanning a ring\<close>

text \<open>
  A loop that takes the finished slots of a ring, in order, and stops at the first that is not
  finished: the contract that the receive and the transmit loop share. \<open>taken D s s'\<close> is what taking
  the slots \<open>D\<close> does to the state; a slot that is taken does not affect the others.
\<close>

locale ring_scan = ring +
  fixes loop :: "nat \<Rightarrow> u32 \<Rightarrow> 's \<Rightarrow> (u32 \<times> 's) option" and ok :: "'s \<Rightarrow> bool"
    and occupied :: "'s \<Rightarrow> nat \<Rightarrow> bool" and finished :: "'s \<Rightarrow> nat \<Rightarrow> bool"
    and taken :: "nat list \<Rightarrow> 's \<Rightarrow> 's \<Rightarrow> bool"
  assumes loop_end: "loop 0 d s = Some (d, s)"
    and loop_stop: "ok s \<Longrightarrow> \<not> finished s (ring_slot N d) \<Longrightarrow> loop (Suc n) d s = Some (d, s)"
    and loop_next: "ok s \<Longrightarrow> occupied s (ring_slot N d) \<Longrightarrow> finished s (ring_slot N d) \<Longrightarrow>
      \<exists>s1. loop (Suc n) d s = loop n (d + 1) s1 \<and> taken [ring_slot N d] s s1"
    and taken_none: "ok s \<Longrightarrow> taken [] s s"
    and taken_more: "taken [e] s s1 \<Longrightarrow> taken D s1 s2 \<Longrightarrow> e \<notin> set D \<Longrightarrow> taken (e # D) s s2"
    and taken_ok: "taken D s s1 \<Longrightarrow> ok s1"
    and taken_others: "taken [e] s s1 \<Longrightarrow> x \<noteq> e \<Longrightarrow> occupied s1 x = occupied s x \<and> finished s1 x = finished s x"
begin

lemma scan_spec:
  assumes "ok s" "unat (c - d) \<le> N" "\<forall>e \<in> set (ring_window N d c). occupied s e"
  shows "\<exists>s'. loop (unat (c - d)) d s = Some (d + of_nat (length (takeWhile (finished s) (ring_window N d c))), s')
    \<and> taken (takeWhile (finished s) (ring_window N d c)) s s'"
  using assms
proof (induction "unat (c - d)" arbitrary: d s)
  case 0
  then have "c = d" by (simp add: unat_eq_zero)
  with 0 show ?case by (simp add: loop_end taken_none)
next
  case (Suc n)
  let ?e = "ring_slot N d" and ?W = "ring_window N (d + 1) c"
  have "d \<noteq> c" using Suc.hyps(2) by auto
  then have W: "ring_window N d c = ?e # ?W" by (rule window_Cons)
  have n: "n = unat (c - (d + 1))" using Suc.hyps(2) unat_diff_succ [of c d] \<open>d \<noteq> c\<close> by simp
  have disj: "?e \<notin> set ?W" using window_distinct [OF Suc.prems(2)] W by simp
  show ?case
  proof (cases "finished s ?e")
    case False
    from loop_stop [OF Suc.prems(1) this] Suc.prems(1) False show ?thesis
      unfolding Suc.hyps(2) [symmetric] by (simp add: W taken_none)
  next
    case True
    have "occupied s ?e" using Suc.prems(3) by (simp add: W)
    from loop_next [OF Suc.prems(1) this True] obtain s1 where
      s1: "loop (Suc n) d s = loop n (d + 1) s1" "taken [?e] s s1" by blast
    have other: "occupied s1 x = occupied s x" "finished s1 x = finished s x" if "x \<in> set ?W" for x
      using taken_others [OF s1(2), of x] that disj by auto
    have same: "takeWhile (finished s1) ?W = takeWhile (finished s) ?W"
      by (rule takeWhile_cong) (simp_all add: other)
    have "unat (c - (d + 1)) \<le> N" "\<forall>e \<in> set ?W. occupied s1 e"
      using Suc.prems(2,3) Suc.hyps(2) n other(1) by (simp_all add: W)
    from Suc.hyps(1) [OF n taken_ok [OF s1(2)] this] obtain s2 where
      s2: "loop n (d + 1) s1 = Some (d + 1 + of_nat (length (takeWhile (finished s) ?W)), s2)"
        "taken (takeWhile (finished s) ?W) s1 s2"
      by (auto simp: same n)
    have "?e \<notin> set (takeWhile (finished s) ?W)" using disj by (auto dest: set_takeWhileD)
    from taken_more [OF s1(2) s2(2) this] s1(1) s2(1) True show ?thesis
      unfolding Suc.hyps(2) [symmetric] by (simp add: W)
  qed
qed

end

end
