(* ===== verification/Net_Types.thy ===== *)
theory Net_Types
  imports Kernel_Env Ring_Index
begin

text \<open>
  \<^verbatim>\<open>Rt8169Drv/net_stk.h\<close>: the driver's data. The state of the model is one record: the part of
  \<^verbatim>\<open>struct net_device\<close> that the driver reads or writes (statistics, queue and carrier state, NAPI
  state, addresses) with the trace of the device, extended by \<^verbatim>\<open>struct DrvPvt\<close>. A null
  descriptor array is \<open>None\<close>. Also here: the kernel primitives on these flags that the driver
  calls. A call that would stop the kernel (a lock taken twice, NAPI enabled twice, a dereference
  of a null pointer) is \<open>None\<close>.
\<close>

section \<open>Constants\<close>

definition NUM_TX_DESC :: nat where "NUM_TX_DESC = 1024"
definition NUM_RX_DESC :: nat where "NUM_RX_DESC = 1024"

interpretation txr: ring NUM_TX_DESC
  by unfold_locales (simp_all add: NUM_TX_DESC_def)

interpretation rxr: ring NUM_RX_DESC
  by unfold_locales (simp_all add: NUM_RX_DESC_def)

section \<open>Structures\<close>

record RingInfo =
  ri_skb :: "ptr option"
  ri_len :: u32

record net_device_stats =
  rx_packets :: u64
  tx_packets :: u64
  rx_bytes :: u64
  tx_bytes :: u64
  rx_errors :: u64
  tx_dropped :: u64
  rx_length_errors :: u64
  rx_crc_errors :: u64

record net_device =
  tr :: trace
  stats :: net_device_stats
  queue_stopped :: bool
  carrier_ok :: bool
  netif_running :: bool
  napi_enabled :: bool
  napi_scheduled :: bool
  dev_addr :: "u8 list"
  perm_addr :: "u8 list"
  addr_len :: nat
  trans_start :: u64

record DrvPvt = net_device +
  lock :: bool
  cur_rx :: u32
  cur_tx :: u32
  dirty_rx :: u32
  dirty_tx :: u32
  RxDescArray :: "Desc list option"
  TxDescArray :: "Desc list option"
  RxPhyAddr :: u64
  TxPhyAddr :: u64
  rx_skbuff :: "ptr option list"
  tx_skb :: "RingInfo list"
  rx_buf_sz :: u32
  link_timer :: "u64 option"
  task :: bool

text \<open>The packet the stack hands to \<^verbatim>\<open>ndo_start_xmit\<close>: address, length, number of fragments.\<close>

record sk_buff =
  skb_ptr :: ptr
  skb_len :: u32
  nr_frags :: u32

datatype netdev_tx = NETDEV_TX_OK | NETDEV_TX_BUSY
datatype irqreturn = IRQ_NONE | IRQ_HANDLED

section \<open>Kernel primitives on the state\<close>

definition spin_lock :: "DrvPvt \<Rightarrow> DrvPvt option" where
  "spin_lock s = (if lock s then None else Some (s\<lparr>lock := True\<rparr>))"

definition spin_unlock :: "DrvPvt \<Rightarrow> DrvPvt" where
  "spin_unlock s = s\<lparr>lock := False\<rparr>"

definition netif_stop_queue :: "'a net_device_scheme \<Rightarrow> 'a net_device_scheme" where
  "netif_stop_queue s = s\<lparr>queue_stopped := True\<rparr>"

definition netif_start_queue :: "'a net_device_scheme \<Rightarrow> 'a net_device_scheme" where
  "netif_start_queue s = s\<lparr>queue_stopped := False\<rparr>"

definition netif_wake_queue :: "'a net_device_scheme \<Rightarrow> 'a net_device_scheme" where
  "netif_wake_queue s = s\<lparr>queue_stopped := False\<rparr>"

definition netif_carrier_on :: "'a net_device_scheme \<Rightarrow> 'a net_device_scheme" where
  "netif_carrier_on s = s\<lparr>carrier_ok := True\<rparr>"

definition netif_carrier_off :: "'a net_device_scheme \<Rightarrow> 'a net_device_scheme" where
  "netif_carrier_off s = s\<lparr>carrier_ok := False\<rparr>"

text \<open>\<^verbatim>\<open>napi_enable\<close> has a \<^verbatim>\<open>BUG_ON\<close> for an instance that is enabled already.\<close>

definition napi_enable :: "'a net_device_scheme \<Rightarrow> 'a net_device_scheme option" where
  "napi_enable s = (if napi_enabled s then None else Some (s\<lparr>napi_enabled := True\<rparr>))"

text \<open>
  \<^verbatim>\<open>napi_disable\<close> waits for a scheduled poll to finish, and forever on a disabled instance. The
  step is taken only when it does not have to wait.
\<close>

definition napi_disable :: "'a net_device_scheme \<Rightarrow> 'a net_device_scheme option" where
  "napi_disable s =
     (if napi_enabled s \<and> \<not> napi_scheduled s then Some (s\<lparr>napi_enabled := False\<rparr>) else None)"

definition napi_schedule :: "'a net_device_scheme \<Rightarrow> 'a net_device_scheme" where
  "napi_schedule s = (if napi_enabled s then s\<lparr>napi_scheduled := True\<rparr> else s)"

definition napi_complete :: "'a net_device_scheme \<Rightarrow> 'a net_device_scheme" where
  "napi_complete s = s\<lparr>napi_scheduled := False\<rparr>"

definition schedule_delayed_work :: "DrvPvt \<Rightarrow> DrvPvt" where
  "schedule_delayed_work s = s\<lparr>task := True\<rparr>"

text \<open>
  \<^verbatim>\<open>INIT_DELAYED_WORK\<close> writes over the work item and its timer. When the timer is still armed, it is a node of the kernel's
  timer lists that is overwritten; no result, like a fault.
\<close>

definition init_delayed_work :: "DrvPvt \<Rightarrow> DrvPvt option" where
  "init_delayed_work s = (if task s then None else Some (s\<lparr>task := False\<rparr>))"

lemmas netif_defs = netif_stop_queue_def netif_start_queue_def netif_wake_queue_def
  netif_carrier_on_def netif_carrier_off_def

lemmas napi_defs = napi_enable_def napi_disable_def napi_schedule_def napi_complete_def

end
