(* ===== verification/Phy.thy ===== *)
theory Phy
  imports Net_Types
begin

text \<open>
  \<^verbatim>\<open>Rt8169Drv/phy.c\<close>: MII access through the PHYAR register. The operations only touch the
  device, so they are functions on the trace. A PHY register write is one 32-bit command word
  followed by at most ten polls of the completion flag.
\<close>

section \<open>Bits\<close>

datatype PhyBits =
    PHYAR_Flag | PHYAR_Write | PHYAR_Read | PHYAR_Reg_Mask | PHYAR_Data_Mask
  | TxFlowCtrl | RxFlowCtrl | Bps100 | Bps10 | LinkStatus | FullDup

primrec phybit :: "PhyBits \<Rightarrow> u32" where
  "phybit PHYAR_Flag = 0x80000000"
| "phybit PHYAR_Write = 0x80000000"
| "phybit PHYAR_Read = 0x00000000"
| "phybit PHYAR_Reg_Mask = 0x1f"
| "phybit PHYAR_Data_Mask = 0xffff"
| "phybit TxFlowCtrl = 0x40"
| "phybit RxFlowCtrl = 0x20"
| "phybit Bps100 = 0x08"
| "phybit Bps10 = 0x04"
| "phybit LinkStatus = 0x02"
| "phybit FullDup = 0x01"

definition PHYAR_Reg_Shift :: nat where
  "PHYAR_Reg_Shift = 16"

section \<open>Operations\<close>

text \<open>The command word of a write, and one round of the completion loop.\<close>

definition phyar_cmd :: "u32 \<Rightarrow> u32 \<Rightarrow> u32" where
  "phyar_cmd reg_addr value =
     phybit PHYAR_Write
     OR push_bit PHYAR_Reg_Shift (reg_addr AND phybit PHYAR_Reg_Mask)
     OR (value AND phybit PHYAR_Data_Mask)"

definition phy_write_done :: "env \<Rightarrow> trace \<Rightarrow> bool \<times> trace" where
  "phy_write_done E t =
     (let (v, t) = REG_R32 E (reg PHYAR) t in (v AND phybit PHYAR_Flag = 0, t))"

definition phy_reg_write :: "env \<Rightarrow> u32 \<Rightarrow> u32 \<Rightarrow> trace \<Rightarrow> trace" where
  "phy_reg_write E reg_addr value t =
     poll_loop 10 (phy_write_done E) (REG_W32 (phyar_cmd reg_addr value) (reg PHYAR) t)"

definition phy_power_up :: "env \<Rightarrow> trace \<Rightarrow> trace" where
  "phy_power_up E t = phy_reg_write E (MII_BMCR E) (BMCR_ANENABLE E) t"

definition phy_power_down :: "env \<Rightarrow> trace \<Rightarrow> trace" where
  "phy_power_down E t = phy_reg_write E (MII_BMCR E) (BMCR_PDOWN E) t"

definition phy_link_status_on :: "env \<Rightarrow> trace \<Rightarrow> bool \<times> trace" where
  "phy_link_status_on E t =
     (let (v, t) = REG_R8 E (reg PHYstatus) t in (v AND ucast (phybit LinkStatus) \<noteq> 0, t))"

section \<open>The command word\<close>

lemma phybit_masks:
  "phybit PHYAR_Flag = push_bit 31 1" "phybit PHYAR_Write = push_bit 31 1"
  "phybit PHYAR_Reg_Mask = mask 5" "phybit PHYAR_Data_Mask = mask 16"
  by (simp_all add: mask_eq_exp_minus_1)

lemma bit_phyar_cmd:
  "bit (phyar_cmd a v) n \<longleftrightarrow>
     n = 31 \<or> (16 \<le> n \<and> n < 21 \<and> bit a (n - 16)) \<or> (n < 16 \<and> bit v n)"
  unfolding phyar_cmd_def phybit_masks PHYAR_Reg_Shift_def bit_or_iff bit_single_bit
  by (auto simp: bit_and_iff bit_push_bit_iff bit_mask_iff)

lemma phyar_cmd_data: "phyar_cmd a v AND phybit PHYAR_Data_Mask = v AND phybit PHYAR_Data_Mask"
  unfolding phybit_masks
  by (rule bit_word_eqI) (auto simp: bit_and_iff bit_mask_iff bit_phyar_cmd)

lemma phyar_cmd_reg:
  "drop_bit PHYAR_Reg_Shift (phyar_cmd a v) AND phybit PHYAR_Reg_Mask = a AND phybit PHYAR_Reg_Mask"
  unfolding phybit_masks PHYAR_Reg_Shift_def
  by (rule bit_word_eqI) (auto simp: bit_and_iff bit_drop_bit_eq bit_mask_iff bit_phyar_cmd)

lemma phyar_cmd_flag: "phyar_cmd a v AND phybit PHYAR_Flag \<noteq> 0"
  unfolding phybit_masks and_single_bit by (simp add: bit_phyar_cmd)

section \<open>Traces of the operations\<close>

lemma phy_write_done_ledger [trace_simps]: "ledger (snd (phy_write_done E t)) = ledger t"
  by (simp add: phy_write_done_def REG_defs Let_def trace_simps)

lemma phy_reg_write_ledger [trace_simps]: "ledger (phy_reg_write E a v t) = ledger t"
  unfolding phy_reg_write_def
  by (simp add: poll_loop_same [where f = ledger, OF phy_write_done_ledger] REG_defs trace_simps)

lemma phy_power_ledger [trace_simps]:
  "ledger (phy_power_up E t) = ledger t" "ledger (phy_power_down E t) = ledger t"
  by (simp_all add: phy_power_up_def phy_power_down_def trace_simps)

lemma phy_link_status_ledger [trace_simps]: "ledger (snd (phy_link_status_on E t)) = ledger t"
  by (simp add: phy_link_status_on_def REG_defs Let_def trace_simps)

lemma phy_write_done_last_w16 [trace_simps]:
  "last_w16 r (snd (phy_write_done E t)) = last_w16 r t"
  by (simp add: phy_write_done_def REG_defs Let_def)

lemma phy_reg_write_last_w16 [trace_simps]: "last_w16 r (phy_reg_write E a v t) = last_w16 r t"
  unfolding phy_reg_write_def
  by (simp add: poll_loop_same [where f = "last_w16 r", OF phy_write_done_last_w16] REG_defs)

lemma phy_power_last_w16 [trace_simps]:
  "last_w16 r (phy_power_up E t) = last_w16 r t" "last_w16 r (phy_power_down E t) = last_w16 r t"
  by (simp_all add: phy_power_up_def phy_power_down_def trace_simps)

lemma phy_link_status_last_w16 [trace_simps]:
  "last_w16 r (snd (phy_link_status_on E t)) = last_w16 r t"
  by (simp add: phy_link_status_on_def REG_defs Let_def)

text \<open>
  What a PHY write does on the bus: one command word, then at most ten reads of PHYAR; the loop
  ends early only on a read that shows the flag clear.
\<close>

lemma phy_reg_write_bus:
  "\<exists>vs. phy_reg_write E a v t = map (R32 (reg PHYAR)) vs @ W32 (reg PHYAR) (phyar_cmd a v) # t
    \<and> length vs \<le> 10
    \<and> (length vs < 10 \<longrightarrow> vs \<noteq> [] \<and> hd vs AND phybit PHYAR_Flag = 0)"
proof -
  have "phy_write_done E u = (ioread32 E u (reg PHYAR) AND phybit PHYAR_Flag = 0,
      R32 (reg PHYAR) (ioread32 E u (reg PHYAR)) # u)" for u
    by (simp add: phy_write_done_def REG_defs Let_def)
  from poll_loop_reads [of "phy_write_done E" "\<lambda>v. v AND phybit PHYAR_Flag = 0"
      "\<lambda>u. ioread32 E u (reg PHYAR)" "R32 (reg PHYAR)" 10, OF this]
  show ?thesis unfolding phy_reg_write_def REG_W32_def by blast
qed

end
