(* ===== verification/Mac.thy ===== *)
theory Mac
  imports Phy
begin

text \<open>
  \<^verbatim>\<open>Rt8169Drv/mac.c\<close>: interrupt mask and status, chip reset, the station address, and the
  programming of the chip. Operations that get \<^verbatim>\<open>reg_base\<close> only are functions on the trace,
  those that get the device work on the driver state.
\<close>

section \<open>Operations\<close>

definition rtl8101_enable_interrupts :: "u16 \<Rightarrow> trace \<Rightarrow> trace" where
  "rtl8101_enable_interrupts intr_mask t = REG_W16 intr_mask (reg IntrMask) t"

definition rtl8101_disable_n_clear_interrupts :: "env \<Rightarrow> trace \<Rightarrow> trace" where
  "rtl8101_disable_n_clear_interrupts E t =
     (let t = REG_W16 0x0000 (reg IntrMask) t;
          (v, t) = REG_R16 E (reg IntrStatus) t
      in REG_W16 v (reg IntrStatus) t)"

definition rtl8101_get_intr_status :: "env \<Rightarrow> trace \<Rightarrow> u16 \<times> trace" where
  "rtl8101_get_intr_status E t = REG_R16 E (reg IntrStatus) t"

text \<open>The copy loop of \<^verbatim>\<open>rtl8101_get_mac_address\<close>, from index \<open>i\<close> for \<open>n\<close> more bytes.\<close>

primrec mac_addr_loop :: "env \<Rightarrow> nat \<Rightarrow> nat \<Rightarrow> 'a net_device_scheme \<Rightarrow> 'a net_device_scheme option" where
  "mac_addr_loop E 0 i s = Some s"
| "mac_addr_loop E (Suc n) i s =
     (let (v, t) = REG_R8 E (reg MAC0 + i) (tr s)
      in if i < length (dev_addr s) \<and> i < length (perm_addr s)
         then mac_addr_loop E n (Suc i)
                (s\<lparr>tr := t, dev_addr := (dev_addr s)[i := v], perm_addr := (perm_addr s)[i := v]\<rparr>)
         else None)"

definition rtl8101_get_mac_address :: "env \<Rightarrow> 'a net_device_scheme \<Rightarrow> 'a net_device_scheme option" where
  "rtl8101_get_mac_address E s =
     (let t = REG_W8 (cfgbit Cfg9346_Unlock) (reg Cfg9346) (tr s);
          (v, t) = REG_R8 E (reg MAC0 + 0) t;
          v = v + 1;
          t = REG_W8 v (reg MAC0 + 0) t;
          t = REG_W8 (cfgbit Cfg9346_Lock) (reg Cfg9346) t
      in if dev_addr s = [] then None
         else mac_addr_loop E (addr_len s) 0 (s\<lparr>tr := t, dev_addr := (dev_addr s)[0 := v]\<rparr>))"

definition nic_reset_done :: "env \<Rightarrow> trace \<Rightarrow> bool \<times> trace" where
  "nic_reset_done E t =
     (let (v, t) = REG_R8 E (reg ChipCmd) t in (v AND cmdbit CmdReset = 0, t))"

definition rtl8101_nic_reset :: "env \<Rightarrow> trace \<Rightarrow> trace" where
  "rtl8101_nic_reset E t =
     (let t = REG_W32 (rxcfg RxDMAUnlimited) (reg RxConfig) t;
          t = REG_W8 (cmdbit CmdReset) (reg ChipCmd) t
      in poll_loop 100 (nic_reset_done E) t)"

definition rtl8101_hw_reset :: "env \<Rightarrow> trace \<Rightarrow> trace" where
  "rtl8101_hw_reset E t = rtl8101_nic_reset E (rtl8101_disable_n_clear_interrupts E t)"

definition rtl8101_desc_addr_fill :: "DrvPvt \<Rightarrow> DrvPvt" where
  "rtl8101_desc_addr_fill s =
     (if TxPhyAddr s = 0 \<or> RxPhyAddr s = 0 then s
      else
        let t = REG_W32 (ucast (TxPhyAddr s AND mask 32)) (reg TxDescStartAddrLow) (tr s);
            t = REG_W32 (ucast (drop_bit 32 (TxPhyAddr s))) (reg TxDescStartAddrHigh) t;
            t = REG_W32 (ucast (RxPhyAddr s AND mask 32)) (reg RxDescAddrLow) t;
            t = REG_W32 (ucast (drop_bit 32 (RxPhyAddr s))) (reg RxDescAddrHigh) t
        in s\<lparr>tr := t\<rparr>)"

definition rtl8101_set_rx_mode :: "env \<Rightarrow> trace \<Rightarrow> trace" where
  "rtl8101_set_rx_mode E t =
     (let (v, t) = REG_R32 E (reg RxConfig) t;
          rx_mode = v AND rxcfg RxConfigMask;
          rx_mode = rx_mode OR (rxcfg RxFIFONone OR rxcfg RxDMAUnlimited);
          rx_mode = rx_mode OR (rxcfg AcceptBroadcast OR rxcfg AcceptMulticast OR rxcfg AcceptMyPhys);
          t = REG_W32 rx_mode (reg RxConfig) t;
          t = REG_W32 (NOT 0) (reg MAR0 + 0) t
      in REG_W32 (NOT 0) (reg MAR0 + 4) t)"

definition rtl8101_hw_init :: "env \<Rightarrow> DrvPvt \<Rightarrow> DrvPvt" where
  "rtl8101_hw_init E s =
     (let s = netif_stop_queue s;
          s = s\<lparr>tr := rtl8101_hw_reset E (tr s)\<rparr>;
          s = s\<lparr>tr := REG_W8 (cfgbit Cfg9346_Unlock) (reg Cfg9346) (tr s)\<rparr>;
          s = rtl8101_desc_addr_fill s;
          t = REG_W8 0x3F (reg MTPS) (tr s);
          t = REG_W32 (txcfg TxDMAUnlimited OR txcfg TxIFG96) (reg TxConfig) t;
          t = REG_W32 (rxcfg RxDMAUnlimited) (reg RxConfig) t;
          t = REG_W16 (ucast (rx_buf_sz s)) (reg RxMaxSize) t;
          t = rtl8101_set_rx_mode E t;
          t = REG_W8 (cfgbit Cfg9346_Lock) (reg Cfg9346) t;
          t = REG_W8 (cmdbit CmdTxEnb OR cmdbit CmdRxEnb) (reg ChipCmd) t;
          t = rtl8101_enable_interrupts IntrEnMask t;
          s = s\<lparr>tr := t\<rparr>
      in netif_start_queue s)"

definition rtl8101_notify_for_tx :: "trace \<Rightarrow> trace" where
  "rtl8101_notify_for_tx t = REG_W8 (pollbit NPQ) (reg TxPoll) t"

section \<open>Ledgers and register views along the operations\<close>

lemma nic_reset_done_views [trace_simps]:
  "ledger (snd (nic_reset_done E t)) = ledger t"
  "last_w8 r (snd (nic_reset_done E t)) = last_w8 r t"
  "last_w16 r (snd (nic_reset_done E t)) = last_w16 r t"
  "last_w32 r (snd (nic_reset_done E t)) = last_w32 r t"
  by (simp_all add: nic_reset_done_def REG_defs Let_def trace_simps)

lemma nic_reset_poll_views [trace_simps]:
  "ledger (poll_loop n (nic_reset_done E) t) = ledger t"
  "last_w8 r (poll_loop n (nic_reset_done E) t) = last_w8 r t"
  "last_w16 r (poll_loop n (nic_reset_done E) t) = last_w16 r t"
  "last_w32 r (poll_loop n (nic_reset_done E) t) = last_w32 r t"
  by (rule poll_loop_same, simp add: trace_simps)+

lemmas mac_io_defs = rtl8101_enable_interrupts_def rtl8101_disable_n_clear_interrupts_def
  rtl8101_nic_reset_def rtl8101_hw_reset_def rtl8101_set_rx_mode_def rtl8101_notify_for_tx_def
  rtl8101_get_intr_status_def REG_defs Let_def

lemma mac_ledger [trace_simps]:
  "ledger (rtl8101_enable_interrupts m t) = ledger t"
  "ledger (rtl8101_disable_n_clear_interrupts E t) = ledger t"
  "ledger (rtl8101_hw_reset E t) = ledger t"
  "ledger (rtl8101_set_rx_mode E t) = ledger t"
  "ledger (rtl8101_notify_for_tx t) = ledger t"
  "ledger (snd (rtl8101_get_intr_status E t)) = ledger t"
  by (simp_all add: mac_io_defs trace_simps)

text \<open>The value last written to the interrupt mask register.\<close>

definition irq_mask :: "trace \<Rightarrow> u16 option" where
  "irq_mask t = last_w16 (reg IntrMask) t"

lemma irq_mask_skip [trace_simps]:
  "irq_mask (AllocSkb k # t) = irq_mask t" "irq_mask (TakeSkb p # t) = irq_mask t"
  "irq_mask (FreeSkb p # t) = irq_mask t" "irq_mask (RecvSkb p n # t) = irq_mask t"
  "irq_mask (MapSingle p a n d # t) = irq_mask t" "irq_mask (UnmapSingle a n d # t) = irq_mask t"
  "irq_mask (Got r # t) = irq_mask t" "irq_mask (Denied r c # t) = irq_mask t"
  "irq_mask (Put r # t) = irq_mask t" "irq_mask (SyncIrq # t) = irq_mask t"
  "irq_mask (SyncSched # t) = irq_mask t" "irq_mask (FlushWork # t) = irq_mask t"
  by (simp_all add: irq_mask_def)

lemma mac_irq_mask [trace_simps]:
  "irq_mask (rtl8101_enable_interrupts m t) = Some m"
  "irq_mask (rtl8101_disable_n_clear_interrupts E t) = Some 0"
  "irq_mask (rtl8101_hw_reset E t) = Some 0"
  "irq_mask (rtl8101_notify_for_tx t) = irq_mask t"
  "irq_mask (snd (rtl8101_get_intr_status E t)) = irq_mask t"
  "irq_mask (snd (phy_link_status_on E t)) = irq_mask t"
  "irq_mask (phy_power_up E t) = irq_mask t"
  "irq_mask (phy_power_down E t) = irq_mask t"
  by (simp_all add: irq_mask_def mac_io_defs trace_simps)

text \<open>
  \<^verbatim>\<open>rtl8101_hw_init\<close> changes the trace and starts the queue; the rest of the state is framed. The
  trace it leaves has its own name, so that callers see only the new trace.
\<close>

definition hw_init_trace :: "env \<Rightarrow> DrvPvt \<Rightarrow> trace" where
  "hw_init_trace E s = tr (rtl8101_hw_init E s)"

lemma hw_init_state: "rtl8101_hw_init E s = s\<lparr>tr := hw_init_trace E s, queue_stopped := False\<rparr>"
  by (simp add: hw_init_trace_def rtl8101_hw_init_def rtl8101_desc_addr_fill_def netif_defs Let_def)

lemma hw_init_trace_ledger [trace_simps]: "ledger (hw_init_trace E s) = ledger (tr s)"
  by (simp add: hw_init_trace_def rtl8101_hw_init_def rtl8101_desc_addr_fill_def netif_defs
      REG_defs Let_def trace_simps)

lemma hw_init_trace_mask [trace_simps]:
  "irq_mask (hw_init_trace E s) = Some IntrEnMask"
  by (simp add: hw_init_trace_def rtl8101_hw_init_def netif_defs Let_def trace_simps)

end
