(* ===== verification/Buffers.thy ===== *)
theory Buffers
  imports Mac
begin

text \<open>
  \<^verbatim>\<open>Rt8169Drv/net_stk.c\<close>, buffer management: the transmit and receive descriptor rings with the
  sk_buffs attached to them. A pointer into a ring is modelled by the index of the slot. The
  result is \<open>None\<close> where the code would dereference a null ring or leave an array.
\<close>

section \<open>Constants and macros\<close>

definition RTK_RX_ALIGN :: u32 where "RTK_RX_ALIGN = 8"
definition RX_BUF_SIZE :: u32 where "RX_BUF_SIZE = 0x05F3"

text \<open>Free transmit slots, in the wrapping 32-bit arithmetic of the macro.\<close>

definition TX_BUFFS_AVAIL :: "DrvPvt \<Rightarrow> u32" where
  "TX_BUFFS_AVAIL s = dirty_tx s + of_nat NUM_TX_DESC - cur_tx s - 1"

section \<open>Transmit ring\<close>

definition rtl8101_unmap_tx_skb :: "nat \<Rightarrow> DrvPvt \<Rightarrow> DrvPvt option" where
  "rtl8101_unmap_tx_skb entry s = do {
     r \<leftarrow> idx (tx_skb s) entry;
     descs \<leftarrow> TxDescArray s;
     d \<leftarrow> idx descs entry;
     Some (s\<lparr>tr := UnmapSingle (addr d) (ri_len r) ToDevice # tr s,
             TxDescArray := Some (descs[entry := d\<lparr>opts1 := 0x00, opts2 := 0x00, addr := 0x00\<rparr>]),
             tx_skb := (tx_skb s)[entry := r\<lparr>ri_len := 0\<rparr>]\<rparr>)
   }"

text \<open>\<^verbatim>\<open>dev_kfree_skb(skb); tx_skb->skb = NULL\<close> for the packet of a slot.\<close>

definition free_tx_skb :: "nat \<Rightarrow> ptr \<Rightarrow> DrvPvt \<Rightarrow> DrvPvt" where
  "free_tx_skb entry p s =
     s\<lparr>tr := FreeSkb p # tr s, tx_skb := (tx_skb s)[entry := (tx_skb s ! entry)\<lparr>ri_skb := None\<rparr>]\<rparr>"

text \<open>The body of the loop of \<^verbatim>\<open>rtl8101_tx_clear\<close>, then the loop (\<^verbatim>\<open>i < pvt->dirty_tx + NUM_TX_DESC\<close>).\<close>

definition tx_clear_slot :: "nat \<Rightarrow> DrvPvt \<Rightarrow> DrvPvt option" where
  "tx_clear_slot entry s = do {
     r \<leftarrow> idx (tx_skb s) entry;
     if ri_len r \<noteq> 0 then do {
       s \<leftarrow> rtl8101_unmap_tx_skb entry s;
       let s = (case ri_skb r of None \<Rightarrow> s | Some p \<Rightarrow> free_tx_skb entry p s);
       Some (s\<lparr>stats := (stats s)\<lparr>tx_dropped := tx_dropped (stats s) + 1\<rparr>\<rparr>)
     }
     else Some s
   }"

function tx_clear_loop :: "u32 \<Rightarrow> u32 \<Rightarrow> DrvPvt \<Rightarrow> DrvPvt option" where
  "tx_clear_loop i bound s =
     (if i < bound then do {
        s \<leftarrow> tx_clear_slot (unat i mod NUM_TX_DESC) s;
        tx_clear_loop (i + 1) bound s
      }
      else Some s)"
  by pat_completeness auto
termination
proof (relation "measure (\<lambda>(i, bound, s). unat bound - unat i)")
  fix i bound :: u32 and s s' :: DrvPvt
  assume "i < bound"
  then have "unat (i + 1) = Suc (unat i)" "unat i < unat bound"
    by (simp_all add: unat_succ_less word_less_nat_alt)
  then show "((i + 1, bound, s'), i, bound, s) \<in> measure (\<lambda>(i, bound, s). unat bound - unat i)"
    by simp
qed simp

declare tx_clear_loop.simps [simp del]

definition rtl8101_tx_clear :: "DrvPvt \<Rightarrow> DrvPvt option" where
  "rtl8101_tx_clear s = do {
     s \<leftarrow> tx_clear_loop (dirty_tx s) (dirty_tx s + of_nat NUM_TX_DESC) s;
     Some (s\<lparr>cur_tx := 0, dirty_tx := 0\<rparr>)
   }"

section \<open>Receive ring\<close>

definition rtl8101_make_unusable_by_asic :: "Desc \<Rightarrow> Desc" where
  "rtl8101_make_unusable_by_asic d =
     d\<lparr>addr := 0x0badbadbadbadbad, opts1 := opts1 d AND NOT (dbit DescOwn OR 0x3fffc000)\<rparr>"

definition rtl8101_mark_to_asic :: "u32 \<Rightarrow> Desc \<Rightarrow> Desc" where
  "rtl8101_mark_to_asic sz d =
     (let eor = opts1 d AND dbit RingEnd in d\<lparr>opts1 := dbit DescOwn OR eor OR sz\<rparr>)"

definition rtl8101_map_to_asic :: "u64 \<Rightarrow> u32 \<Rightarrow> Desc \<Rightarrow> Desc" where
  "rtl8101_map_to_asic mapping sz d = rtl8101_mark_to_asic sz (d\<lparr>addr := mapping\<rparr>)"

definition rtl8101_alloc_rx_skb :: "env \<Rightarrow> nat \<Rightarrow> DrvPvt \<Rightarrow> (int \<times> DrvPvt) option" where
  "rtl8101_alloc_rx_skb E i s =
     (let skb = alloc_skb E (tr s) (rx_buf_sz s + RTK_RX_ALIGN);
          s = s\<lparr>tr := AllocSkb skb # tr s\<rparr>
      in case skb of
           None \<Rightarrow> Some (- ENOMEM, s)
         | Some p \<Rightarrow> do {
             _ \<leftarrow> idx (rx_skbuff s) i;
             descs \<leftarrow> RxDescArray s;
             d \<leftarrow> idx descs i;
             let mapping = map_addr E (tr s) p;
             Some (0, s\<lparr>tr := MapSingle p mapping (rx_buf_sz s) FromDevice # tr s,
                        rx_skbuff := (rx_skbuff s)[i := Some p],
                        RxDescArray :=
                          Some (descs[i := rtl8101_map_to_asic mapping (rx_buf_sz s) d])\<rparr>)
           })"

definition rtl8101_free_rx_skb :: "nat \<Rightarrow> ptr \<Rightarrow> DrvPvt \<Rightarrow> DrvPvt option" where
  "rtl8101_free_rx_skb i p s = do {
     descs \<leftarrow> RxDescArray s;
     d \<leftarrow> idx descs i;
     Some (s\<lparr>tr := FreeSkb p # UnmapSingle (addr d) (rx_buf_sz s) FromDevice # tr s,
             rx_skbuff := (rx_skbuff s)[i := None],
             RxDescArray := Some (descs[i := rtl8101_make_unusable_by_asic d])\<rparr>)
   }"

text \<open>
  The loop of \<^verbatim>\<open>rtl8101_rx_fill\<close> (\<^verbatim>\<open>end - cur > 0\<close>, unsigned) returns the final \<^verbatim>\<open>cur\<close>.
\<close>

function rx_fill_loop :: "env \<Rightarrow> u32 \<Rightarrow> u32 \<Rightarrow> DrvPvt \<Rightarrow> (u32 \<times> DrvPvt) option" where
  "rx_fill_loop E cur stop s =
     (if stop - cur > 0 then do {
        let i = unat cur mod NUM_RX_DESC;
        skb \<leftarrow> idx (rx_skbuff s) i;
        if skb \<noteq> None then rx_fill_loop E (cur + 1) stop s
        else do {
          (ret, s) \<leftarrow> rtl8101_alloc_rx_skb E i s;
          if ret < 0 then Some (cur, s) else rx_fill_loop E (cur + 1) stop s
        }
      }
      else Some (cur, s))"
  by pat_completeness auto
termination
  by (relation "measure (\<lambda>(E, cur, stop, s). unat (stop - cur))")
    (simp_all add: unat_diff_succ_less)

declare rx_fill_loop.simps [simp del]

definition rtl8101_rx_fill :: "env \<Rightarrow> u32 \<Rightarrow> u32 \<Rightarrow> DrvPvt \<Rightarrow> (u32 \<times> DrvPvt) option" where
  "rtl8101_rx_fill E start stop s = do {
     (cur, s) \<leftarrow> rx_fill_loop E start stop s;
     Some (cur - start, s)
   }"

text \<open>The loop of \<^verbatim>\<open>rtl8101_rx_clear\<close>, from slot \<open>i\<close> for \<open>n\<close> more slots.\<close>

primrec rx_clear_loop :: "nat \<Rightarrow> nat \<Rightarrow> DrvPvt \<Rightarrow> DrvPvt option" where
  "rx_clear_loop 0 i s = Some s"
| "rx_clear_loop (Suc n) i s = do {
     skb \<leftarrow> idx (rx_skbuff s) i;
     s \<leftarrow> (case skb of None \<Rightarrow> Some s | Some p \<Rightarrow> rtl8101_free_rx_skb i p s);
     rx_clear_loop n (Suc i) s
   }"

definition rtl8101_rx_clear :: "DrvPvt \<Rightarrow> DrvPvt option" where
  "rtl8101_rx_clear s = rx_clear_loop NUM_RX_DESC 0 s"

section \<open>Both rings\<close>

definition rtl8101_init_ring_indexes :: "DrvPvt \<Rightarrow> DrvPvt" where
  "rtl8101_init_ring_indexes s = s\<lparr>dirty_tx := 0, dirty_rx := 0, cur_tx := 0, cur_rx := 0\<rparr>"

definition free_ring :: "res \<Rightarrow> DrvPvt \<Rightarrow> DrvPvt" where
  "free_ring r s = s\<lparr>tr := release r (tr s)\<rparr>"

text \<open>The ring memory of \<open>n\<close> descriptors after \<^verbatim>\<open>memset\<close> and setting the end-of-ring mark.\<close>

definition fresh_ring :: "nat \<Rightarrow> Desc list" where
  "fresh_ring n = (replicate n zero_desc)[n - 1 := zero_desc\<lparr>opts1 := dbit RingEnd\<rparr>]"

text \<open>The last part of \<^verbatim>\<open>rtl8101_init_buffers\<close>: all receive buffers, or everything is given back.\<close>

definition init_buffers_fill :: "env \<Rightarrow> DrvPvt \<Rightarrow> (int \<times> DrvPvt) option" where
  "init_buffers_fill E s = do {
     (n, s) \<leftarrow> rtl8101_rx_fill E 0 (of_nat NUM_RX_DESC) s;
     if n \<noteq> of_nat NUM_RX_DESC then do {
       s \<leftarrow> rtl8101_rx_clear s;
       let s = (free_ring RxRing s)\<lparr>RxDescArray := None\<rparr>;
       let s = (free_ring TxRing s)\<lparr>TxDescArray := None\<rparr>;
       Some (- ENOMEM, s)
     }
     else Some (0, s)
   }"

definition rtl8101_init_buffers :: "env \<Rightarrow> DrvPvt \<Rightarrow> (int \<times> DrvPvt) option" where
  "rtl8101_init_buffers E s =
     (let (tx, t) = pci_alloc_consistent E TxRing (tr s);
          s = s\<lparr>tr := t, TxDescArray := map_option fst tx\<rparr>
      in case tx of
           None \<Rightarrow> Some (- ENOMEM, s)
         | Some (_, txphy) \<Rightarrow>
             (let s = s\<lparr>TxPhyAddr := txphy\<rparr>;
                  (rx, t) = pci_alloc_consistent E RxRing (tr s);
                  s = s\<lparr>tr := t, RxDescArray := map_option fst rx\<rparr>
              in case rx of
                   None \<Rightarrow> Some (- ENOMEM, (free_ring TxRing s)\<lparr>TxDescArray := None\<rparr>)
                 | Some (_, rxphy) \<Rightarrow> do {
                     let s = s\<lparr>RxPhyAddr := rxphy\<rparr>;
                     let s = rtl8101_init_ring_indexes s;
                     let s = s\<lparr>tx_skb := replicate NUM_TX_DESC \<lparr>ri_skb = None, ri_len = 0\<rparr>,
                               rx_skbuff := replicate NUM_RX_DESC None,
                               TxDescArray := Some (fresh_ring NUM_TX_DESC),
                               RxDescArray := Some (fresh_ring NUM_RX_DESC)\<rparr>;
                     init_buffers_fill E s
                   }))"

definition rtl8101_shut_buffers :: "DrvPvt \<Rightarrow> DrvPvt" where
  "rtl8101_shut_buffers s =
     (let s = (free_ring RxRing s)\<lparr>RxDescArray := None\<rparr>
      in (free_ring TxRing s)\<lparr>TxDescArray := None\<rparr>)"

end
