(* ===== verification/Net_Irq.thy ===== *)
theory Net_Irq
  imports Buffers
begin

text \<open>
  \<^verbatim>\<open>Rt8169Drv/net_stk.c\<close>: polling of the link status, the receive and transmit halves of the NAPI
  poll function, and the interrupt handler. A handler runs to its end without another handler in
  between; \<open>None\<close> marks a fault of the kernel (a null packet dereferenced, \<^verbatim>\<open>skb_put\<close> beyond the
  end of the buffer, a lock taken twice).
\<close>

section \<open>Link status polling\<close>

definition RTL8101_LINK_TIMEOUT :: "env \<Rightarrow> u64" where
  "RTL8101_LINK_TIMEOUT E = 1 * HZ E"

definition rtl8101_check_link_status :: "env \<Rightarrow> DrvPvt \<Rightarrow> DrvPvt option" where
  "rtl8101_check_link_status E s = do {
     let (link_status_on, t) = phy_link_status_on E (tr s);
     let s = s\<lparr>tr := t\<rparr>;
     if carrier_ok s \<noteq> link_status_on then
       if link_status_on then
         Some (netif_carrier_on (rtl8101_hw_init E s))
       else do {
         let s = netif_carrier_off s;
         let s = netif_stop_queue s;
         let s = s\<lparr>tr := rtl8101_hw_reset E (tr s)\<rparr>;
         s \<leftarrow> rtl8101_tx_clear s;
         Some (rtl8101_init_ring_indexes s)
       }
     else Some s
   }"

definition rtl8101_link_timer :: "env \<Rightarrow> DrvPvt \<Rightarrow> DrvPvt option" where
  "rtl8101_link_timer E s = do {
     s \<leftarrow> spin_lock s;
     s \<leftarrow> rtl8101_check_link_status E s;
     let s = spin_unlock s;
     Some (s\<lparr>link_timer := Some (jiffies E (tr s) + RTL8101_LINK_TIMEOUT E)\<rparr>)
   }"

definition rtl8101_request_link_timer :: "env \<Rightarrow> DrvPvt \<Rightarrow> DrvPvt" where
  "rtl8101_request_link_timer E s =
     s\<lparr>link_timer := Some (jiffies E (tr s) + RTL8101_LINK_TIMEOUT E)\<rparr>"

definition rtl8101_delete_link_timer :: "DrvPvt \<Rightarrow> DrvPvt" where
  "rtl8101_delete_link_timer s = s\<lparr>link_timer := None\<rparr>"

section \<open>Receive\<close>

text \<open>A frame that the device flagged as bad is counted, and its buffer goes back to the device.\<close>

definition rx_error_stats :: "u32 \<Rightarrow> net_device_stats \<Rightarrow> net_device_stats" where
  "rx_error_stats status st =
     (let st = st\<lparr>rx_errors := rx_errors st + 1\<rparr>;
          st = (if status AND (dbit RxRWT OR dbit RxRUNT) \<noteq> 0
                then st\<lparr>rx_length_errors := rx_length_errors st + 1\<rparr> else st)
      in if status AND dbit RxCRC \<noteq> 0
         then st\<lparr>rx_crc_errors := rx_crc_errors st + 1\<rparr> else st)"

definition rx_error :: "nat \<Rightarrow> u32 \<Rightarrow> DrvPvt \<Rightarrow> DrvPvt option" where
  "rx_error entry status s = do {
     descs \<leftarrow> RxDescArray s;
     d \<leftarrow> idx descs entry;
     Some (s\<lparr>stats := rx_error_stats status (stats s),
             RxDescArray := Some (descs[entry := rtl8101_mark_to_asic (rx_buf_sz s) d])\<rparr>)
   }"

text \<open>
  A good frame goes up the stack. \<^verbatim>\<open>pkt_size\<close> is an \<^verbatim>\<open>int\<close>: \<^verbatim>\<open>skb_put\<close> takes it as unsigned and
  panics when it exceeds the room of the buffer, \<^verbatim>\<open>rx_bytes\<close> adds it sign-extended.
\<close>

definition rx_pkt_len :: "u32 \<Rightarrow> u32" where
  "rx_pkt_len status = (status AND 0x00003FFF) - 4"

definition rx_deliver :: "nat \<Rightarrow> u32 \<Rightarrow> DrvPvt \<Rightarrow> DrvPvt option" where
  "rx_deliver entry status s = do {
     skb \<leftarrow> idx (rx_skbuff s) entry;
     let pkt_size = rx_pkt_len status;
     descs \<leftarrow> RxDescArray s;
     d \<leftarrow> idx descs entry;
     let s = s\<lparr>tr := UnmapSingle (addr d) (rx_buf_sz s) FromDevice # tr s,
               rx_skbuff := (rx_skbuff s)[entry := None]\<rparr>;
     p \<leftarrow> skb;
     if pkt_size \<le> rx_buf_sz s then
       Some (s\<lparr>tr := RecvSkb p pkt_size # tr s,
               stats := (stats s)\<lparr>rx_bytes := rx_bytes (stats s) + scast pkt_size,
                                  rx_packets := rx_packets (stats s) + 1\<rparr>\<rparr>)
     else None
   }"

text \<open>The loop of \<^verbatim>\<open>rtl8101_rx_interrupt\<close> for \<open>rx_left\<close> more descriptors; it returns \<^verbatim>\<open>cur_rx\<close>.\<close>

primrec rx_loop :: "nat \<Rightarrow> u32 \<Rightarrow> DrvPvt \<Rightarrow> (u32 \<times> DrvPvt) option" where
  "rx_loop 0 cur s = Some (cur, s)"
| "rx_loop (Suc rx_left) cur s = do {
     let entry = unat cur mod NUM_RX_DESC;
     descs \<leftarrow> RxDescArray s;
     d \<leftarrow> idx descs entry;
     let status = opts1 d;
     if status AND dbit DescOwn \<noteq> 0 then Some (cur, s)
     else do {
       s \<leftarrow> (if status AND dbit RxRES \<noteq> 0 then rx_error entry status s
             else rx_deliver entry status s);
       rx_loop rx_left (cur + 1) s
     }
   }"

definition rtl8101_rx_interrupt :: "env \<Rightarrow> u32 \<Rightarrow> DrvPvt \<Rightarrow> (u32 \<times> DrvPvt) option" where
  "rtl8101_rx_interrupt E budget s = do {
     let rx_left = min (of_nat NUM_RX_DESC + dirty_rx s - cur_rx s) budget;
     if RxDescArray s = None then Some (0, s)
     else do {
       (cur, s) \<leftarrow> rx_loop (unat rx_left) (cur_rx s) s;
       let count = cur - cur_rx s;
       let s = s\<lparr>cur_rx := cur\<rparr>;
       (delta, s) \<leftarrow> rtl8101_rx_fill E (dirty_rx s) (cur_rx s) s;
       Some (count, s\<lparr>dirty_rx := dirty_rx s + delta\<rparr>)
     }
   }"

section \<open>Transmit completion\<close>

text \<open>
  One descriptor that the device has finished: statistics, unmapping, and freeing of the packet
  when it is the last fragment (\<^verbatim>\<open>dev_kfree_skb_irq\<close> dereferences its argument).
\<close>

definition tx_complete :: "nat \<Rightarrow> u32 \<Rightarrow> u32 \<Rightarrow> DrvPvt \<Rightarrow> DrvPvt option" where
  "tx_complete entry status len s = do {
     let s = s\<lparr>stats := (stats s)\<lparr>tx_bytes := tx_bytes (stats s) + ucast len,
                                  tx_packets := tx_packets (stats s) + 1\<rparr>\<rparr>;
     s \<leftarrow> rtl8101_unmap_tx_skb entry s;
     if status AND dbit LastFrag \<noteq> 0 then do {
       r \<leftarrow> idx (tx_skb s) entry;
       p \<leftarrow> ri_skb r;
       Some (free_tx_skb entry p s)
     }
     else Some s
   }"

primrec tx_loop :: "nat \<Rightarrow> u32 \<Rightarrow> DrvPvt \<Rightarrow> (u32 \<times> DrvPvt) option" where
  "tx_loop 0 dirty s = Some (dirty, s)"
| "tx_loop (Suc tx_left) dirty s = do {
     let entry = unat dirty mod NUM_TX_DESC;
     r \<leftarrow> idx (tx_skb s) entry;
     descs \<leftarrow> TxDescArray s;
     d \<leftarrow> idx descs entry;
     if opts1 d AND dbit DescOwn \<noteq> 0 then Some (dirty, s)
     else do {
       s \<leftarrow> tx_complete entry (opts1 d) (ri_len r) s;
       tx_loop tx_left (dirty + 1) s
     }
   }"

text \<open>The rest of \<^verbatim>\<open>rtl8101_tx_interrupt\<close>: publish the index, wake the queue, kick the device.\<close>

definition tx_publish :: "env \<Rightarrow> u32 \<Rightarrow> DrvPvt \<Rightarrow> DrvPvt" where
  "tx_publish E dirty s =
     (if dirty_tx s \<noteq> dirty then
        let s = s\<lparr>dirty_tx := dirty\<rparr>;
            s = (if queue_stopped s \<and> TX_BUFFS_AVAIL s \<ge> MAX_SKB_FRAGS E
                 then netif_wake_queue s else s)
        in if cur_tx s \<noteq> dirty then s\<lparr>tr := rtl8101_notify_for_tx (tr s)\<rparr> else s
      else s)"

definition rtl8101_tx_interrupt :: "env \<Rightarrow> DrvPvt \<Rightarrow> DrvPvt option" where
  "rtl8101_tx_interrupt E s = do {
     (dirty, s) \<leftarrow> tx_loop (unat (cur_tx s - dirty_tx s)) (dirty_tx s) s;
     Some (tx_publish E dirty s)
   }"

section \<open>NAPI poll and the interrupt handler\<close>

definition rtl8101_poll :: "env \<Rightarrow> u32 \<Rightarrow> DrvPvt \<Rightarrow> (u32 \<times> DrvPvt) option" where
  "rtl8101_poll E budget s = do {
     (work_done, s) \<leftarrow> rtl8101_rx_interrupt E budget s;
     s \<leftarrow> spin_lock s;
     s \<leftarrow> rtl8101_tx_interrupt E s;
     let s = spin_unlock s;
     if work_done < budget then
       let s = napi_complete s
       in Some (work_done, s\<lparr>tr := rtl8101_enable_interrupts IntrEnMask (tr s)\<rparr>)
     else Some (work_done, s)
   }"

definition rtl8101_interrupt :: "env \<Rightarrow> DrvPvt \<Rightarrow> irqreturn \<times> DrvPvt" where
  "rtl8101_interrupt E s =
     (let (status, t) = rtl8101_get_intr_status E (tr s);
          s = s\<lparr>tr := t\<rparr>
      in if status = 0xFFFF \<or> status = 0 then (IRQ_NONE, s)
         else if status AND IntrEnMask = 0 then (IRQ_NONE, s)
         else if \<not> netif_running s then (IRQ_NONE, s)
         else
           let s = s\<lparr>tr := rtl8101_disable_n_clear_interrupts E (tr s)\<rparr>
           in (IRQ_HANDLED, napi_schedule s))"

end
