(* ===== verification/Net_Ops.thy ===== *)
theory Net_Ops
  imports Net_Irq
begin

text \<open>
  \<^verbatim>\<open>Rt8169Drv/net_stk.c\<close>: the network stack's operations (reset task, open, close, transmit,
  transmit timeout, statistics).
\<close>

section \<open>Reset task\<close>

definition rtl8101_reset_task :: "env \<Rightarrow> DrvPvt \<Rightarrow> DrvPvt option" where
  "rtl8101_reset_task E s =
     (if \<not> netif_running s then Some s
      else do {
        let s = s\<lparr>tr := SyncIrq # tr s\<rparr>;
        s \<leftarrow> napi_disable s;
        let s = s\<lparr>tr := rtl8101_disable_n_clear_interrupts E (tr s)\<rparr>;
        s \<leftarrow> napi_enable s;
        (_, s) \<leftarrow> rtl8101_rx_interrupt E (NOT 0) s;
        s \<leftarrow> spin_lock s;
        s \<leftarrow> rtl8101_tx_clear s;
        if dirty_rx s = cur_rx s then
          let s = rtl8101_init_ring_indexes s;
              s = rtl8101_hw_init E s;
              s = netif_wake_queue s
          in Some (spin_unlock s)
        else Some (schedule_delayed_work (spin_unlock s))
      })"

section \<open>Open and close\<close>

definition rtl8101_open :: "env \<Rightarrow> DrvPvt \<Rightarrow> (int \<times> DrvPvt) option" where
  "rtl8101_open E s = do {
     let s = s\<lparr>rx_buf_sz := RX_BUF_SIZE\<rparr>;
     (retval, s) \<leftarrow> rtl8101_init_buffers E s;
     if retval < 0 then Some (retval, s)
     else do {
       s \<leftarrow> init_delayed_work s;
       s \<leftarrow> napi_enable s;
       let s = s\<lparr>tr := phy_power_up E (rtl8101_hw_reset E (tr s))\<rparr>;
       let s = rtl8101_hw_init E s;
       let (retval, t) = acquire E Irq (tr s);
       let s = s\<lparr>tr := t\<rparr>;
       if retval < 0 then Some (retval, rtl8101_shut_buffers s)
       else Some (0, rtl8101_request_link_timer E s)
     }
   }"

definition rtl8101_close :: "env \<Rightarrow> DrvPvt \<Rightarrow> (int \<times> DrvPvt) option" where
  "rtl8101_close E s =
     (if TxDescArray s \<noteq> None \<and> RxDescArray s \<noteq> None then do {
        let s = rtl8101_delete_link_timer s;
        s \<leftarrow> napi_disable s;
        let s = netif_stop_queue s;
        let s = s\<lparr>tr := SyncSched # tr s\<rparr>;
        let s = netif_carrier_off s;
        s \<leftarrow> spin_lock s;
        let s = s\<lparr>tr := rtl8101_hw_reset E (tr s)\<rparr>;
        let s = spin_unlock s;
        let s = s\<lparr>tr := SyncIrq # tr s\<rparr>;
        s \<leftarrow> spin_lock s;
        s \<leftarrow> rtl8101_tx_clear s;
        let s = spin_unlock s;
        s \<leftarrow> rtl8101_rx_clear s;
        let s = s\<lparr>tr := release Irq (phy_power_down E (tr s))\<rparr>;
        let s = free_ring RxRing s;
        let s = free_ring TxRing s;
        Some (0, s\<lparr>TxDescArray := None, RxDescArray := None\<rparr>)
      }
      else Some (0, s))"

section \<open>Transmit\<close>

text \<open>
  The command word of a packet of length \<open>len\<close> in slot \<open>entry\<close>, and the slot being handed to the
  device: first everything but the ownership bit, then the ownership bit.
\<close>

definition tx_opts1 :: "u32 \<Rightarrow> nat \<Rightarrow> u32" where
  "tx_opts1 len entry =
     dbit DescOwn OR (dbit FirstFrag OR dbit LastFrag)
     OR (len OR dbit RingEnd * (if (entry + 1) mod NUM_TX_DESC = 0 then 1 else 0))"

definition tx_desc :: "u64 \<Rightarrow> u32 \<Rightarrow> Desc \<Rightarrow> Desc" where
  "tx_desc mapping word d =
     (let d = d\<lparr>addr := mapping, opts2 := 0, opts1 := word AND NOT (dbit DescOwn)\<rparr>
      in d\<lparr>opts1 := word\<rparr>)"

definition tx_err_stop :: "DrvPvt \<Rightarrow> netdev_tx \<times> DrvPvt" where
  "tx_err_stop s =
     (let s = netif_stop_queue s;
          s = s\<lparr>stats := (stats s)\<lparr>tx_dropped := tx_dropped (stats s) + 1\<rparr>\<rparr>
      in (NETDEV_TX_BUSY, spin_unlock s))"

definition rtl8101_start_xmit :: "env \<Rightarrow> sk_buff \<Rightarrow> DrvPvt \<Rightarrow> (netdev_tx \<times> DrvPvt) option" where
  "rtl8101_start_xmit E skb s = do {
     let entry = unat (cur_tx s) mod NUM_TX_DESC;
     s \<leftarrow> spin_lock s;
     if TX_BUFFS_AVAIL s < nr_frags skb then Some (tx_err_stop s)
     else do {
       descs \<leftarrow> TxDescArray s;
       txd \<leftarrow> idx descs entry;
       if opts1 txd AND dbit DescOwn \<noteq> 0 then Some (tx_err_stop s)
       else do {
         _ \<leftarrow> idx (tx_skb s) entry;
         let len = skb_len skb;
         let t = TakeSkb (skb_ptr skb) # tr s;
         let mapping = map_addr E t (skb_ptr skb);
         let s = s\<lparr>tr := MapSingle (skb_ptr skb) mapping len ToDevice # t,
                   tx_skb := (tx_skb s)[entry := \<lparr>ri_skb = Some (skb_ptr skb), ri_len = len\<rparr>],
                   TxDescArray := Some (descs[entry := tx_desc mapping (tx_opts1 len entry) txd])\<rparr>;
         let s = s\<lparr>trans_start := jiffies E (tr s)\<rparr>;
         let s = s\<lparr>cur_tx := cur_tx s + 1\<rparr>;
         let s = s\<lparr>tr := rtl8101_notify_for_tx (tr s)\<rparr>;
         let s = (if TX_BUFFS_AVAIL s < MAX_SKB_FRAGS E then
                    let s = netif_stop_queue s
                    in if TX_BUFFS_AVAIL s \<ge> MAX_SKB_FRAGS E then netif_wake_queue s else s
                  else s);
         Some (NETDEV_TX_OK, spin_unlock s)
       }
     }
   }"

definition rtl8101_tx_timeout :: "env \<Rightarrow> DrvPvt \<Rightarrow> DrvPvt option" where
  "rtl8101_tx_timeout E s = do {
     s \<leftarrow> spin_lock s;
     let s = s\<lparr>tr := rtl8101_hw_reset E (tr s)\<rparr>;
     Some (schedule_delayed_work (spin_unlock s))
   }"

definition rtl8101_get_stats :: "DrvPvt \<Rightarrow> net_device_stats" where
  "rtl8101_get_stats s = stats s"

end
