(* ===== verification/Ring_Inv.thy ===== *)
theory Ring_Inv
  imports Buffers
begin

text \<open>
  Invariants and ledgers of the two descriptor rings, and what the buffer management operations
  do to them: no operation faults on rings of the right size, the end-of-ring mark stays on the
  last descriptor, the device never owns a receive descriptor without a buffer behind it, and
  sk_buffs and DMA mappings are neither leaked nor released twice.
\<close>

section \<open>Well-formed rings\<close>

text \<open>
  A transmit slot holds a packet and its length, or neither; a descriptor the device owns belongs
  to a packet and carries the end-of-ring mark in the last slot only; the descriptor of a packet
  is marked as its last fragment (so that completing it frees the packet).
\<close>

definition tx_slot_ok :: "nat \<Rightarrow> Desc \<Rightarrow> RingInfo \<Rightarrow> bool" where
  "tx_slot_ok e d r \<longleftrightarrow>
     (ri_len r = 0 \<longleftrightarrow> ri_skb r = None)
     \<and> (nic_owned d \<longrightarrow> ri_skb r \<noteq> None \<and> (ring_end d \<longleftrightarrow> e = NUM_TX_DESC - 1))
     \<and> (ri_skb r \<noteq> None \<longrightarrow> opts1 d AND dbit LastFrag \<noteq> 0)"

definition tx_ring_ok :: "DrvPvt \<Rightarrow> bool" where
  "tx_ring_ok s =
     (case TxDescArray s of
        None \<Rightarrow> False
      | Some descs \<Rightarrow>
          length descs = NUM_TX_DESC \<and> length (tx_skb s) = NUM_TX_DESC
          \<and> (\<forall>e < NUM_TX_DESC. tx_slot_ok e (descs ! e) (tx_skb s ! e)))"

text \<open>
  The status the device writes back for a received frame: it is flagged as bad, or its length
  (with the four bytes of the checksum) fits the buffer size programmed into RxMaxSize.
\<close>

definition rx_status_ok :: "u32 \<Rightarrow> bool" where
  "rx_status_ok status \<longleftrightarrow>
     status AND dbit RxRES \<noteq> 0
     \<or> (4 \<le> status AND 0x00003FFF \<and> status AND 0x00003FFF \<le> RX_BUF_SIZE)"

definition rx_slot_ok :: "nat \<Rightarrow> Desc \<Rightarrow> ptr option \<Rightarrow> bool" where
  "rx_slot_ok e d skb \<longleftrightarrow>
     (nic_owned d \<longrightarrow> skb \<noteq> None) \<and> (ring_end d \<longleftrightarrow> e = NUM_RX_DESC - 1)
     \<and> (skb \<noteq> None \<and> \<not> nic_owned d \<longrightarrow> rx_status_ok (opts1 d))"

definition rx_ring_ok :: "DrvPvt \<Rightarrow> bool" where
  "rx_ring_ok s =
     (case RxDescArray s of
        None \<Rightarrow> False
      | Some descs \<Rightarrow>
          length descs = NUM_RX_DESC \<and> length (rx_skbuff s) = NUM_RX_DESC
          \<and> rx_buf_sz s = RX_BUF_SIZE
          \<and> (\<forall>e < NUM_RX_DESC. rx_slot_ok e (descs ! e) (rx_skbuff s ! e)))"

lemma tx_ring_okE:
  assumes "tx_ring_ok s"
  obtains descs where "TxDescArray s = Some descs" "length descs = NUM_TX_DESC"
    "length (tx_skb s) = NUM_TX_DESC"
    "\<forall>e < NUM_TX_DESC. tx_slot_ok e (descs ! e) (tx_skb s ! e)"
  using assms by (auto simp: tx_ring_ok_def split: option.splits)

lemma rx_ring_okE:
  assumes "rx_ring_ok s"
  obtains descs where "RxDescArray s = Some descs" "length descs = NUM_RX_DESC"
    "length (rx_skbuff s) = NUM_RX_DESC" "rx_buf_sz s = RX_BUF_SIZE"
    "\<forall>e < NUM_RX_DESC. rx_slot_ok e (descs ! e) (rx_skbuff s ! e)"
  using assms by (auto simp: rx_ring_ok_def split: option.splits)

text \<open>The ring invariants read the ring they are about, nothing else.\<close>

lemma tx_ring_ok_cong:
  "TxDescArray s' = TxDescArray s \<Longrightarrow> tx_skb s' = tx_skb s \<Longrightarrow> tx_ring_ok s' = tx_ring_ok s"
  by (simp add: tx_ring_ok_def cong: option.case_cong)

lemma rx_ring_ok_cong:
  "RxDescArray s' = RxDescArray s \<Longrightarrow> rx_skbuff s' = rx_skbuff s \<Longrightarrow> rx_buf_sz s' = rx_buf_sz s
    \<Longrightarrow> rx_ring_ok s' = rx_ring_ok s"
  by (simp add: rx_ring_ok_def cong: option.case_cong)

lemma tx_ring_ok_frame [simp]:
  "tx_ring_ok (s\<lparr>tr := t\<rparr>) = tx_ring_ok s" "tx_ring_ok (s\<lparr>stats := st\<rparr>) = tx_ring_ok s"
  "tx_ring_ok (s\<lparr>queue_stopped := b\<rparr>) = tx_ring_ok s" "tx_ring_ok (s\<lparr>carrier_ok := b\<rparr>) = tx_ring_ok s"
  "tx_ring_ok (s\<lparr>napi_enabled := b\<rparr>) = tx_ring_ok s" "tx_ring_ok (s\<lparr>napi_scheduled := b\<rparr>) = tx_ring_ok s"
  "tx_ring_ok (s\<lparr>lock := b\<rparr>) = tx_ring_ok s" "tx_ring_ok (s\<lparr>task := b\<rparr>) = tx_ring_ok s"
  "tx_ring_ok (s\<lparr>link_timer := lt\<rparr>) = tx_ring_ok s" "tx_ring_ok (s\<lparr>trans_start := ts\<rparr>) = tx_ring_ok s"
  "tx_ring_ok (s\<lparr>cur_tx := i\<rparr>) = tx_ring_ok s" "tx_ring_ok (s\<lparr>dirty_tx := i\<rparr>) = tx_ring_ok s"
  "tx_ring_ok (s\<lparr>cur_rx := i\<rparr>) = tx_ring_ok s" "tx_ring_ok (s\<lparr>dirty_rx := i\<rparr>) = tx_ring_ok s"
  "tx_ring_ok (s\<lparr>rx_skbuff := ks\<rparr>) = tx_ring_ok s" "tx_ring_ok (s\<lparr>RxDescArray := da\<rparr>) = tx_ring_ok s"
  by (rule tx_ring_ok_cong; simp)+

lemma rx_ring_ok_frame [simp]:
  "rx_ring_ok (s\<lparr>tr := t\<rparr>) = rx_ring_ok s" "rx_ring_ok (s\<lparr>stats := st\<rparr>) = rx_ring_ok s"
  "rx_ring_ok (s\<lparr>queue_stopped := b\<rparr>) = rx_ring_ok s" "rx_ring_ok (s\<lparr>carrier_ok := b\<rparr>) = rx_ring_ok s"
  "rx_ring_ok (s\<lparr>napi_enabled := b\<rparr>) = rx_ring_ok s" "rx_ring_ok (s\<lparr>napi_scheduled := b\<rparr>) = rx_ring_ok s"
  "rx_ring_ok (s\<lparr>lock := b\<rparr>) = rx_ring_ok s" "rx_ring_ok (s\<lparr>task := b\<rparr>) = rx_ring_ok s"
  "rx_ring_ok (s\<lparr>link_timer := lt\<rparr>) = rx_ring_ok s" "rx_ring_ok (s\<lparr>trans_start := ts\<rparr>) = rx_ring_ok s"
  "rx_ring_ok (s\<lparr>cur_tx := i\<rparr>) = rx_ring_ok s" "rx_ring_ok (s\<lparr>dirty_tx := i\<rparr>) = rx_ring_ok s"
  "rx_ring_ok (s\<lparr>cur_rx := i\<rparr>) = rx_ring_ok s" "rx_ring_ok (s\<lparr>dirty_rx := i\<rparr>) = rx_ring_ok s"
  "rx_ring_ok (s\<lparr>tx_skb := ri\<rparr>) = rx_ring_ok s" "rx_ring_ok (s\<lparr>TxDescArray := da\<rparr>) = rx_ring_ok s"
  by (rule rx_ring_ok_cong; simp)+

section \<open>Ledgers of the rings\<close>

text \<open>
  The references to sk_buffs and the DMA mappings that the rings hold. What the trace says the
  driver owns, minus what its rings hold, is what it has lost: \<open>skb_leak\<close> and \<open>dma_leak\<close>.
\<close>

definition rx_map :: "u32 \<Rightarrow> Desc \<Rightarrow> ptr option \<Rightarrow> dma_map option" where
  "rx_map sz d skb = (if skb = None then None else Some (addr d, sz, FromDevice))"

definition tx_map :: "Desc \<Rightarrow> RingInfo \<Rightarrow> dma_map option" where
  "tx_map d r = (if ri_len r = 0 then None else Some (addr d, ri_len r, ToDevice))"

definition rx_maps :: "DrvPvt \<Rightarrow> dma_map option list" where
  "rx_maps s =
     (case RxDescArray s of
        None \<Rightarrow> [] | Some descs \<Rightarrow> map2 (rx_map (rx_buf_sz s)) descs (rx_skbuff s))"

definition tx_maps :: "DrvPvt \<Rightarrow> dma_map option list" where
  "tx_maps s =
     (case TxDescArray s of None \<Rightarrow> [] | Some descs \<Rightarrow> map2 tx_map descs (tx_skb s))"

definition skb_leak :: "ptr \<Rightarrow> DrvPvt \<Rightarrow> int" where
  "skb_leak p s = skb_bal p (tr s) - int (count_list (rx_skbuff s) (Some p))
     - int (count_list (map ri_skb (tx_skb s)) (Some p))"

definition dma_leak :: "dma_map \<Rightarrow> DrvPvt \<Rightarrow> int" where
  "dma_leak m s = dma_bal m (tr s) - int (count_list (rx_maps s) (Some m))
     - int (count_list (tx_maps s) (Some m))"

definition same_leaks :: "DrvPvt \<Rightarrow> DrvPvt \<Rightarrow> bool" where
  "same_leaks s s' \<longleftrightarrow>
     (\<forall>p. skb_leak p s' = skb_leak p s) \<and> (\<forall>m. dma_leak m s' = dma_leak m s)
     \<and> held (tr s') = held (tr s)"

lemma same_leaks_refl [simp]: "same_leaks s s"
  by (simp add: same_leaks_def)

lemma same_leaks_trans [trans]: "same_leaks s s1 \<Longrightarrow> same_leaks s1 s2 \<Longrightarrow> same_leaks s s2"
  by (simp add: same_leaks_def)

section \<open>Frames\<close>

text \<open>What an operation on one ring may change: the trace, the statistics and that ring.\<close>

definition tx_frame :: "DrvPvt \<Rightarrow> DrvPvt" where
  "tx_frame s = s\<lparr>tr := [], stats := undefined, TxDescArray := None, tx_skb := []\<rparr>"

definition rx_frame :: "DrvPvt \<Rightarrow> DrvPvt" where
  "rx_frame s = s\<lparr>tr := [], stats := undefined, RxDescArray := None, rx_skbuff := []\<rparr>"

lemma tx_frameD:
  assumes "tx_frame s' = tx_frame s"
  shows "cur_rx s' = cur_rx s" "dirty_rx s' = dirty_rx s" "cur_tx s' = cur_tx s"
    "dirty_tx s' = dirty_tx s" "RxDescArray s' = RxDescArray s" "rx_skbuff s' = rx_skbuff s"
    "rx_buf_sz s' = rx_buf_sz s" "lock s' = lock s" "queue_stopped s' = queue_stopped s"
    "carrier_ok s' = carrier_ok s" "netif_running s' = netif_running s"
    "napi_enabled s' = napi_enabled s" "napi_scheduled s' = napi_scheduled s"
    "task s' = task s" "link_timer s' = link_timer s"
    "RxPhyAddr s' = RxPhyAddr s" "TxPhyAddr s' = TxPhyAddr s"
  using assms by (cases s; cases s'; simp add: tx_frame_def)+

lemma rx_frameD:
  assumes "rx_frame s' = rx_frame s"
  shows "cur_rx s' = cur_rx s" "dirty_rx s' = dirty_rx s" "cur_tx s' = cur_tx s"
    "dirty_tx s' = dirty_tx s" "TxDescArray s' = TxDescArray s" "tx_skb s' = tx_skb s"
    "rx_buf_sz s' = rx_buf_sz s" "lock s' = lock s" "queue_stopped s' = queue_stopped s"
    "carrier_ok s' = carrier_ok s" "netif_running s' = netif_running s"
    "napi_enabled s' = napi_enabled s" "napi_scheduled s' = napi_scheduled s"
    "task s' = task s" "link_timer s' = link_timer s"
    "RxPhyAddr s' = RxPhyAddr s" "TxPhyAddr s' = TxPhyAddr s"
  using assms by (cases s; cases s'; simp add: rx_frame_def)+

section \<open>Descriptor words\<close>

lemma RX_BUF_SIZE_bits: "n \<ge> 11 \<Longrightarrow> \<not> bit RX_BUF_SIZE n"
proof
  assume "11 \<le> n" "bit RX_BUF_SIZE n"
  moreover have "RX_BUF_SIZE = RX_BUF_SIZE AND mask 11"
    by (simp add: RX_BUF_SIZE_def mask_eq_exp_minus_1)
  ultimately show False by (metis bit_and_iff bit_mask_iff linorder_not_less)
qed

lemma mark_to_asic_word:
  "nic_owned (rtl8101_mark_to_asic RX_BUF_SIZE d)"
  "ring_end (rtl8101_mark_to_asic RX_BUF_SIZE d) \<longleftrightarrow> ring_end d"
  "addr (rtl8101_mark_to_asic sz d) = addr d"
  by (simp_all add: rtl8101_mark_to_asic_def Let_def nic_owned_bit ring_end_bit bit_or_iff
      bit_and_iff RX_BUF_SIZE_bits)

lemma map_to_asic_word:
  "nic_owned (rtl8101_map_to_asic a RX_BUF_SIZE d)"
  "ring_end (rtl8101_map_to_asic a RX_BUF_SIZE d) \<longleftrightarrow> ring_end d"
  "addr (rtl8101_map_to_asic a sz d) = a"
  by (simp_all add: rtl8101_map_to_asic_def mark_to_asic_word) (simp add: ring_end_def)

lemma make_unusable_word:
  "\<not> nic_owned (rtl8101_make_unusable_by_asic d)"
  "ring_end (rtl8101_make_unusable_by_asic d) \<longleftrightarrow> ring_end d"
proof -
  have m: "(0x3fffc000 :: u32) = push_bit 14 (mask 16)"
    by (simp add: mask_eq_exp_minus_1)
  show "\<not> nic_owned (rtl8101_make_unusable_by_asic d)"
    by (simp add: rtl8101_make_unusable_by_asic_def nic_owned_bit bit_and_iff bit_not_iff bit_or_iff)
  show "ring_end (rtl8101_make_unusable_by_asic d) \<longleftrightarrow> ring_end d"
    unfolding rtl8101_make_unusable_by_asic_def ring_end_bit m
    by (simp add: bit_and_iff bit_not_iff bit_or_iff bit_push_bit_iff bit_mask_iff del: push_bit_numeral)
qed

section \<open>Clearing the transmit ring\<close>

lemma tx_slot_leak:
  assumes "TxDescArray s = Some descs" "length descs = NUM_TX_DESC" "length (tx_skb s) = NUM_TX_DESC"
    and "e < NUM_TX_DESC"
  shows "skb_leak p (s\<lparr>tr := t, TxDescArray := Some (descs[e := d']), tx_skb := (tx_skb s)[e := r']\<rparr>)
      = skb_leak p s + (skb_bal p t - skb_bal p (tr s))
        + of_bool (ri_skb (tx_skb s ! e) = Some p) - of_bool (ri_skb r' = Some p)"
    and "dma_leak m (s\<lparr>tr := t, TxDescArray := Some (descs[e := d']), tx_skb := (tx_skb s)[e := r']\<rparr>)
      = dma_leak m s + (dma_bal m t - dma_bal m (tr s))
        + of_bool (tx_map (descs ! e) (tx_skb s ! e) = Some m) - of_bool (tx_map d' r' = Some m)"
  using assms
  by (simp_all add: skb_leak_def dma_leak_def rx_maps_def tx_maps_def map_update
      zip_update count_list_update cong: option.case_cong)

lemma rx_slot_leak:
  assumes "RxDescArray s = Some descs" "length descs = NUM_RX_DESC" "length (rx_skbuff s) = NUM_RX_DESC"
    and "e < NUM_RX_DESC"
  shows "skb_leak p (s\<lparr>tr := t, RxDescArray := Some (descs[e := d']), rx_skbuff := (rx_skbuff s)[e := k']\<rparr>)
      = skb_leak p s + (skb_bal p t - skb_bal p (tr s))
        + of_bool (rx_skbuff s ! e = Some p) - of_bool (k' = Some p)"
    and "dma_leak m (s\<lparr>tr := t, RxDescArray := Some (descs[e := d']), rx_skbuff := (rx_skbuff s)[e := k']\<rparr>)
      = dma_leak m s + (dma_bal m t - dma_bal m (tr s))
        + of_bool (rx_map (rx_buf_sz s) (descs ! e) (rx_skbuff s ! e) = Some m)
        - of_bool (rx_map (rx_buf_sz s) d' k' = Some m)"
  using assms
  by (simp_all add: skb_leak_def dma_leak_def rx_maps_def tx_maps_def map_update
      zip_update count_list_update cong: option.case_cong)

lemma same_leaks_frame:
  assumes "ledger (tr s') = ledger (tr s)"
    and "rx_skbuff s' = rx_skbuff s" "tx_skb s' = tx_skb s" "RxDescArray s' = RxDescArray s"
      "TxDescArray s' = TxDescArray s" "rx_buf_sz s' = rx_buf_sz s"
  shows "same_leaks s s'"
  using assms(2-) ledger_eqD [OF assms(1)]
  by (simp add: same_leaks_def skb_leak_def dma_leak_def rx_maps_def tx_maps_def cong: option.case_cong)

lemma tx_ring_ok_update:
  assumes "tx_ring_ok s" "TxDescArray s = Some descs" "tx_slot_ok e d r"
    and "TxDescArray s' = Some (descs[e := d])" "tx_skb s' = (tx_skb s)[e := r]"
    and "e < NUM_TX_DESC"
  shows "tx_ring_ok s'"
  using assms by (auto simp: tx_ring_ok_def nth_list_update)

lemma rx_ring_ok_update:
  assumes "rx_ring_ok s" "RxDescArray s = Some descs" "rx_slot_ok e d k"
    and "RxDescArray s' = Some (descs[e := d])" "rx_skbuff s' = (rx_skbuff s)[e := k]"
    and "rx_buf_sz s' = rx_buf_sz s" "e < NUM_RX_DESC"
  shows "rx_ring_ok s'"
  using assms by (auto simp: rx_ring_ok_def nth_list_update)

text \<open>
  Emptying a slot, as \<^verbatim>\<open>rtl8101_tx_clear\<close> and \<^verbatim>\<open>rtl8101_tx_interrupt\<close> do: unmap the buffer, then
  free the packet.
\<close>

definition slot_list :: "DrvPvt \<Rightarrow> nat \<Rightarrow> ptr list" where
  "slot_list s e = (case ri_skb (tx_skb s ! e) of None \<Rightarrow> [] | Some p \<Rightarrow> [p])"

definition tx_emptied :: "nat \<Rightarrow> DrvPvt \<Rightarrow> DrvPvt \<Rightarrow> bool" where
  "tx_emptied e s s' \<longleftrightarrow>
     tx_ring_ok s' \<and> tx_frame s' = tx_frame s \<and> same_leaks s s'
     \<and> irq_mask (tr s') = irq_mask (tr s) \<and> received (tr s') = received (tr s)
     \<and> freed (tr s') = freed (tr s) @ slot_list s e
     \<and> ri_skb (tx_skb s' ! e) = None
     \<and> (\<forall>e'. e' \<noteq> e \<longrightarrow> tx_skb s' ! e' = tx_skb s ! e')
     \<and> (\<forall>e'. e' \<noteq> e \<longrightarrow> the (TxDescArray s') ! e' = the (TxDescArray s) ! e')"

lemma unmap_free_tx:
  assumes ok: "tx_ring_ok s" and e: "e < NUM_TX_DESC" and p: "ri_skb (tx_skb s ! e) = Some p"
  obtains s1 where "rtl8101_unmap_tx_skb e s = Some s1"
    "tx_emptied e s (free_tx_skb e p s1)" "ri_skb (tx_skb s1 ! e) = Some p"
    "stats (free_tx_skb e p s1) = stats s" "tr (free_tx_skb e p s1) =
      FreeSkb p # UnmapSingle (addr (the (TxDescArray s) ! e)) (ri_len (tx_skb s ! e)) ToDevice # tr s"
proof -
  from ok obtain descs where d: "TxDescArray s = Some descs" "length descs = NUM_TX_DESC"
      "length (tx_skb s) = NUM_TX_DESC"
      "\<forall>e < NUM_TX_DESC. tx_slot_ok e (descs ! e) (tx_skb s ! e)"
    by (rule tx_ring_okE)
  let ?r = "tx_skb s ! e" and ?d = "(descs ! e)\<lparr>opts1 := 0, opts2 := 0, addr := 0\<rparr>"
  let ?t1 = "UnmapSingle (addr (descs ! e)) (ri_len ?r) ToDevice # tr s"
  define s1 where "s1 = s\<lparr>tr := ?t1, TxDescArray := Some (descs[e := ?d]),
    tx_skb := (tx_skb s)[e := ?r\<lparr>ri_len := 0\<rparr>]\<rparr>"
  have u: "rtl8101_unmap_tx_skb e s = Some s1"
    using d(1-3) e by (simp add: rtl8101_unmap_tx_skb_def s1_def)
  have s2: "free_tx_skb e p s1 = s\<lparr>tr := FreeSkb p # ?t1, TxDescArray := Some (descs[e := ?d]),
      tx_skb := (tx_skb s)[e := ?r\<lparr>ri_len := 0, ri_skb := None\<rparr>]\<rparr>" (is "_ = ?s2")
    using d(3) e by (simp add: free_tx_skb_def s1_def)
  have len: "ri_len ?r \<noteq> 0" using d(4) e p by (simp add: tx_slot_ok_def)
  have "same_leaks s ?s2"
    unfolding same_leaks_def tx_slot_leak [OF d(1-3) e] using len p by (auto simp: tx_map_def)
  moreover have "tx_ring_ok ?s2"
    by (rule tx_ring_ok_update [OF ok d(1), of e ?d "?r\<lparr>ri_len := 0, ri_skb := None\<rparr>"])
      (simp_all add: tx_slot_ok_def nic_owned_def e)
  ultimately have "tx_emptied e s ?s2"
    using d(3) e p by (simp add: tx_emptied_def tx_frame_def irq_mask_def d(1) slot_list_def)
  then show thesis
    using that [OF u] s2 d(1,3) e p by (simp add: s1_def)
qed

lemma tx_emptied_stats:
  "tx_emptied e s s' \<Longrightarrow> tx_emptied e s (s'\<lparr>stats := st\<rparr>)"
  by (simp add: tx_emptied_def tx_ring_ok_def tx_frame_def same_leaks_def skb_leak_def dma_leak_def
      rx_maps_def tx_maps_def cong: option.case_cong)

lemma tx_clear_slot_spec:
  assumes ok: "tx_ring_ok s" and e: "e < NUM_TX_DESC"
  shows "\<exists>s'. tx_clear_slot e s = Some s' \<and> tx_emptied e s s'"
proof (cases "ri_skb (tx_skb s ! e)")
  case None
  with ok e have "tx_clear_slot e s = Some s"
    by (auto simp: tx_clear_slot_def tx_ring_ok_def tx_slot_ok_def split: option.splits)
  then show ?thesis using None ok by (simp add: tx_emptied_def slot_list_def)
next
  case (Some p)
  from unmap_free_tx [OF ok e Some] obtain s1 where s1: "rtl8101_unmap_tx_skb e s = Some s1"
    "tx_emptied e s (free_tx_skb e p s1)" by metis
  from ok e Some have "idx (tx_skb s) e = Some (tx_skb s ! e)" "ri_len (tx_skb s ! e) \<noteq> 0"
    by (auto simp: tx_ring_ok_def tx_slot_ok_def split: option.splits)
  with s1 Some tx_emptied_stats [OF s1(2)] show ?thesis
    by (auto simp: tx_clear_slot_def Let_def)
qed

definition tx_emptying :: "DrvPvt \<Rightarrow> DrvPvt \<Rightarrow> bool" where
  "tx_emptying s s' \<longleftrightarrow>
     tx_ring_ok s' \<and> tx_frame s' = tx_frame s \<and> same_leaks s s'
     \<and> irq_mask (tr s') = irq_mask (tr s) \<and> received (tr s') = received (tr s)
     \<and> (\<forall>e. ri_skb (tx_skb s ! e) = None \<longrightarrow> ri_skb (tx_skb s' ! e) = None)"

lemma tx_emptied_emptying:
  "tx_emptied e s s1 \<Longrightarrow> tx_emptying s1 s2 \<Longrightarrow> tx_emptying s s2"
  by (auto simp: tx_emptied_def tx_emptying_def intro: same_leaks_trans) metis+

lemma tx_clear_loop_spec:
  assumes "tx_ring_ok s"
  shows "\<exists>s'. tx_clear_loop i b s = Some s' \<and> tx_emptying s s'
    \<and> (\<forall>k < unat b - unat i. ri_skb (tx_skb s' ! ((unat i + k) mod NUM_TX_DESC)) = None)"
  using assms
proof (induction i b s rule: tx_clear_loop.induct)
  case (1 i b s)
  let ?e = "unat i mod NUM_TX_DESC"
  show ?case
  proof (cases "i < b")
    case False
    with "1.prems" show ?thesis
      by (simp add: tx_clear_loop.simps [of i b] tx_emptying_def word_less_nat_alt)
  next
    case True
    have "?e < NUM_TX_DESC" using txr.N_pos by simp
    from tx_clear_slot_spec [OF "1.prems" this] obtain s1 where
      s1: "tx_clear_slot ?e s = Some s1" "tx_emptied ?e s s1" by blast
    then have "tx_ring_ok s1" by (simp add: tx_emptied_def)
    from "1.IH" [OF True _ this, OF s1(1)] obtain s2 where
      s2: "tx_clear_loop (i + 1) b s1 = Some s2" "tx_emptying s1 s2"
        "\<forall>k < unat b - unat (i + 1). ri_skb (tx_skb s2 ! ((unat (i + 1) + k) mod NUM_TX_DESC)) = None"
      by blast
    have "ri_skb (tx_skb s2 ! ((unat i + k) mod NUM_TX_DESC)) = None"
      if "k < unat b - unat i" for k
    proof (cases k)
      case 0
      with s1(2) s2(2) show ?thesis by (simp add: tx_emptied_def tx_emptying_def)
    next
      case (Suc k')
      with that s2(3) show ?thesis by (simp add: unat_succ_less [OF True])
    qed
    with True s1 s2 tx_emptied_emptying [OF s1(2) s2(2)] show ?thesis
      by (simp add: tx_clear_loop.simps [of i b])
  qed
qed

text \<open>The loop frees the packets it finds in the order of the slots.\<close>

lemma tx_clear_loop_freed:
  assumes "tx_ring_ok s" "tx_clear_loop i b s = Some s'" "i \<le> b" "unat (b - i) \<le> NUM_TX_DESC"
  shows "freed (tr s') = freed (tr s) @ concat (map (slot_list s) (ring_window NUM_TX_DESC i b))"
  using assms
proof (induction i b s rule: tx_clear_loop.induct)
  case (1 i b s)
  let ?e = "unat i mod NUM_TX_DESC"
  show ?case
  proof (cases "i < b")
    case False
    with "1.prems" have "i = b" by simp
    with "1.prems"(2) show ?thesis by (simp add: tx_clear_loop.simps [of b b] ring_window_def)
  next
    case True
    have "?e < NUM_TX_DESC" using txr.N_pos by simp
    from tx_clear_slot_spec [OF "1.prems"(1) this] obtain s1 where
      s1: "tx_clear_slot ?e s = Some s1" "tx_emptied ?e s s1" by blast
    have ne: "i \<noteq> b" using True by simp
    note W = txr.window_Cons [OF ne]
    have "distinct (ring_window NUM_TX_DESC i b)" by (rule txr.window_distinct [OF "1.prems"(4)])
    then have "e' \<noteq> ?e" if "e' \<in> set (ring_window NUM_TX_DESC (i + 1) b)" for e'
      using that by (auto simp: W ring_slot_def)
    then have same: "map (slot_list s1) (ring_window NUM_TX_DESC (i + 1) b)
        = map (slot_list s) (ring_window NUM_TX_DESC (i + 1) b)"
      using s1(2) by (auto simp: tx_emptied_def slot_list_def)
    have "tx_clear_loop (i + 1) b s1 = Some s'" "tx_ring_ok s1" "i + 1 \<le> b" "unat (b - (i + 1)) \<le> NUM_TX_DESC"
      using "1.prems"(2,4) True s1 inc_le [OF True] unat_diff_succ [of b i] ne
      by (simp_all add: tx_clear_loop.simps [of i b] tx_emptied_def)
    from "1.IH" [OF True s1(1) this(2,1,3,4)] show ?thesis
      using s1(2) by (simp add: W same tx_emptied_def ring_slot_def)
  qed
qed

text \<open>
  \<^verbatim>\<open>rtl8101_tx_clear\<close> empties the whole ring, provided \<^verbatim>\<open>pvt->dirty_tx + NUM_TX_DESC\<close> does not wrap
  around.
\<close>

definition tx_all_idle :: "DrvPvt \<Rightarrow> bool" where
  "tx_all_idle s \<longleftrightarrow> (\<forall>e < NUM_TX_DESC. ri_skb (tx_skb s ! e) = None)"

lemma tx_clear_full:
  assumes ok: "tx_ring_ok s" and nowrap: "unat (dirty_tx s) + NUM_TX_DESC < 2 ^ 32"
  obtains s' where "rtl8101_tx_clear s = Some (s'\<lparr>cur_tx := 0, dirty_tx := 0\<rparr>)"
    "tx_emptying s s'" "tx_all_idle s'"
proof -
  let ?d = "dirty_tx s"
  from tx_clear_loop_spec [OF ok, of ?d "?d + of_nat NUM_TX_DESC"] obtain s' where
    s': "tx_clear_loop ?d (?d + of_nat NUM_TX_DESC) s = Some s'" "tx_emptying s s'"
      "\<forall>k < unat (?d + of_nat NUM_TX_DESC) - unat ?d.
         ri_skb (tx_skb s' ! ((unat ?d + k) mod NUM_TX_DESC)) = None"
    by blast
  have N: "unat (of_nat NUM_TX_DESC :: u32) = NUM_TX_DESC" by (simp add: NUM_TX_DESC_def)
  have sum: "unat (?d + of_nat NUM_TX_DESC) = unat ?d + NUM_TX_DESC"
    using nowrap by (simp add: unat_word_ariths N)
  have "ri_skb (tx_skb s' ! e) = None" if "e < NUM_TX_DESC" for e
  proof -
    have "e \<in> set (ring_window NUM_TX_DESC ?d (?d + of_nat NUM_TX_DESC))"
      using txr.window_full [of "?d + of_nat NUM_TX_DESC" ?d] N that by simp
    then obtain k where "k < NUM_TX_DESC" "e = (unat ?d + k) mod NUM_TX_DESC"
      by (auto simp: ring_window_def N)
    with s'(3) sum show ?thesis by simp
  qed
  then have "tx_all_idle s'" by (simp add: tx_all_idle_def)
  with that s'(1,2) show thesis by (simp add: rtl8101_tx_clear_def)
qed

section \<open>Filling and clearing the receive ring\<close>

definition rx_desc_at :: "DrvPvt \<Rightarrow> nat \<Rightarrow> Desc" where
  "rx_desc_at s e = the (RxDescArray s) ! e"

text \<open>
  A buffer outside the slots \<open>X\<close> stays where it is and its descriptor with it; a buffer found
  afterwards in a slot of \<open>X\<close>, or in one that was empty, has been handed to the device.
\<close>

definition rx_renewed :: "nat set \<Rightarrow> DrvPvt \<Rightarrow> DrvPvt \<Rightarrow> bool" where
  "rx_renewed X s s' \<longleftrightarrow>
     (\<forall>e. e \<notin> X \<and> rx_skbuff s ! e \<noteq> None
        \<longrightarrow> rx_skbuff s' ! e = rx_skbuff s ! e \<and> rx_desc_at s' e = rx_desc_at s e)
     \<and> (\<forall>e. (e \<in> X \<or> rx_skbuff s ! e = None) \<and> rx_skbuff s' ! e \<noteq> None
        \<longrightarrow> nic_owned (rx_desc_at s' e))"

lemma rx_renewed_refl: "rx_renewed {} s s"
  by (auto simp: rx_renewed_def)

lemma rx_renewed_trans:
  assumes "rx_renewed X s s1" "rx_renewed Y s1 s2"
  shows "rx_renewed (X \<union> Y) s s2"
  using assms unfolding rx_renewed_def Un_iff de_Morgan_disj by (intro conjI allI) metis+

lemma rx_renewed_cong:
  assumes "RxDescArray s' = RxDescArray s" "rx_skbuff s' = rx_skbuff s"
  shows "rx_renewed X s' = rx_renewed X s" "rx_renewed X u s' = rx_renewed X u s"
  using assms by (simp_all add: rx_renewed_def [abs_def] rx_desc_at_def)

definition rx_growing :: "DrvPvt \<Rightarrow> DrvPvt \<Rightarrow> bool" where
  "rx_growing s s' \<longleftrightarrow>
     rx_ring_ok s' \<and> rx_frame s' = rx_frame s \<and> same_leaks s s'
     \<and> irq_mask (tr s') = irq_mask (tr s) \<and> stats s' = stats s
     \<and> freed (tr s') = freed (tr s) \<and> received (tr s') = received (tr s)
     \<and> rx_renewed {} s s'"

text \<open>An environment in which \<^verbatim>\<open>dev_alloc_skb\<close> never fails.\<close>

definition skbs_available :: "env \<Rightarrow> bool" where
  "skbs_available E \<longleftrightarrow> (\<forall>t n. alloc_skb E t n \<noteq> None)"

lemma rx_growing_refl: "rx_ring_ok s \<Longrightarrow> rx_growing s s"
  by (simp add: rx_growing_def rx_renewed_refl)

lemma rx_growing_trans: "rx_growing s s1 \<Longrightarrow> rx_growing s1 s2 \<Longrightarrow> rx_growing s s2"
  using rx_renewed_trans [of "{}" s s1 "{}" s2] by (auto simp: rx_growing_def intro: same_leaks_trans)

lemma alloc_rx_skb_spec:
  assumes ok: "rx_ring_ok s" and e: "e < NUM_RX_DESC" and k: "rx_skbuff s ! e = None"
  obtains (filled) s' where "rtl8101_alloc_rx_skb E e s = Some (0, s')"
      "rx_growing s s'" "rx_skbuff s' ! e \<noteq> None"
  | (shortage) s' where "rtl8101_alloc_rx_skb E e s = Some (- ENOMEM, s')" "rx_growing s s'"
      "alloc_skb E (tr s) (rx_buf_sz s + RTK_RX_ALIGN) = None" "rx_skbuff s' = rx_skbuff s"
proof (cases "alloc_skb E (tr s) (rx_buf_sz s + RTK_RX_ALIGN)")
  case None
  let ?s = "s\<lparr>tr := AllocSkb None # tr s\<rparr>"
  have "same_leaks s ?s" by (rule same_leaks_frame) (simp_all add: ledger_def)
  moreover have "rx_renewed {} s ?s" by (simp add: rx_renewed_cong(2) [of ?s s] rx_renewed_refl)
  ultimately have "rx_growing s ?s"
    using ok by (simp add: rx_growing_def rx_frame_def irq_mask_def)
  with None shortage show thesis by (simp add: rtl8101_alloc_rx_skb_def)
next
  case (Some p)
  from ok obtain descs where d: "RxDescArray s = Some descs" "length descs = NUM_RX_DESC"
      "length (rx_skbuff s) = NUM_RX_DESC" "rx_buf_sz s = RX_BUF_SIZE"
      "\<forall>e < NUM_RX_DESC. rx_slot_ok e (descs ! e) (rx_skbuff s ! e)"
    by (rule rx_ring_okE)
  let ?a = "map_addr E (AllocSkb (Some p) # tr s) p"
  let ?d = "rtl8101_map_to_asic ?a RX_BUF_SIZE (descs ! e)"
  let ?s = "s\<lparr>tr := MapSingle p ?a RX_BUF_SIZE FromDevice # AllocSkb (Some p) # tr s,
    RxDescArray := Some (descs[e := ?d]), rx_skbuff := (rx_skbuff s)[e := Some p]\<rparr>"
  have run: "rtl8101_alloc_rx_skb E e s = Some (0, ?s)"
    using Some d(1-4) e by (simp add: rtl8101_alloc_rx_skb_def Let_def)
  have "same_leaks s ?s"
    unfolding same_leaks_def rx_slot_leak [OF d(1-3) e] using k d(4)
    by (auto simp: rx_map_def map_to_asic_word)
  moreover have "rx_ring_ok ?s"
    by (rule rx_ring_ok_update [OF ok d(1), of e ?d "Some p"])
      (use d(5) e in \<open>simp_all add: rx_slot_ok_def map_to_asic_word\<close>)
  moreover have "rx_renewed {} s ?s"
    using k d(1-3) e by (auto simp: rx_renewed_def rx_desc_at_def nth_list_update map_to_asic_word)
  ultimately have "rx_growing s ?s"
    by (simp add: rx_growing_def rx_frame_def irq_mask_def)
  moreover have "rx_skbuff ?s ! e \<noteq> None" using d(3) e by simp
  ultimately show thesis using filled run by blast
qed

text \<open>One round of the fill loop that leaves a packet in its slot, followed by the rest of the loop.\<close>

lemma rx_fill_step:
  assumes ne: "0 < stop - cur" and run: "rx_fill_loop E cur stop s = rx_fill_loop E (cur + 1) stop s1"
    and grow: "rx_growing s s1" and here: "rx_skbuff s1 ! (unat cur mod NUM_RX_DESC) \<noteq> None"
    and rest: "\<exists>cur' s'. rx_fill_loop E (cur + 1) stop s1 = Some (cur', s') \<and> rx_growing s1 s'
      \<and> unat (cur' - (cur + 1)) \<le> unat (stop - (cur + 1))
      \<and> (\<forall>j < unat (cur' - (cur + 1)). rx_skbuff s' ! ((unat (cur + 1) + j) mod NUM_RX_DESC) \<noteq> None)
      \<and> (skbs_available E \<longrightarrow> cur' = stop)"
  shows "\<exists>cur' s'. rx_fill_loop E cur stop s = Some (cur', s') \<and> rx_growing s s'
    \<and> unat (cur' - cur) \<le> unat (stop - cur)
    \<and> (\<forall>j < unat (cur' - cur). rx_skbuff s' ! ((unat cur + j) mod NUM_RX_DESC) \<noteq> None)
    \<and> (skbs_available E \<longrightarrow> cur' = stop)"
proof -
  from rest obtain cur' s' where r: "rx_fill_loop E (cur + 1) stop s1 = Some (cur', s')"
    "rx_growing s1 s'" "unat (cur' - (cur + 1)) \<le> unat (stop - (cur + 1))"
    "\<forall>j < unat (cur' - (cur + 1)). rx_skbuff s' ! ((unat (cur + 1) + j) mod NUM_RX_DESC) \<noteq> None"
    "skbs_available E \<longrightarrow> cur' = stop" by blast
  have len: "unat (cur' - cur) \<le> Suc (unat (cur' - (cur + 1)))"
    by (cases "cur' = cur") (simp_all add: unat_diff_succ)
  have "rx_skbuff s' ! ((unat cur + j) mod NUM_RX_DESC) \<noteq> None" if "j < unat (cur' - cur)" for j
  proof (cases j)
    case 0
    with here r(2) show ?thesis by (simp add: rx_growing_def rx_renewed_def)
  next
    case (Suc j')
    have eq: "(unat cur + j) mod NUM_RX_DESC = (unat (cur + 1) + j') mod NUM_RX_DESC"
      using rxr.slot_succ [of cur] Suc by (simp add: ring_slot_def) (metis add_Suc mod_add_left_eq)
    have "j' < unat (cur' - (cur + 1))" using len that Suc by simp
    then show ?thesis unfolding eq using r(4) by blast
  qed
  moreover have "unat (cur' - cur) \<le> unat (stop - cur)"
    using len r(3) unat_diff_succ [of stop cur] ne by (cases "stop = cur") auto
  ultimately show ?thesis using r run rx_growing_trans [OF grow r(2)] by auto
qed

lemma rx_fill_loop_spec:
  assumes "rx_ring_ok s"
  shows "\<exists>cur' s'. rx_fill_loop E cur stop s = Some (cur', s') \<and> rx_growing s s'
    \<and> unat (cur' - cur) \<le> unat (stop - cur)
    \<and> (\<forall>j < unat (cur' - cur). rx_skbuff s' ! ((unat cur + j) mod NUM_RX_DESC) \<noteq> None)
    \<and> (skbs_available E \<longrightarrow> cur' = stop)"
  using assms
proof (induction E cur stop s rule: rx_fill_loop.induct)
  case (1 E cur stop s)
  let ?e = "unat cur mod NUM_RX_DESC"
  have e: "?e < NUM_RX_DESC" using rxr.N_pos by simp
  have idx: "idx (rx_skbuff s) ?e = Some (rx_skbuff s ! ?e)"
    using "1.prems" e by (auto simp: rx_ring_ok_def split: option.splits)
  show ?case
  proof (cases "stop - cur > 0")
    case False
    then have "stop = cur" by (simp add: word_greater_zero_iff)
    with "1.prems" show ?thesis
      by (simp add: rx_fill_loop.simps [of E cur cur s] rx_growing_refl)
  next
    case True
    show ?thesis
    proof (cases "rx_skbuff s ! ?e")
      case (Some p)
      then show ?thesis
        using rx_fill_step [OF True _ rx_growing_refl [OF "1.prems"]] True idx
          "1.IH"(1) [OF True refl idx _ "1.prems"]
        by (simp add: rx_fill_loop.simps [of E cur stop s] Let_def)
    next
      case None
      from "1.prems" e None show ?thesis
      proof (cases rule: alloc_rx_skb_spec [where E = E])
        case (filled s1)
        then have "rx_ring_ok s1" by (simp add: rx_growing_def)
        then show ?thesis
          using rx_fill_step [OF True _ filled(2,3)] True idx None filled(1)
            "1.IH"(2) [OF True refl idx, of "(0, s1)" 0 s1]
          by (simp add: rx_fill_loop.simps [of E cur stop s] Let_def)
      next
        case (shortage s1)
        then have "\<not> skbs_available E" by (auto simp: skbs_available_def)
        with shortage show ?thesis
          using True idx None
          by (auto simp: rx_fill_loop.simps [of E cur stop s] Let_def ENOMEM_def)
      qed
    qed
  qed
qed


lemma rx_fill_spec:
  assumes "rx_ring_ok s"
  obtains n s' where "rtl8101_rx_fill E start stop s = Some (n, s')" "rx_growing s s'"
    "unat n \<le> unat (stop - start)"
    "\<forall>j < unat n. rx_skbuff s' ! ((unat start + j) mod NUM_RX_DESC) \<noteq> None"
    "skbs_available E \<longrightarrow> n = stop - start"
  using rx_fill_loop_spec [OF assms, of E start stop] by (auto simp: rtl8101_rx_fill_def)

text \<open>Giving back the buffers of the receive ring.\<close>

lemma rx_slot_leak_free:
  assumes ok: "rx_ring_ok s" and e: "e < NUM_RX_DESC" and p: "rx_skbuff s ! e = Some p"
  obtains s' where "rtl8101_free_rx_skb e p s = Some s'" "rx_ring_ok s'"
    "rx_frame s' = rx_frame s" "same_leaks s s'" "irq_mask (tr s') = irq_mask (tr s)"
    "stats s' = stats s" "rx_skbuff s' = (rx_skbuff s)[e := None]"
proof -
  from ok obtain descs where d: "RxDescArray s = Some descs" "length descs = NUM_RX_DESC"
      "length (rx_skbuff s) = NUM_RX_DESC" "rx_buf_sz s = RX_BUF_SIZE"
      "\<forall>e < NUM_RX_DESC. rx_slot_ok e (descs ! e) (rx_skbuff s ! e)"
    by (rule rx_ring_okE)
  let ?d = "rtl8101_make_unusable_by_asic (descs ! e)"
  let ?s = "s\<lparr>tr := FreeSkb p # UnmapSingle (addr (descs ! e)) (rx_buf_sz s) FromDevice # tr s,
    RxDescArray := Some (descs[e := ?d]), rx_skbuff := (rx_skbuff s)[e := None]\<rparr>"
  have run: "rtl8101_free_rx_skb e p s = Some ?s"
    using d(1-3) e by (simp add: rtl8101_free_rx_skb_def)
  have "same_leaks s ?s"
    unfolding same_leaks_def rx_slot_leak [OF d(1-3) e] using p by (auto simp: rx_map_def)
  moreover have "rx_ring_ok ?s"
    by (rule rx_ring_ok_update [OF ok d(1), of e ?d None])
      (use d(5) e in \<open>simp_all add: rx_slot_ok_def make_unusable_word\<close>)
  ultimately show thesis
    by (intro that [OF run]) (simp_all add: rx_frame_def irq_mask_def)
qed

definition rx_shrinking :: "DrvPvt \<Rightarrow> DrvPvt \<Rightarrow> bool" where
  "rx_shrinking s s' \<longleftrightarrow>
     rx_ring_ok s' \<and> rx_frame s' = rx_frame s \<and> same_leaks s s'
     \<and> irq_mask (tr s') = irq_mask (tr s) \<and> stats s' = stats s
     \<and> (\<forall>e. rx_skbuff s ! e = None \<longrightarrow> rx_skbuff s' ! e = None)"

lemma rx_clear_loop_spec:
  assumes "rx_ring_ok s" "i + n \<le> NUM_RX_DESC"
  shows "\<exists>s'. rx_clear_loop n i s = Some s' \<and> rx_shrinking s s'
    \<and> (\<forall>e. i \<le> e \<and> e < i + n \<longrightarrow> rx_skbuff s' ! e = None)"
  using assms
proof (induction n arbitrary: i s)
  case 0
  then show ?case by (auto simp: rx_shrinking_def)
next
  case (Suc n)
  from Suc.prems have e: "i < NUM_RX_DESC" by simp
  have idx: "idx (rx_skbuff s) i = Some (rx_skbuff s ! i)"
    using Suc.prems(1) e by (auto simp: rx_ring_ok_def split: option.splits)
  obtain s1 where s1: "(case rx_skbuff s ! i of None \<Rightarrow> Some s | Some p \<Rightarrow> rtl8101_free_rx_skb i p s) = Some s1"
    "rx_shrinking s s1" "rx_skbuff s1 ! i = None"
  proof (cases "rx_skbuff s ! i")
    case None
    with that [of s] Suc.prems(1) show thesis by (simp add: rx_shrinking_def)
  next
    case (Some p)
    have "length (rx_skbuff s) = NUM_RX_DESC"
      using Suc.prems(1) by (auto simp: rx_ring_ok_def split: option.splits)
    moreover obtain s1 where s1: "rtl8101_free_rx_skb i p s = Some s1" "rx_ring_ok s1"
      "rx_frame s1 = rx_frame s" "same_leaks s s1" "irq_mask (tr s1) = irq_mask (tr s)"
      "stats s1 = stats s" "rx_skbuff s1 = (rx_skbuff s)[i := None]"
      using rx_slot_leak_free [OF Suc.prems(1) e Some] .
    ultimately show thesis
      using that [of s1] Some e by (simp add: rx_shrinking_def nth_list_update)
  qed
  then have "rx_ring_ok s1" by (simp add: rx_shrinking_def)
  from Suc.IH [OF this, of "Suc i"] Suc.prems obtain s2 where
    s2: "rx_clear_loop n (Suc i) s1 = Some s2" "rx_shrinking s1 s2"
      "\<forall>e. Suc i \<le> e \<and> e < Suc i + n \<longrightarrow> rx_skbuff s2 ! e = None" by auto
  have "rx_skbuff s2 ! e = None" if "i \<le> e" "e < i + Suc n" for e
    using that s1(3) s2(2,3) by (cases "e = i") (auto simp: rx_shrinking_def)
  moreover have "rx_shrinking s s2"
    using s1(2) s2(2) by (auto simp: rx_shrinking_def intro: same_leaks_trans)
  ultimately show ?case using s1(1) s2(1) idx by auto
qed

definition rx_all_empty :: "DrvPvt \<Rightarrow> bool" where
  "rx_all_empty s \<longleftrightarrow> (\<forall>e < NUM_RX_DESC. rx_skbuff s ! e = None)"

lemma rx_clear_spec:
  assumes "rx_ring_ok s"
  obtains s' where "rtl8101_rx_clear s = Some s'" "rx_shrinking s s'" "rx_all_empty s'"
  using rx_clear_loop_spec [OF assms, of 0 NUM_RX_DESC]
  by (auto simp: rtl8101_rx_clear_def rx_all_empty_def)

end
