(* ===== verification/Tx_Path.thy ===== *)
theory Tx_Path
  imports Net_Ops Ring_Inv
begin

text \<open>
  The transmit path: the window between \<^verbatim>\<open>dirty_tx\<close> and \<^verbatim>\<open>cur_tx\<close> is the queue of packets handed to
  the device. \<^verbatim>\<open>rtl8101_start_xmit\<close> appends to it, \<^verbatim>\<open>rtl8101_tx_interrupt\<close> removes and frees the
  longest prefix of finished packets.
\<close>

section \<open>One completed descriptor\<close>

definition tx_desc_at :: "DrvPvt \<Rightarrow> nat \<Rightarrow> Desc" where
  "tx_desc_at s e = the (TxDescArray s) ! e"

definition tx_done :: "DrvPvt \<Rightarrow> nat \<Rightarrow> bool" where
  "tx_done s e \<longleftrightarrow> \<not> nic_owned (tx_desc_at s e)"

definition slot_skb :: "DrvPvt \<Rightarrow> nat \<Rightarrow> ptr" where
  "slot_skb s e = the (ri_skb (tx_skb s ! e))"

definition slot_bytes :: "DrvPvt \<Rightarrow> nat \<Rightarrow> u64" where
  "slot_bytes s e = ucast (ri_len (tx_skb s ! e))"

text \<open>The slots of the list \<open>D\<close> have been completed, in this order, and nothing else changed.\<close>

definition tx_drained :: "nat list \<Rightarrow> DrvPvt \<Rightarrow> DrvPvt \<Rightarrow> bool" where
  "tx_drained D s s' \<longleftrightarrow>
     tx_ring_ok s' \<and> tx_frame s' = tx_frame s \<and> same_leaks s s'
     \<and> irq_mask (tr s') = irq_mask (tr s)
     \<and> (\<forall>e. e \<notin> set D \<longrightarrow> tx_skb s' ! e = tx_skb s ! e \<and> tx_desc_at s' e = tx_desc_at s e)
     \<and> (\<forall>e \<in> set D. ri_skb (tx_skb s' ! e) = None)
     \<and> freed (tr s') = freed (tr s) @ map (slot_skb s) D \<and> received (tr s') = received (tr s)
     \<and> stats s' = (stats s)\<lparr>tx_packets := tx_packets (stats s) + of_nat (length D),
                            tx_bytes := tx_bytes (stats s) + sum_list (map (slot_bytes s) D)\<rparr>"

lemma tx_drained_Nil: "tx_ring_ok s \<Longrightarrow> tx_drained [] s s"
  by (simp add: tx_drained_def)

lemma tx_drained_other:
  assumes "tx_drained D s s'" "e \<notin> set D"
  shows "tx_skb s' ! e = tx_skb s ! e" "tx_desc_at s' e = tx_desc_at s e"
    "slot_skb s' e = slot_skb s e" "tx_done s' e = tx_done s e"
  using assms by (simp_all add: tx_drained_def slot_skb_def tx_done_def)

lemma tx_drained_Cons:
  assumes "tx_drained [e] s s1" "tx_drained D s1 s2" "e \<notin> set D"
  shows "tx_drained (e # D) s s2"
proof -
  have D: "map (slot_skb s1) D = map (slot_skb s) D" "map (slot_bytes s1) D = map (slot_bytes s) D"
    using assms(1,3) by (auto simp: tx_drained_def slot_skb_def slot_bytes_def)
  have "same_leaks s s2"
    using assms(1,2) by (auto simp: tx_drained_def intro: same_leaks_trans)
  with assms show ?thesis
    unfolding tx_drained_def D by (auto simp: D algebra_simps)
qed

lemma tx_complete_spec:
  assumes ok: "tx_ring_ok s" and e: "e < NUM_TX_DESC" and p: "ri_skb (tx_skb s ! e) \<noteq> None"
  obtains s' where "tx_complete e (opts1 (tx_desc_at s e)) (ri_len (tx_skb s ! e)) s = Some s'"
    "tx_drained [e] s s'"
proof -
  let ?u = "s\<lparr>stats := (stats s)\<lparr>tx_bytes := tx_bytes (stats s) + ucast (ri_len (tx_skb s ! e)),
    tx_packets := tx_packets (stats s) + 1\<rparr>\<rparr>"
  from p obtain q where q: "ri_skb (tx_skb ?u ! e) = Some q" by auto
  from ok have "tx_ring_ok ?u" by simp
  from unmap_free_tx [OF this e q] obtain s1 where s1: "rtl8101_unmap_tx_skb e ?u = Some s1"
    "tx_emptied e ?u (free_tx_skb e q s1)" "ri_skb (tx_skb s1 ! e) = Some q"
    "stats (free_tx_skb e q s1) = stats ?u" "tr (free_tx_skb e q s1) =
      FreeSkb q # UnmapSingle (addr (the (TxDescArray s) ! e)) (ri_len (tx_skb s ! e)) ToDevice # tr s"
    by auto
  from ok have last: "opts1 (tx_desc_at s e) AND dbit LastFrag \<noteq> 0"
    using e p unfolding tx_ring_ok_def tx_slot_ok_def tx_desc_at_def
    by (auto split: option.splits)
  from s1(2) have ok2: "tx_ring_ok (free_tx_skb e q s1)" by (simp add: tx_emptied_def)
  then have "length (tx_skb s1) = NUM_TX_DESC"
    by (auto simp: tx_ring_ok_def free_tx_skb_def split: option.splits)
  with s1(1,3) last e have
    "tx_complete e (opts1 (tx_desc_at s e)) (ri_len (tx_skb s ! e)) s = Some (free_tx_skb e q s1)"
    by (simp add: tx_complete_def Let_def)
  moreover have "same_leaks s ?u" by (rule same_leaks_frame) simp_all
  ultimately show thesis
    using that s1(2,4,5) q ok2
    by (auto simp: tx_drained_def tx_emptied_def tx_frame_def tx_desc_at_def slot_skb_def
        slot_bytes_def intro: same_leaks_trans)
qed

section \<open>The completion loop\<close>

text \<open>The loop scans the ring: it completes the packets that the device has sent.\<close>

lemma tx_loop_round:
  assumes "tx_ring_ok s"
  shows "tx_loop (Suc n) d s =
    (let e = ring_slot NUM_TX_DESC d
     in if nic_owned (tx_desc_at s e) then Some (d, s)
        else tx_complete e (opts1 (tx_desc_at s e)) (ri_len (tx_skb s ! e)) s \<bind> tx_loop n (d + 1))"
proof -
  have "unat d mod NUM_TX_DESC < NUM_TX_DESC" using txr.N_pos by simp
  with assms show ?thesis
    by (auto simp: ring_slot_def tx_desc_at_def nic_owned_def Let_def elim!: tx_ring_okE)
qed

interpretation txs: ring_scan NUM_TX_DESC tx_loop tx_ring_ok "\<lambda>s e. ri_skb (tx_skb s ! e) \<noteq> None" tx_done tx_drained
proof unfold_locales
  show "tx_loop (Suc n) d s = Some (d, s)" if "tx_ring_ok s" "\<not> tx_done s (ring_slot NUM_TX_DESC d)" for n d s
    using tx_loop_round [OF that(1)] that(2) by (simp add: tx_done_def Let_def)
  show "\<exists>s1. tx_loop (Suc n) d s = tx_loop n (d + 1) s1 \<and> tx_drained [ring_slot NUM_TX_DESC d] s s1"
    if "tx_ring_ok s" "ri_skb (tx_skb s ! ring_slot NUM_TX_DESC d) \<noteq> None" "tx_done s (ring_slot NUM_TX_DESC d)" for n d s
  proof -
    from tx_complete_spec [OF that(1) txr.slot_less that(2)] obtain s1 where
      "tx_complete (ring_slot NUM_TX_DESC d) (opts1 (tx_desc_at s (ring_slot NUM_TX_DESC d)))
        (ri_len (tx_skb s ! ring_slot NUM_TX_DESC d)) s = Some s1" "tx_drained [ring_slot NUM_TX_DESC d] s s1" .
    with tx_loop_round [OF that(1), of n d] that(3) show ?thesis by (auto simp: tx_done_def Let_def)
  qed
  show "tx_drained (e # D) s s2" if "tx_drained [e] s s1" "tx_drained D s1 s2" "e \<notin> set D" for e D s s1 s2
    using that by (rule tx_drained_Cons)
  show "(ri_skb (tx_skb s1 ! x) \<noteq> None) = (ri_skb (tx_skb s ! x) \<noteq> None) \<and> tx_done s1 x = tx_done s x"
    if "tx_drained [e] s s1" "x \<noteq> e" for e x s s1
    using tx_drained_other [OF that(1), of x] that(2) by simp
qed (simp_all add: tx_drained_Nil, simp add: tx_drained_def)

lemmas tx_loop_spec = txs.scan_spec

section \<open>The transmit invariant\<close>

definition tx_window :: "DrvPvt \<Rightarrow> nat list" where
  "tx_window s = ring_window NUM_TX_DESC (dirty_tx s) (cur_tx s)"

text \<open>
  A slot holds a packet exactly when it is in the window, one slot always stays free, and while
  the queue is awake a packet with the largest number of fragments still fits.
\<close>

definition tx_inv :: "env \<Rightarrow> DrvPvt \<Rightarrow> bool" where
  "tx_inv E s \<longleftrightarrow>
     tx_ring_ok s
     \<and> unat (cur_tx s - dirty_tx s) < NUM_TX_DESC
     \<and> (\<forall>e < NUM_TX_DESC. ri_skb (tx_skb s ! e) \<noteq> None \<longleftrightarrow> e \<in> set (tx_window s))
     \<and> (\<not> queue_stopped s \<longrightarrow> MAX_SKB_FRAGS E \<le> TX_BUFFS_AVAIL s)"

text \<open>The packets handed to the device and not completed yet, oldest first.\<close>

definition tx_queue :: "DrvPvt \<Rightarrow> ptr list" where
  "tx_queue s = map (slot_skb s) (tx_window s)"

lemma unat_TX_BUFFS_AVAIL:
  assumes "unat (cur_tx s - dirty_tx s) < NUM_TX_DESC"
  shows "unat (TX_BUFFS_AVAIL s) = NUM_TX_DESC - 1 - unat (cur_tx s - dirty_tx s)"
proof -
  let ?k = "cur_tx s - dirty_tx s"
  have "TX_BUFFS_AVAIL s = of_nat (NUM_TX_DESC - 1) - ?k"
    by (simp add: TX_BUFFS_AVAIL_def NUM_TX_DESC_def)
  moreover have "?k \<le> of_nat (NUM_TX_DESC - 1)"
    using assms by (simp add: word_le_nat_alt NUM_TX_DESC_def)
  ultimately show ?thesis
    by (simp add: unat_sub) (simp add: NUM_TX_DESC_def)
qed

lemma tx_inv_window:
  assumes "tx_inv E s"
  shows "\<forall>e \<in> set (tx_window s). e < NUM_TX_DESC \<and> ri_skb (tx_skb s ! e) \<noteq> None"
    and "distinct (tx_window s)"
  using assms txr.window_less [of _ "dirty_tx s" "cur_tx s"]
    txr.window_distinct [of "cur_tx s" "dirty_tx s"]
  by (auto simp: tx_inv_def tx_window_def)

text \<open>What the transmit path leaves alone: all but the trace, the statistics and its own state.\<close>

definition tx_path_frame :: "DrvPvt \<Rightarrow> DrvPvt" where
  "tx_path_frame s = (tx_frame s)\<lparr>cur_tx := 0, dirty_tx := 0, queue_stopped := False, trans_start := 0\<rparr>"

lemma tx_path_frameD:
  assumes "tx_path_frame s' = tx_path_frame s"
  shows "cur_rx s' = cur_rx s" "dirty_rx s' = dirty_rx s" "RxDescArray s' = RxDescArray s"
    "rx_skbuff s' = rx_skbuff s" "rx_buf_sz s' = rx_buf_sz s" "lock s' = lock s"
    "carrier_ok s' = carrier_ok s" "netif_running s' = netif_running s"
    "napi_enabled s' = napi_enabled s" "napi_scheduled s' = napi_scheduled s"
    "task s' = task s" "link_timer s' = link_timer s"
  using assms by (cases s; cases s'; simp add: tx_path_frame_def tx_frame_def)+

section \<open>Transmit completion\<close>

lemma tx_publish_state:
  "tx_publish E dirty s =
     s\<lparr>dirty_tx := dirty,
       queue_stopped := queue_stopped s \<and>
         (dirty = dirty_tx s \<or> TX_BUFFS_AVAIL (s\<lparr>dirty_tx := dirty\<rparr>) < MAX_SKB_FRAGS E),
       tr := (if dirty \<noteq> dirty_tx s \<and> cur_tx s \<noteq> dirty
              then rtl8101_notify_for_tx (tr s) else tr s)\<rparr>"
  by (auto simp: tx_publish_def netif_wake_queue_def Let_def not_le)

lemma tx_publish_fields [simp]:
  "tx_skb (tx_publish E dirty s) = tx_skb s" "TxDescArray (tx_publish E dirty s) = TxDescArray s"
  "cur_tx (tx_publish E dirty s) = cur_tx s" "dirty_tx (tx_publish E dirty s) = dirty"
  "rx_skbuff (tx_publish E dirty s) = rx_skbuff s" "RxDescArray (tx_publish E dirty s) = RxDescArray s"
  "rx_buf_sz (tx_publish E dirty s) = rx_buf_sz s" "stats (tx_publish E dirty s) = stats s"
  by (simp_all add: tx_publish_state)

lemma tx_publish_frame [simp]: "tx_path_frame (tx_publish E dirty s) = tx_path_frame s"
  by (simp add: tx_path_frame_def tx_frame_def tx_publish_state)

lemma tx_publish_queue [simp]:
  "queue_stopped (tx_publish E dirty s) \<longleftrightarrow> queue_stopped s
    \<and> (dirty = dirty_tx s \<or> TX_BUFFS_AVAIL (tx_publish E dirty s) < MAX_SKB_FRAGS E)"
  by (simp add: tx_publish_state TX_BUFFS_AVAIL_def)

lemma tx_publish_trace [trace_simps]:
  "ledger (tr (tx_publish E dirty s)) = ledger (tr s)"
  "irq_mask (tr (tx_publish E dirty s)) = irq_mask (tr s)"
  by (simp_all add: tx_publish_state trace_simps)

lemma notify_freed [simp]:
  "freed (rtl8101_notify_for_tx t) = freed t" "received (rtl8101_notify_for_tx t) = received t"
  by (simp_all add: rtl8101_notify_for_tx_def REG_defs)

lemma tx_publish_freed [simp]:
  "freed (tr (tx_publish E dirty s)) = freed (tr s)"
  "received (tr (tx_publish E dirty s)) = received (tr s)"
  by (simp_all add: tx_publish_state)

lemma tx_publish_ring_ok [simp]: "tx_ring_ok (tx_publish E dirty s) = tx_ring_ok s"
  by (rule tx_ring_ok_cong) simp_all

text \<open>
  What \<^verbatim>\<open>rtl8101_tx_interrupt\<close> leaves, by the number \<open>k\<close> of completed packets: the longest
  prefix of the queue whose descriptors the device has given back.
\<close>

definition tx_reaped :: "env \<Rightarrow> nat \<Rightarrow> DrvPvt \<Rightarrow> DrvPvt \<Rightarrow> bool" where
  "tx_reaped E k s s' \<longleftrightarrow>
     tx_inv E s' \<and> same_leaks s s' \<and> irq_mask (tr s') = irq_mask (tr s)
     \<and> tx_path_frame s' = tx_path_frame s \<and> cur_tx s' = cur_tx s
     \<and> dirty_tx s' = dirty_tx s + of_nat k
     \<and> tx_queue s' = drop k (tx_queue s)
     \<and> freed (tr s') = freed (tr s) @ take k (tx_queue s) \<and> received (tr s') = received (tr s)
     \<and> stats s' = (stats s)\<lparr>tx_packets := tx_packets (stats s) + of_nat k,
          tx_bytes := tx_bytes (stats s) + sum_list (map (slot_bytes s) (take k (tx_window s)))\<rparr>
     \<and> (queue_stopped s' \<longleftrightarrow>
          queue_stopped s \<and> (k = 0 \<or> TX_BUFFS_AVAIL s' < MAX_SKB_FRAGS E))"

definition tx_done_count :: "DrvPvt \<Rightarrow> nat" where
  "tx_done_count s = length (takeWhile (tx_done s) (tx_window s))"

text \<open>Publishing the new index after the first \<open>k\<close> slots of the window have been completed.\<close>

lemma tx_shrink:
  assumes inv: "tx_inv E s" and s1: "tx_drained (take k (tx_window s)) s s1" and k: "k \<le> unat (cur_tx s - dirty_tx s)"
  defines "s' \<equiv> tx_publish E (dirty_tx s + of_nat k) s1"
  shows "tx_inv E s'" "tx_queue s' = drop k (tx_queue s)" "dirty_tx s + of_nat k = dirty_tx s \<longleftrightarrow> k = 0"
proof -
  let ?W = "tx_window s" and ?d = "dirty_tx s + of_nat k"
  let ?D = "take k ?W"
  from inv have lt: "unat (cur_tx s - dirty_tx s) < NUM_TX_DESC" by (simp add: tx_inv_def)
  have frame: "cur_tx s1 = cur_tx s" "dirty_tx s1 = dirty_tx s" "queue_stopped s1 = queue_stopped s"
    using s1 by (auto simp: tx_drained_def dest: tx_frameD)
  from txr.window_drop [OF k] have win: "tx_window s' = drop k ?W"
    and len: "unat (cur_tx s - ?d) = unat (cur_tx s - dirty_tx s) - k"
    by (simp_all add: tx_window_def frame s'_def)
  have disj: "e \<notin> set ?D" if "e \<in> set (drop k ?W)" for e
    using that set_take_disj_set_drop_if_distinct [OF tx_inv_window(2) [OF inv], of k k] by auto
  have W: "set ?W = set ?D \<union> set (drop k ?W)" by (metis append_take_drop_id set_append)
  have "ri_skb (tx_skb s' ! e) \<noteq> None \<longleftrightarrow> e \<in> set (drop k ?W)" if "e < NUM_TX_DESC" for e
    using that s1 inv disj [of e] W tx_drained_other(1) [OF s1, of e]
    by (cases "e \<in> set ?D") (auto simp: tx_inv_def tx_drained_def s'_def)
  moreover have "unat (TX_BUFFS_AVAIL s') \<ge> unat (TX_BUFFS_AVAIL s)"
    using unat_TX_BUFFS_AVAIL [of s] unat_TX_BUFFS_AVAIL [of s'] lt len by (simp add: frame s'_def)
  ultimately show "tx_inv E s'"
    unfolding tx_inv_def win using s1 lt len inv
    by (auto simp: frame tx_drained_def tx_inv_def not_less word_le_nat_alt s'_def)
  show "tx_queue s' = drop k (tx_queue s)"
    unfolding tx_queue_def win drop_map using tx_drained_other(1) [OF s1 disj] by (simp add: slot_skb_def s'_def)
  show "?d = dirty_tx s \<longleftrightarrow> k = 0"
    using len k lt by (cases "k = 0") (auto simp: txr.N_pos)
qed

lemma tx_interrupt_spec:
  assumes inv: "tx_inv E s"
  obtains s' where "rtl8101_tx_interrupt E s = Some s'" "tx_reaped E (tx_done_count s) s s'"
proof -
  let ?k = "tx_done_count s" and ?W = "tx_window s"
  let ?D = "take ?k ?W"
  have D: "takeWhile (tx_done s) ?W = ?D" "length ?D = ?k"
    using takeWhile_eq_take [of "tx_done s" ?W] length_takeWhile_le [of "tx_done s" ?W]
    by (simp_all add: tx_done_count_def)
  from inv have ok: "tx_ring_ok s" and lt: "unat (cur_tx s - dirty_tx s) < NUM_TX_DESC"
    by (simp_all add: tx_inv_def)
  from tx_loop_spec [OF ok, of "cur_tx s" "dirty_tx s"] tx_inv_window(1) [OF inv] lt D
  obtain s1 where s1: "tx_loop (unat (cur_tx s - dirty_tx s)) (dirty_tx s) s =
      Some (dirty_tx s + of_nat ?k, s1)" "tx_drained ?D s s1"
    by (auto simp: tx_window_def [symmetric])
  let ?s' = "tx_publish E (dirty_tx s + of_nat ?k) s1"
  have frame: "cur_tx s1 = cur_tx s" "dirty_tx s1 = dirty_tx s" "queue_stopped s1 = queue_stopped s"
    using s1(2) by (auto simp: tx_drained_def dest: tx_frameD)
  have k: "?k \<le> unat (cur_tx s - dirty_tx s)"
    using D(2) length_take [of ?k ?W] by (simp add: tx_window_def)
  have "same_leaks s1 ?s'" by (rule same_leaks_frame) (simp_all add: trace_simps)
  with tx_shrink [OF inv s1(2) k] have "tx_reaped E ?k s ?s'"
    using s1(2) D(2) unfolding tx_reaped_def
    by (auto simp: tx_drained_def tx_path_frame_def [of s] tx_path_frame_def [of s1] tx_queue_def take_map frame trace_simps
        intro: same_leaks_trans)
  with s1(1) that show thesis by (simp add: rtl8101_tx_interrupt_def)
qed


section \<open>Handing a packet to the device\<close>

text \<open>The packets the stack may pass: not empty, of Ethernet size, with a bounded fragment list.\<close>

definition skb_ok :: "env \<Rightarrow> sk_buff \<Rightarrow> bool" where
  "skb_ok E skb \<longleftrightarrow> 0 < skb_len skb \<and> skb_len skb < 0x10000 \<and> nr_frags skb \<le> MAX_SKB_FRAGS E"

lemma small_len_bits: "(len :: u32) < 0x10000 \<Longrightarrow> 16 \<le> n \<Longrightarrow> \<not> bit len n"
proof
  assume "len < 0x10000" "16 \<le> n" "bit len n"
  moreover from this(1) have "len = take_bit 16 len"
    by (simp add: word_unat_eq_iff unsigned_take_bit_eq take_bit_nat_eq_self word_less_nat_alt)
  ultimately show False by (metis bit_take_bit_iff linorder_not_less)
qed

lemma tx_opts1_bits:
  assumes "len < 0x10000" "e < NUM_TX_DESC"
  shows "bit (tx_opts1 len e) 31" "bit (tx_opts1 len e) 28" "bit (tx_opts1 len e) 29"
    "bit (tx_opts1 len e) 30 \<longleftrightarrow> e = NUM_TX_DESC - 1"
    "tx_opts1 len e AND mask 16 = len"
proof -
  have last: "(e + 1) mod NUM_TX_DESC = 0 \<longleftrightarrow> e = NUM_TX_DESC - 1"
    using assms(2) by (auto simp: mod_eq_0_iff_dvd dest!: dvd_imp_le)
  show "bit (tx_opts1 len e) 31" "bit (tx_opts1 len e) 28" "bit (tx_opts1 len e) 29"
    "bit (tx_opts1 len e) 30 \<longleftrightarrow> e = NUM_TX_DESC - 1"
    using small_len_bits [OF assms(1)] unfolding tx_opts1_def last by (auto simp: bit_or_iff)
  have "n < 16" if "bit len n" for n
    using small_len_bits [OF assms(1), of n] that by (simp add: linorder_not_le [symmetric]) blast
  then show "tx_opts1 len e AND mask 16 = len"
    by (intro bit_word_eqI) (auto simp: tx_opts1_def bit_or_iff bit_and_iff bit_mask_iff)
qed


text \<open>What a successful \<^verbatim>\<open>rtl8101_start_xmit\<close> leaves.\<close>

definition tx_queued :: "env \<Rightarrow> sk_buff \<Rightarrow> DrvPvt \<Rightarrow> DrvPvt \<Rightarrow> bool" where
  "tx_queued E skb s s' \<longleftrightarrow>
     tx_inv E s' \<and> same_leaks s s' \<and> irq_mask (tr s') = irq_mask (tr s)
     \<and> tx_path_frame s' = tx_path_frame s \<and> stats s' = stats s
     \<and> cur_tx s' = cur_tx s + 1 \<and> dirty_tx s' = dirty_tx s
     \<and> tx_queue s' = tx_queue s @ [skb_ptr skb] \<and> freed (tr s') = freed (tr s)
     \<and> received (tr s') = received (tr s)
     \<and> tx_desc_at s' (ring_slot NUM_TX_DESC (cur_tx s)) =
         \<lparr>opts1 = tx_opts1 (skb_len skb) (ring_slot NUM_TX_DESC (cur_tx s)), opts2 = 0,
          addr = map_addr E (TakeSkb (skb_ptr skb) # tr s) (skb_ptr skb)\<rparr>
     \<and> (\<forall>e. e \<noteq> ring_slot NUM_TX_DESC (cur_tx s) \<longrightarrow> tx_desc_at s' e = tx_desc_at s e)
     \<and> last_w8 (reg TxPoll) (tr s') = Some (pollbit NPQ)
     \<and> (queue_stopped s' \<longleftrightarrow> TX_BUFFS_AVAIL s' < MAX_SKB_FRAGS E)"

lemma start_xmit_state:
  fixes E :: env
  assumes free: "\<not> lock s" and room: "\<not> TX_BUFFS_AVAIL s < nr_frags skb"
    and d: "TxDescArray s = Some descs" "length descs = NUM_TX_DESC" "length (tx_skb s) = NUM_TX_DESC"
    and cpu: "\<not> nic_owned (tx_desc_at s (ring_slot NUM_TX_DESC (cur_tx s)))"
    and awake: "\<not> queue_stopped s"
  defines "e \<equiv> ring_slot NUM_TX_DESC (cur_tx s)"
    and "t \<equiv> TakeSkb (skb_ptr skb) # tr s"
  defines "a \<equiv> map_addr E t (skb_ptr skb)"
  defines "m \<equiv> MapSingle (skb_ptr skb) a (skb_len skb) ToDevice # t"
  shows "rtl8101_start_xmit E skb s = Some (NETDEV_TX_OK, s\<lparr>tr := rtl8101_notify_for_tx m,
    TxDescArray := Some (descs[e := tx_desc a (tx_opts1 (skb_len skb) e) (descs ! e)]),
    tx_skb := (tx_skb s)[e := \<lparr>ri_skb = Some (skb_ptr skb), ri_len = skb_len skb\<rparr>],
    trans_start := jiffies E m, cur_tx := cur_tx s + 1,
    queue_stopped := TX_BUFFS_AVAIL (s\<lparr>cur_tx := cur_tx s + 1\<rparr>) < MAX_SKB_FRAGS E, lock := False\<rparr>)"
proof -
  have e: "unat (cur_tx s) mod NUM_TX_DESC = e" "e < NUM_TX_DESC"
    by (simp_all add: e_def ring_slot_def) (simp add: txr.N_pos)
  have owned: "opts1 (descs ! e) AND dbit DescOwn = 0"
    using cpu d(1) by (simp add: tx_desc_at_def nic_owned_def e_def)
  show ?thesis
    using free room d awake owned unfolding rtl8101_start_xmit_def e(1) Let_def
    by (simp add: spin_lock_def spin_unlock_def e TX_BUFFS_AVAIL_def netif_defs t_def a_def m_def not_le)
qed

lemma awake_slot_free:
  assumes inv: "tx_inv E s" and awake: "\<not> queue_stopped s" and frags: "0 < MAX_SKB_FRAGS E"
  defines "e \<equiv> ring_slot NUM_TX_DESC (cur_tx s)"
  shows "unat (cur_tx s - dirty_tx s) < NUM_TX_DESC - 1" "e \<notin> set (tx_window s)"
    "ri_skb (tx_skb s ! e) = None" "ri_len (tx_skb s ! e) = 0" "\<not> nic_owned (tx_desc_at s e)"
proof -
  from inv have lt: "unat (cur_tx s - dirty_tx s) < NUM_TX_DESC" by (simp add: tx_inv_def)
  have "0 < TX_BUFFS_AVAIL s"
    using inv awake frags order_less_le_trans [of 0 "MAX_SKB_FRAGS E"] by (auto simp: tx_inv_def)
  then show "unat (cur_tx s - dirty_tx s) < NUM_TX_DESC - 1"
    using unat_TX_BUFFS_AVAIL [OF lt] by (simp add: word_less_nat_alt)
  show win: "e \<notin> set (tx_window s)"
    using txr.slot_notin_window [OF lt] by (simp add: tx_window_def e_def)
  have e: "e < NUM_TX_DESC" by (simp add: e_def)
  with inv win show none: "ri_skb (tx_skb s ! e) = None" by (auto simp: tx_inv_def)
  have "tx_slot_ok e (tx_desc_at s e) (tx_skb s ! e)"
    using inv e by (auto simp: tx_inv_def tx_ring_ok_def tx_desc_at_def split: option.splits)
  with none show "ri_len (tx_skb s ! e) = 0" "\<not> nic_owned (tx_desc_at s e)"
    by (auto simp: tx_slot_ok_def)
qed

text \<open>Filling an empty slot: the packet and its mapping are owned by the ring, which stays well-formed.\<close>

lemma tx_slot_fill:
  fixes s descs e p n a
  defines "u \<equiv> s\<lparr>tr := MapSingle p a n ToDevice # TakeSkb p # tr s,
      TxDescArray := Some (descs[e := tx_desc a (tx_opts1 n e) (descs ! e)]),
      tx_skb := (tx_skb s)[e := \<lparr>ri_skb = Some p, ri_len = n\<rparr>]\<rparr>"
  assumes ok: "tx_ring_ok s" and d: "TxDescArray s = Some descs" "length descs = NUM_TX_DESC" "length (tx_skb s) = NUM_TX_DESC"
    and e: "e < NUM_TX_DESC" and free: "ri_skb (tx_skb s ! e) = None" "ri_len (tx_skb s ! e) = 0"
    and n: "n < 0x10000" "n \<noteq> 0"
  shows "same_leaks s u" "tx_ring_ok u"
proof -
  show "same_leaks s u"
    unfolding same_leaks_def u_def tx_slot_leak [OF d e] using free n
    by (auto simp: tx_map_def tx_desc_def Let_def)
  show "tx_ring_ok u" unfolding u_def
    by (rule tx_ring_ok_update [OF ok d(1)])
      (use tx_opts1_bits [OF n(1) e] n(2) e in
        \<open>simp_all add: tx_slot_ok_def tx_desc_def Let_def nic_owned_bit ring_end_bit\<close>)
qed

text \<open>Filling the next slot: the window grows by it, and the queue by its packet.\<close>

lemma tx_grow:
  assumes inv: "tx_inv E s" and room: "Suc (unat (cur_tx s - dirty_tx s)) < NUM_TX_DESC"
    and new: "cur_tx s' = cur_tx s + 1" "dirty_tx s' = dirty_tx s" "tx_skb s' = (tx_skb s)[e := r]" "ri_skb r = Some p"
      "queue_stopped s' = (TX_BUFFS_AVAIL s' < MAX_SKB_FRAGS E)"
    and ring: "tx_ring_ok s'" "length (tx_skb s) = NUM_TX_DESC"
    and e: "e = ring_slot NUM_TX_DESC (cur_tx s)" "e \<notin> set (tx_window s)"
  shows "tx_inv E s'" "tx_queue s' = tx_queue s @ [p]"
proof -
  have ne: "cur_tx s - dirty_tx s \<noteq> - 1" using room by (auto simp: NUM_TX_DESC_def unat_minus_1_u32)
  have win: "tx_window s' = tx_window s @ [e]" using txr.window_snoc [OF ne] by (simp add: tx_window_def e(1) new)
  have el: "e < NUM_TX_DESC" by (simp add: e(1))
  have "unat (cur_tx s' - dirty_tx s') < NUM_TX_DESC" using unat_succ_diff [OF ne] room by (simp add: new)
  moreover have "ri_skb (tx_skb s' ! e') \<noteq> None \<longleftrightarrow> e' \<in> set (tx_window s')" if "e' < NUM_TX_DESC" for e'
    unfolding win using inv that ring(2) el by (auto simp: tx_inv_def nth_list_update new)
  ultimately show "tx_inv E s'" using ring(1) by (simp add: tx_inv_def new(5) not_less)
  show "tx_queue s' = tx_queue s @ [p]"
    unfolding tx_queue_def win using e(2) ring(2) el by (auto simp: slot_skb_def nth_list_update new)
qed

lemma start_xmit_spec:
  assumes inv: "tx_inv E s" and awake: "\<not> queue_stopped s" and frags: "0 < MAX_SKB_FRAGS E"
    and free: "\<not> lock s" and skb: "skb_ok E skb"
  obtains s' where "rtl8101_start_xmit E skb s = Some (NETDEV_TX_OK, s')" "tx_queued E skb s s'"
proof -
  define e where "e = ring_slot NUM_TX_DESC (cur_tx s)"
  note slot = awake_slot_free [OF inv awake frags, folded e_def]
  from inv have ok: "tx_ring_ok s" by (simp add: tx_inv_def)
  then obtain descs where d: "TxDescArray s = Some descs" "length descs = NUM_TX_DESC"
    "length (tx_skb s) = NUM_TX_DESC" by (rule tx_ring_okE)
  have e: "e < NUM_TX_DESC" by (simp add: e_def)
  have room: "\<not> TX_BUFFS_AVAIL s < nr_frags skb"
    using inv awake skb by (auto simp: tx_inv_def skb_ok_def)
  let ?t = "TakeSkb (skb_ptr skb) # tr s"
  let ?a = "map_addr E ?t (skb_ptr skb)"
  let ?m = "MapSingle (skb_ptr skb) ?a (skb_len skb) ToDevice # ?t"
  let ?d = "tx_desc ?a (tx_opts1 (skb_len skb) e) (descs ! e)"
  let ?r = "\<lparr>ri_skb = Some (skb_ptr skb), ri_len = skb_len skb\<rparr>"
  let ?u = "s\<lparr>tr := ?m, TxDescArray := Some (descs[e := ?d]), tx_skb := (tx_skb s)[e := ?r]\<rparr>"
  let ?s' = "?u\<lparr>tr := rtl8101_notify_for_tx ?m, trans_start := jiffies E ?m, cur_tx := cur_tx s + 1,
    queue_stopped := TX_BUFFS_AVAIL (s\<lparr>cur_tx := cur_tx s + 1\<rparr>) < MAX_SKB_FRAGS E, lock := False\<rparr>"
  have run: "rtl8101_start_xmit E skb s = Some (NETDEV_TX_OK, ?s')"
    using start_xmit_state [OF free room d slot(5) [unfolded e_def] awake, of E]
    by (simp add: e_def)
  have bits: "skb_len skb < 0x10000" "skb_len skb \<noteq> 0" using skb by (auto simp: skb_ok_def)
  note fill = tx_slot_fill [OF ok d e slot(3,4) bits, of "skb_ptr skb" ?a]
  have "same_leaks ?u ?s'" by (rule same_leaks_frame) (simp_all add: trace_simps)
  with fill(1) have leaks: "same_leaks s ?s'" by (rule same_leaks_trans)
  have "tx_ring_ok ?s'" using fill(2) by (subst tx_ring_ok_cong [of ?s' ?u]) simp_all
  note grow = tx_grow [OF inv _ _ _ _ _ _ this d(3) e_def slot(2), of ?r "skb_ptr skb"]
  have "tx_inv E ?s'" "tx_queue ?s' = tx_queue s @ [skb_ptr skb]"
    by (rule grow; use slot(1) in \<open>simp add: TX_BUFFS_AVAIL_def\<close>)+
  moreover have "tx_path_frame ?s' = tx_path_frame s"
    using free by (simp add: tx_path_frame_def tx_frame_def)
  moreover have "last_w8 (reg TxPoll) (tr ?s') = Some (pollbit NPQ)" "freed (tr ?s') = freed (tr s)"
      "received (tr ?s') = received (tr s)"
    by (simp_all add: rtl8101_notify_for_tx_def REG_defs)
  moreover have "irq_mask (tr ?s') = irq_mask (tr s)" by (simp add: trace_simps)
  moreover have "tx_desc_at ?s' e = \<lparr>opts1 = tx_opts1 (skb_len skb) e, opts2 = 0, addr = ?a\<rparr>"
    using d(2) e by (simp add: tx_desc_at_def tx_desc_def Let_def)
  ultimately have "tx_queued E skb s ?s'"
    unfolding tx_queued_def e_def [symmetric] using leaks d(1)
    by (simp add: tx_desc_at_def TX_BUFFS_AVAIL_def)
  with that run show thesis by blast
qed


section \<open>Clearing the ring\<close>

text \<open>
  The kernel contract that the driver relies on: error codes are not positive, and the largest
  fragment list leaves room in the ring.
\<close>

definition env_ok :: "env \<Rightarrow> bool" where
  "env_ok E \<longleftrightarrow> (\<forall>t r. grant E t r \<le> 0) \<and> 0 < MAX_SKB_FRAGS E \<and> unat (MAX_SKB_FRAGS E) < NUM_TX_DESC"

definition tx_nowrap :: "DrvPvt \<Rightarrow> bool" where
  "tx_nowrap s \<longleftrightarrow> unat (dirty_tx s) + NUM_TX_DESC < 2 ^ 32"

lemma tx_inv_empty:
  assumes "env_ok E" "tx_ring_ok s" "tx_all_idle s" "cur_tx s = dirty_tx s"
  shows "tx_inv E s" "tx_queue s = []"
proof -
  have "unat (TX_BUFFS_AVAIL s) = NUM_TX_DESC - 1"
    using unat_TX_BUFFS_AVAIL [of s] assms(4) by (simp add: txr.N_pos)
  with assms show "tx_inv E s"
    by (auto simp: tx_inv_def tx_all_idle_def tx_window_def txr.N_pos env_ok_def word_le_nat_alt)
  show "tx_queue s = []" using assms(4) by (simp add: tx_queue_def tx_window_def)
qed

definition tx_cleared :: "env \<Rightarrow> DrvPvt \<Rightarrow> DrvPvt \<Rightarrow> bool" where
  "tx_cleared E s s' \<longleftrightarrow>
     tx_inv E s' \<and> tx_queue s' = [] \<and> tx_all_idle s' \<and> same_leaks s s'
     \<and> irq_mask (tr s') = irq_mask (tr s) \<and> received (tr s') = received (tr s)
     \<and> tx_path_frame s' = tx_path_frame s \<and> cur_tx s' = 0 \<and> dirty_tx s' = 0 \<and> queue_stopped s' = queue_stopped s"

lemma tx_clear_spec:
  assumes env: "env_ok E" and ok: "tx_ring_ok s" and nowrap: "tx_nowrap s"
  obtains s' where "rtl8101_tx_clear s = Some s'" "tx_cleared E s s'"
proof -
  from nowrap have "unat (dirty_tx s) + NUM_TX_DESC < 2 ^ 32" by (simp add: tx_nowrap_def)
  from tx_clear_full [OF ok this] obtain u where
    u: "rtl8101_tx_clear s = Some (u\<lparr>cur_tx := 0, dirty_tx := 0\<rparr>)" "tx_emptying s u" "tx_all_idle u" .
  let ?s' = "u\<lparr>cur_tx := 0, dirty_tx := 0\<rparr>"
  have idle: "tx_all_idle ?s'" using u(3) by (simp add: tx_all_idle_def)
  have ring: "tx_ring_ok ?s'" using u(2) by (simp add: tx_emptying_def)
  have "same_leaks u ?s'" by (rule same_leaks_frame) simp_all
  with u(2) have "same_leaks s ?s'" by (auto simp: tx_emptying_def intro: same_leaks_trans)
  moreover have "queue_stopped ?s' = queue_stopped s" "tx_path_frame ?s' = tx_path_frame s"
    "irq_mask (tr ?s') = irq_mask (tr s)" "received (tr ?s') = received (tr s)"
    using u(2) tx_frameD(9) [of u s]
    by (simp_all add: tx_emptying_def tx_path_frame_def) (simp add: tx_frame_def)
  ultimately have "tx_cleared E s ?s'"
    using tx_inv_empty [OF env ring idle] idle by (simp add: tx_cleared_def)
  with that u(1) show thesis by blast
qed

text \<open>The packets in the ring are freed in the order in which they were queued.\<close>

lemma tx_clear_frees:
  assumes inv: "tx_inv E s" and nowrap: "tx_nowrap s" and run: "rtl8101_tx_clear s = Some s'"
  shows "freed (tr s') = freed (tr s) @ tx_queue s"
proof -
  let ?b = "dirty_tx s + of_nat NUM_TX_DESC"
  let ?free = "ring_window NUM_TX_DESC (cur_tx s) ?b"
  from run obtain u where u: "tx_clear_loop (dirty_tx s) ?b s = Some u" "tr s' = tr u"
    by (auto simp: rtl8101_tx_clear_def bind_eq_Some_conv)
  from inv have ok: "tx_ring_ok s" and "unat (cur_tx s - dirty_tx s) \<le> NUM_TX_DESC" by (simp_all add: tx_inv_def)
  note W = txr.window_round [OF this(2), folded tx_window_def]
  have b: "dirty_tx s \<le> ?b" "unat (?b - dirty_tx s) \<le> NUM_TX_DESC"
    using nowrap by (simp_all add: tx_nowrap_def word_le_nat_alt unat_word_ariths txr.unat_N)
  have "slot_list s e = []" if "e \<in> set ?free" for e
    using that inv W(2) txr.window_less [OF that] by (auto simp: tx_inv_def slot_list_def split: option.splits)
  then have tail: "concat (map (slot_list s) ?free) = []" by simp
  have "slot_list s e = [slot_skb s e]" if "e \<in> set (tx_window s)" for e
    using that tx_inv_window(1) [OF inv] by (auto simp: slot_list_def slot_skb_def split: option.splits)
  then have "map (slot_list s) (tx_window s) = map (\<lambda>e. [slot_skb s e]) (tx_window s)" by simp
  then have "concat (map (slot_list s) (tx_window s)) = tx_queue s" by (simp only: tx_queue_def concat_map_singleton)
  with tx_clear_loop_freed [OF ok u(1) b] u(2) W(1) tail show ?thesis by simp
qed

end
