(* ===== verification/Rx_Path.thy ===== *)
theory Rx_Path
  imports Tx_Path
begin

text \<open>
  The receive path. Outside the window between \<^verbatim>\<open>dirty_rx\<close> and \<^verbatim>\<open>cur_rx\<close>, whose slots wait for a
  new buffer, every slot has a buffer; \<^verbatim>\<open>rtl8101_rx_interrupt\<close> passes the longest run of frames the
  device has written up the stack, in order, and refills as much of the window as memory allows.
\<close>

section \<open>Finished slots\<close>

definition rx_done :: "DrvPvt \<Rightarrow> nat \<Rightarrow> bool" where
  "rx_done s e \<longleftrightarrow> \<not> nic_owned (rx_desc_at s e)"

definition rx_bad :: "DrvPvt \<Rightarrow> nat \<Rightarrow> bool" where
  "rx_bad s e \<longleftrightarrow> opts1 (rx_desc_at s e) AND dbit RxRES \<noteq> 0"

text \<open>The packet that a finished slot stands for: its buffer, and the frame length without checksum.\<close>

definition rx_packet :: "DrvPvt \<Rightarrow> nat \<Rightarrow> ptr \<times> u32" where
  "rx_packet s e = (the (rx_skbuff s ! e), rx_pkt_len (opts1 (rx_desc_at s e)))"

definition rx_good :: "DrvPvt \<Rightarrow> nat list \<Rightarrow> nat list" where
  "rx_good s D = filter (\<lambda>e. \<not> rx_bad s e) D"

text \<open>The slots of \<open>D\<close> have been handled, in this order, and nothing else changed.\<close>

definition rx_taken :: "nat list \<Rightarrow> DrvPvt \<Rightarrow> DrvPvt \<Rightarrow> bool" where
  "rx_taken D s s' \<longleftrightarrow>
     rx_ring_ok s' \<and> rx_frame s' = rx_frame s \<and> same_leaks s s'
     \<and> irq_mask (tr s') = irq_mask (tr s)
     \<and> (\<forall>e. e \<notin> set D \<longrightarrow> rx_skbuff s' ! e = rx_skbuff s ! e \<and> rx_desc_at s' e = rx_desc_at s e)
     \<and> rx_renewed (set D) s s'
     \<and> freed (tr s') = freed (tr s)
     \<and> received (tr s') = received (tr s) @ map (rx_packet s) (rx_good s D)
     \<and> rx_packets (stats s') = rx_packets (stats s) + of_nat (length (rx_good s D))
     \<and> rx_errors (stats s') = rx_errors (stats s) + of_nat (length D - length (rx_good s D))
     \<and> tx_packets (stats s') = tx_packets (stats s) \<and> tx_bytes (stats s') = tx_bytes (stats s)
     \<and> tx_dropped (stats s') = tx_dropped (stats s)"

lemma rx_taken_Nil: "rx_ring_ok s \<Longrightarrow> rx_taken [] s s"
  by (simp add: rx_taken_def rx_good_def rx_renewed_refl)

lemma rx_taken_other:
  assumes "rx_taken D s s'" "e \<notin> set D"
  shows "rx_skbuff s' ! e = rx_skbuff s ! e" "rx_desc_at s' e = rx_desc_at s e"
    "rx_packet s' e = rx_packet s e" "rx_bad s' e = rx_bad s e" "rx_done s' e = rx_done s e"
  using assms by (simp_all add: rx_taken_def rx_packet_def rx_bad_def rx_done_def)

lemma rx_taken_Cons:
  assumes 1: "rx_taken [e] s s1" and 2: "rx_taken D s1 s2" and new: "e \<notin> set D"
  shows "rx_taken (e # D) s s2"
proof -
  have other: "x \<notin> set [e]" if "x \<in> set D" for x using that new by auto
  have good: "rx_good s1 D = rx_good s D"
    unfolding rx_good_def by (rule filter_cong) (simp_all add: rx_taken_other(4) [OF 1 other])
  have pk: "map (rx_packet s1) (rx_good s D) = map (rx_packet s) (rx_good s D)"
    by (rule map_cong) (auto simp: rx_good_def rx_taken_other(3) [OF 1 other])
  have "same_leaks s s2" using 1 2 by (auto simp: rx_taken_def intro: same_leaks_trans)
  moreover have "rx_renewed (set (e # D)) s s2"
    using 1 2 rx_renewed_trans [of "set [e]" s s1 "set D" s2] by (simp add: rx_taken_def)
  moreover have "length (rx_good s D) \<le> length D" by (simp add: rx_good_def)
  moreover have "rx_good s (e # D) = rx_good s [e] @ rx_good s D" by (simp add: rx_good_def)
  moreover have "length (rx_good s [e]) \<le> 1" by (simp add: rx_good_def)
  ultimately show ?thesis
    using 1 2 unfolding rx_taken_def good pk by (auto simp: Suc_diff_le rx_good_def split: if_splits)
qed

section \<open>One finished descriptor\<close>

lemma rx_pkt_len_fits:
  assumes "rx_status_ok status" "status AND dbit RxRES = 0"
  shows "rx_pkt_len status \<le> RX_BUF_SIZE"
proof -
  from assms have len: "4 \<le> status AND 0x00003FFF" "status AND 0x00003FFF \<le> RX_BUF_SIZE"
    by (auto simp: rx_status_ok_def)
  then have "(status AND 0x00003FFF) - 4 \<le> status AND 0x00003FFF"
    by (simp add: word_sub_le)
  with len(2) show ?thesis unfolding rx_pkt_len_def by (rule order_trans [rotated])
qed

lemma rx_error_stats_simps:
  "rx_errors (rx_error_stats st x) = rx_errors x + 1" "rx_packets (rx_error_stats st x) = rx_packets x"
  "tx_packets (rx_error_stats st x) = tx_packets x" "tx_bytes (rx_error_stats st x) = tx_bytes x"
  "tx_dropped (rx_error_stats st x) = tx_dropped x"
  by (simp_all add: rx_error_stats_def Let_def)

lemma rx_error_spec:
  assumes ok: "rx_ring_ok s" and e: "e < NUM_RX_DESC" and skb: "rx_skbuff s ! e \<noteq> None"
    and bad: "rx_bad s e"
  obtains s' where "rx_error e (opts1 (rx_desc_at s e)) s = Some s'" "rx_taken [e] s s'"
proof -
  from ok obtain descs where d: "RxDescArray s = Some descs" "length descs = NUM_RX_DESC"
      "length (rx_skbuff s) = NUM_RX_DESC" "rx_buf_sz s = RX_BUF_SIZE"
      "\<forall>e < NUM_RX_DESC. rx_slot_ok e (descs ! e) (rx_skbuff s ! e)"
    by (rule rx_ring_okE)
  let ?d = "rtl8101_mark_to_asic RX_BUF_SIZE (descs ! e)"
  let ?st = "rx_error_stats (opts1 (rx_desc_at s e)) (stats s)"
  let ?u = "s\<lparr>tr := tr s, RxDescArray := Some (descs[e := ?d]), rx_skbuff := (rx_skbuff s)[e := rx_skbuff s ! e]\<rparr>"
  let ?s = "?u\<lparr>stats := ?st\<rparr>"
  have run: "rx_error e (opts1 (rx_desc_at s e)) s = Some ?s"
    using d(1-4) e by (simp add: rx_error_def)
  have "same_leaks s ?u"
    unfolding same_leaks_def rx_slot_leak [OF d(1-3) e] using skb d(4)
    by (auto simp: rx_map_def mark_to_asic_word)
  moreover have "same_leaks ?u ?s" by (rule same_leaks_frame) simp_all
  ultimately have "same_leaks s ?s" by (rule same_leaks_trans)
  moreover have "rx_ring_ok ?s"
    by (rule rx_ring_ok_update [OF ok d(1), of e ?d "rx_skbuff s ! e"])
      (use d(5) e skb in \<open>simp_all add: rx_slot_ok_def mark_to_asic_word\<close>)
  moreover have "rx_renewed {e} s ?s"
    using d(1-4) e by (auto simp: rx_renewed_def rx_desc_at_def nth_list_update mark_to_asic_word)
  ultimately have "rx_taken [e] s ?s"
    unfolding rx_taken_def using bad d(1)
    by (simp add: rx_frame_def rx_desc_at_def rx_good_def rx_error_stats_simps)
  with that run show thesis by blast
qed

lemma rx_deliver_spec:
  assumes ok: "rx_ring_ok s" and e: "e < NUM_RX_DESC" and skb: "rx_skbuff s ! e \<noteq> None"
    and good: "\<not> rx_bad s e" and dn: "rx_done s e"
  obtains s' where "rx_deliver e (opts1 (rx_desc_at s e)) s = Some s'" "rx_taken [e] s s'"
    "rx_skbuff s' ! e = None"
proof -
  from ok obtain descs where d: "RxDescArray s = Some descs" "length descs = NUM_RX_DESC"
      "length (rx_skbuff s) = NUM_RX_DESC" "rx_buf_sz s = RX_BUF_SIZE"
      "\<forall>e < NUM_RX_DESC. rx_slot_ok e (descs ! e) (rx_skbuff s ! e)"
    by (rule rx_ring_okE)
  from skb obtain p where p: "rx_skbuff s ! e = Some p" by blast
  let ?n = "rx_pkt_len (opts1 (descs ! e))"
  let ?st = "(stats s)\<lparr>rx_bytes := rx_bytes (stats s) + scast ?n, rx_packets := rx_packets (stats s) + 1\<rparr>"
  let ?u = "s\<lparr>tr := RecvSkb p ?n # UnmapSingle (addr (descs ! e)) (rx_buf_sz s) FromDevice # tr s,
    RxDescArray := Some (descs[e := descs ! e]), rx_skbuff := (rx_skbuff s)[e := None]\<rparr>"
  let ?s = "?u\<lparr>stats := ?st\<rparr>"
  have slot: "rx_status_ok (opts1 (descs ! e))" "opts1 (descs ! e) AND dbit RxRES = 0"
    "\<not> nic_owned (descs ! e)" "ring_end (descs ! e) \<longleftrightarrow> e = NUM_RX_DESC - 1"
    using d(1,5) e skb good dn by (auto simp: rx_slot_ok_def rx_bad_def rx_done_def rx_desc_at_def)
  have run: "rx_deliver e (opts1 (rx_desc_at s e)) s = Some ?s"
    using d(1-4) e p rx_pkt_len_fits [OF slot(1,2)]
    by (simp add: rx_deliver_def rx_desc_at_def Let_def)
  have "same_leaks s ?u"
    unfolding same_leaks_def rx_slot_leak [OF d(1-3) e] using p by (auto simp: rx_map_def)
  moreover have "same_leaks ?u ?s" by (rule same_leaks_frame) simp_all
  ultimately have "same_leaks s ?s" by (rule same_leaks_trans)
  moreover have "rx_ring_ok ?s"
    by (rule rx_ring_ok_update [OF ok d(1), of e "descs ! e" None])
      (use slot e in \<open>simp_all add: rx_slot_ok_def\<close>)
  moreover have "rx_renewed {e} s ?s"
    using d(1-3) e by (auto simp: rx_renewed_def rx_desc_at_def nth_list_update)
  ultimately have "rx_taken [e] s ?s"
    unfolding rx_taken_def using good d(1) p
    by (simp add: rx_frame_def rx_desc_at_def rx_good_def rx_packet_def trace_simps)
  with that run show thesis using d(3) e by simp
qed

section \<open>The receive loop\<close>

lemma rx_slot_spec:
  assumes "rx_ring_ok s" "e < NUM_RX_DESC" "rx_skbuff s ! e \<noteq> None" "rx_done s e"
  obtains s' where "(if opts1 (rx_desc_at s e) AND dbit RxRES \<noteq> 0
      then rx_error e (opts1 (rx_desc_at s e)) s else rx_deliver e (opts1 (rx_desc_at s e)) s) = Some s'"
    "rx_taken [e] s s'"
proof (cases "rx_bad s e")
  case True
  from rx_error_spec [OF assms(1-3) True] obtain s' where
    "rx_error e (opts1 (rx_desc_at s e)) s = Some s'" "rx_taken [e] s s'" .
  with that True show thesis by (simp add: rx_bad_def)
next
  case False
  from rx_deliver_spec [OF assms(1-3) False assms(4)] obtain s' where
    "rx_deliver e (opts1 (rx_desc_at s e)) s = Some s'" "rx_taken [e] s s'" .
  with that False show thesis by (simp add: rx_bad_def)
qed

text \<open>The loop scans the ring: it takes the frames that the device has written.\<close>

lemma rx_loop_round:
  assumes "rx_ring_ok s"
  shows "rx_loop (Suc n) c s =
    (let e = ring_slot NUM_RX_DESC c; st = opts1 (rx_desc_at s e)
     in if nic_owned (rx_desc_at s e) then Some (c, s)
        else (if st AND dbit RxRES \<noteq> 0 then rx_error e st s else rx_deliver e st s) \<bind> rx_loop n (c + 1))"
proof -
  have "unat c mod NUM_RX_DESC < NUM_RX_DESC" using rxr.N_pos by simp
  with assms show ?thesis
    by (auto simp: ring_slot_def rx_desc_at_def nic_owned_def Let_def elim!: rx_ring_okE)
qed

interpretation rxs: ring_scan NUM_RX_DESC rx_loop rx_ring_ok "\<lambda>s e. rx_skbuff s ! e \<noteq> None" rx_done rx_taken
proof unfold_locales
  show "rx_loop (Suc n) c s = Some (c, s)" if "rx_ring_ok s" "\<not> rx_done s (ring_slot NUM_RX_DESC c)" for n c s
    using rx_loop_round [OF that(1)] that(2) by (simp add: rx_done_def Let_def)
  show "\<exists>s1. rx_loop (Suc n) c s = rx_loop n (c + 1) s1 \<and> rx_taken [ring_slot NUM_RX_DESC c] s s1"
    if "rx_ring_ok s" "rx_skbuff s ! ring_slot NUM_RX_DESC c \<noteq> None" "rx_done s (ring_slot NUM_RX_DESC c)" for n c s
  proof -
    let ?e = "ring_slot NUM_RX_DESC c"
    from rx_slot_spec [OF that(1) rxr.slot_less that(2,3)] obtain s1 where
      "(if opts1 (rx_desc_at s ?e) AND dbit RxRES \<noteq> 0 then rx_error ?e (opts1 (rx_desc_at s ?e)) s
        else rx_deliver ?e (opts1 (rx_desc_at s ?e)) s) = Some s1" "rx_taken [?e] s s1" .
    with rx_loop_round [OF that(1), of n c] that(3) show ?thesis by (auto simp: rx_done_def Let_def)
  qed
  show "rx_taken (e # D) s s2" if "rx_taken [e] s s1" "rx_taken D s1 s2" "e \<notin> set D" for e D s s1 s2
    using that by (rule rx_taken_Cons)
  show "(rx_skbuff s1 ! x \<noteq> None) = (rx_skbuff s ! x \<noteq> None) \<and> rx_done s1 x = rx_done s x"
    if "rx_taken [e] s s1" "x \<noteq> e" for e x s s1
    using rx_taken_other [OF that(1), of x] that(2) by simp
qed (simp_all add: rx_taken_Nil, simp add: rx_taken_def)

lemmas rx_loop_spec = rxs.scan_spec

section \<open>The receive invariant\<close>

definition rx_window :: "DrvPvt \<Rightarrow> nat list" where
  "rx_window s = ring_window NUM_RX_DESC (dirty_rx s) (cur_rx s)"

definition rx_inv :: "DrvPvt \<Rightarrow> bool" where
  "rx_inv s \<longleftrightarrow>
     rx_ring_ok s
     \<and> unat (cur_rx s - dirty_rx s) \<le> NUM_RX_DESC
     \<and> (\<forall>e < NUM_RX_DESC. e \<notin> set (rx_window s) \<longrightarrow> rx_skbuff s ! e \<noteq> None)"

text \<open>What the receive path leaves alone: all but the trace, the statistics and its own state.\<close>

definition rx_path_frame :: "DrvPvt \<Rightarrow> DrvPvt" where
  "rx_path_frame s = (rx_frame s)\<lparr>cur_rx := 0, dirty_rx := 0\<rparr>"

lemma rx_path_frameD:
  assumes "rx_path_frame s' = rx_path_frame s"
  shows "cur_tx s' = cur_tx s" "dirty_tx s' = dirty_tx s" "TxDescArray s' = TxDescArray s"
    "tx_skb s' = tx_skb s" "rx_buf_sz s' = rx_buf_sz s" "lock s' = lock s"
    "carrier_ok s' = carrier_ok s" "netif_running s' = netif_running s"
    "napi_enabled s' = napi_enabled s" "napi_scheduled s' = napi_scheduled s"
    "task s' = task s" "link_timer s' = link_timer s" "queue_stopped s' = queue_stopped s"
  using assms by (cases s; cases s'; simp add: rx_path_frame_def rx_frame_def)+

text \<open>
  The descriptors one call looks at, at most \<open>budget\<close> of them, and the frames ready among them:
  the longest run the device has given back.
\<close>

definition rx_limit :: "u32 \<Rightarrow> DrvPvt \<Rightarrow> u32" where
  "rx_limit budget s = min (of_nat NUM_RX_DESC + dirty_rx s - cur_rx s) budget"

definition rx_ready :: "u32 \<Rightarrow> DrvPvt \<Rightarrow> nat list" where
  "rx_ready budget s =
     takeWhile (rx_done s) (ring_window NUM_RX_DESC (cur_rx s) (cur_rx s + rx_limit budget s))"

definition rx_polled :: "env \<Rightarrow> u32 \<Rightarrow> DrvPvt \<Rightarrow> u32 \<Rightarrow> DrvPvt \<Rightarrow> bool" where
  "rx_polled E budget s count s' \<longleftrightarrow>
     rx_inv s' \<and> same_leaks s s' \<and> irq_mask (tr s') = irq_mask (tr s)
     \<and> rx_path_frame s' = rx_path_frame s
     \<and> unat count = length (rx_ready budget s) \<and> cur_rx s' = cur_rx s + count
     \<and> freed (tr s') = freed (tr s)
     \<and> received (tr s') = received (tr s) @ map (rx_packet s) (rx_good s (rx_ready budget s))
     \<and> rx_packets (stats s') = rx_packets (stats s) + of_nat (length (rx_good s (rx_ready budget s)))
     \<and> rx_errors (stats s') = rx_errors (stats s) + of_nat (unat count - length (rx_good s (rx_ready budget s)))
     \<and> rx_renewed (set (rx_ready budget s)) s s'
     \<and> unat (cur_rx s' - dirty_rx s') \<le> unat (cur_rx s' - dirty_rx s)
     \<and> (skbs_available E \<longrightarrow> dirty_rx s' = cur_rx s')"

lemma unat_rx_limit:
  assumes "unat (cur_rx s - dirty_rx s) \<le> NUM_RX_DESC"
  shows "unat (rx_limit budget s) = min (NUM_RX_DESC - unat (cur_rx s - dirty_rx s)) (unat budget)"
proof -
  let ?k = "cur_rx s - dirty_rx s"
  have N: "unat (of_nat NUM_RX_DESC :: u32) = NUM_RX_DESC" by (simp add: NUM_RX_DESC_def)
  have "of_nat NUM_RX_DESC + dirty_rx s - cur_rx s = of_nat NUM_RX_DESC - ?k" by simp
  moreover have "?k \<le> of_nat NUM_RX_DESC" using assms N by (simp add: word_le_nat_alt)
  ultimately have "unat (of_nat NUM_RX_DESC + dirty_rx s - cur_rx s) = NUM_RX_DESC - unat ?k"
    using N by (simp only: unat_sub)
  then show ?thesis unfolding rx_limit_def min_def word_le_nat_alt by simp
qed

text \<open>Refilling the window, after \<open>cur_rx\<close> has been advanced.\<close>

lemma rx_refill_spec:
  assumes inv: "rx_inv s"
  obtains n s' where "rtl8101_rx_fill E (dirty_rx s) (cur_rx s) s = Some (n, s')"
    "rx_inv (s'\<lparr>dirty_rx := dirty_rx s' + n\<rparr>)" "rx_growing s s'"
    "skbs_available E \<longrightarrow> dirty_rx s' + n = cur_rx s'"
    "unat (cur_rx s' - (dirty_rx s' + n)) \<le> unat (cur_rx s - dirty_rx s)"
proof -
  from inv have ok: "rx_ring_ok s" by (simp add: rx_inv_def)
  from rx_fill_spec [OF ok, of E "dirty_rx s" "cur_rx s"] obtain n s' where
    f: "rtl8101_rx_fill E (dirty_rx s) (cur_rx s) s = Some (n, s')" "rx_growing s s'"
      "unat n \<le> unat (cur_rx s - dirty_rx s)"
      "\<forall>j < unat n. rx_skbuff s' ! ((unat (dirty_rx s) + j) mod NUM_RX_DESC) \<noteq> None"
      "skbs_available E \<longrightarrow> n = cur_rx s - dirty_rx s" .
  from f(2) have fr: "cur_rx s' = cur_rx s" "dirty_rx s' = dirty_rx s"
    by (auto simp: rx_growing_def dest: rx_frameD)
  let ?s = "s'\<lparr>dirty_rx := dirty_rx s' + n\<rparr>"
  have drop: "rx_window ?s = drop (unat n) (rx_window s)"
    "unat (cur_rx s - (dirty_rx s + n)) = unat (cur_rx s - dirty_rx s) - unat n"
    using rxr.window_drop [OF f(3)] by (simp_all add: rx_window_def fr)
  have filled: "rx_skbuff s' ! e \<noteq> None" if e: "e \<in> set (take (unat n) (rx_window s))" for e
  proof -
    from e obtain j where "j < unat n" "e = (unat (dirty_rx s) + j) mod NUM_RX_DESC"
      using f(3) by (auto simp: rx_window_def ring_window_def take_map)
    with f(4) show ?thesis by blast
  qed
  have "rx_skbuff s' ! e \<noteq> None" if "e < NUM_RX_DESC" "e \<notin> set (drop (unat n) (rx_window s))" for e
  proof (cases "e \<in> set (rx_window s)")
    case True
    with that(2) have "e \<in> set (take (unat n) (rx_window s))"
      by (metis Un_iff append_take_drop_id set_append)
    then show ?thesis by (rule filled)
  next
    case False
    with inv that(1) f(2) show ?thesis by (auto simp: rx_inv_def rx_growing_def rx_renewed_def)
  qed
  moreover have "unat (cur_rx s - (dirty_rx s + n)) \<le> NUM_RX_DESC"
    using inv unfolding rx_inv_def drop(2) by linarith
  ultimately have "rx_inv ?s"
    unfolding rx_inv_def drop(1) using f(2) by (simp add: rx_growing_def fr)
  with that f fr drop(2) show thesis by simp
qed

text \<open>The slots that a poll takes; they follow the window of empty slots.\<close>

lemma rx_ready_facts:
  fixes budget
  assumes inv: "rx_inv s"
  defines "k \<equiv> length (rx_ready budget s)"
  shows "\<forall>e \<in> set (ring_window NUM_RX_DESC (cur_rx s) (cur_rx s + rx_limit budget s)). rx_skbuff s ! e \<noteq> None"
    and "unat (rx_limit budget s) \<le> NUM_RX_DESC" "unat (of_nat k :: u32) = k"
    and "ring_window NUM_RX_DESC (cur_rx s) (cur_rx s + of_nat k) = rx_ready budget s"
    and "unat (cur_rx s - dirty_rx s) + k \<le> NUM_RX_DESC"
proof -
  let ?c = "cur_rx s" and ?d = "dirty_rx s" and ?b = "cur_rx s + rx_limit budget s"
  from inv have le: "unat (?c - ?d) \<le> NUM_RX_DESC" by (simp add: rx_inv_def)
  have lim: "unat (?c - ?d) + unat (?b - ?c) \<le> NUM_RX_DESC"
    using unat_rx_limit [OF le, of budget] le by simp
  show "\<forall>e \<in> set (ring_window NUM_RX_DESC ?c ?b). rx_skbuff s ! e \<noteq> None"
    using inv rxr.window_disjoint [OF lim] rxr.window_less [of _ ?c ?b]
    by (auto simp: rx_inv_def rx_window_def)
  have k: "k \<le> unat (rx_limit budget s)"
    using length_takeWhile_le [of "rx_done s" "ring_window NUM_RX_DESC ?c ?b"] by (simp add: rx_ready_def k_def)
  then show kk: "unat (of_nat k :: u32) = k" using lim rxr.N_less by (simp add: unat_of_nat)
  show "ring_window NUM_RX_DESC ?c (?c + of_nat k) = rx_ready budget s"
    using k kk takeWhile_eq_take [of "rx_done s" "ring_window NUM_RX_DESC ?c ?b"]
    by (simp add: ring_window_def take_map rx_ready_def k_def)
  show "unat (rx_limit budget s) \<le> NUM_RX_DESC" "unat (?c - ?d) + k \<le> NUM_RX_DESC" using lim k by simp_all
qed

lemma rx_taken_inv:
  assumes inv: "rx_inv s" and t: "rx_taken (rx_ready budget s) s s1"
  shows "rx_inv (s1\<lparr>cur_rx := cur_rx s + of_nat (length (rx_ready budget s))\<rparr>)"
proof -
  let ?c = "cur_rx s" and ?d = "dirty_rx s" and ?k = "length (rx_ready budget s)"
  let ?u = "s1\<lparr>cur_rx := ?c + of_nat ?k\<rparr>"
  note F = rx_ready_facts [OF inv, of budget]
  from t have fr: "cur_rx s1 = ?c" "dirty_rx s1 = ?d" by (auto simp: rx_taken_def dest: rx_frameD)
  have sum: "unat (?c - ?d) + unat (?c + of_nat ?k - ?c) \<le> NUM_RX_DESC" using F(3,5) by simp
  then have lt: "unat (?c - ?d) + unat (?c + of_nat ?k - ?c) < 2 ^ 32" using rxr.N_less by linarith
  have win: "rx_window ?u = rx_window s @ rx_ready budget s"
    using rxr.window_append [OF lt] by (simp add: rx_window_def fr F(4))
  have "rx_skbuff ?u ! e \<noteq> None" if "e < NUM_RX_DESC" "e \<notin> set (rx_window ?u)" for e
    using inv that rx_taken_other(1) [OF t, of e] unfolding win by (auto simp: rx_inv_def)
  moreover have "unat (?c + of_nat ?k - ?d) \<le> NUM_RX_DESC"
    using rxr.unat_diff_add [OF lt] sum by simp
  moreover have "rx_ring_ok ?u" using t by (simp add: rx_taken_def)
  ultimately show ?thesis unfolding rx_inv_def by (simp add: fr)
qed

lemma rx_interrupt_spec:
  assumes inv: "rx_inv s"
  obtains count s' where "rtl8101_rx_interrupt E budget s = Some (count, s')"
    "rx_polled E budget s count s'"
proof -
  let ?c = "cur_rx s" and ?D = "rx_ready budget s" and ?k = "length (rx_ready budget s)"
  note F = rx_ready_facts [OF inv, of budget]
  from inv have ok: "rx_ring_ok s" by (simp add: rx_inv_def)
  from rx_loop_spec [OF ok _ F(1)] F(2) obtain s1 where
    s1: "rx_loop (unat (rx_limit budget s)) ?c s = Some (?c + of_nat ?k, s1)" "rx_taken ?D s s1"
    by (auto simp: rx_ready_def)
  from s1(2) have fr: "cur_rx s1 = ?c" by (auto simp: rx_taken_def dest: rx_frameD)
  let ?u = "s1\<lparr>cur_rx := ?c + of_nat ?k\<rparr>"
  from rx_refill_spec [OF rx_taken_inv [OF inv s1(2)], of E] obtain n s2 where
    s2: "rtl8101_rx_fill E (dirty_rx ?u) (cur_rx ?u) ?u = Some (n, s2)"
      "rx_inv (s2\<lparr>dirty_rx := dirty_rx s2 + n\<rparr>)" "rx_growing ?u s2"
      "skbs_available E \<longrightarrow> dirty_rx s2 + n = cur_rx s2"
      "unat (cur_rx s2 - (dirty_rx s2 + n)) \<le> unat (cur_rx ?u - dirty_rx ?u)" .
  let ?s' = "s2\<lparr>dirty_rx := dirty_rx s2 + n\<rparr>"
  have desc: "RxDescArray s \<noteq> None" using ok by (auto simp: rx_ring_ok_def split: option.splits)
  have run: "rtl8101_rx_interrupt E budget s = Some (of_nat ?k, ?s')"
    using desc s1(1) s2(1) fr by (clarsimp simp: rtl8101_rx_interrupt_def rx_limit_def [symmetric] Let_def)
  have "same_leaks s1 ?u" "same_leaks s2 ?s'" by (rule same_leaks_frame; simp)+
  then have "same_leaks s ?s'"
    using s1(2) s2(3) by (auto simp: rx_taken_def rx_growing_def intro: same_leaks_trans)
  moreover have "rx_path_frame ?s' = rx_path_frame s" "cur_rx s2 = ?c + of_nat ?k"
    using s1(2) s2(3) rx_frameD(1) [of s2 ?u]
    by (auto simp: rx_path_frame_def rx_taken_def rx_growing_def) (simp add: rx_frame_def)
  moreover have "rx_renewed (set ?D) s ?s'"
    using s1(2) s2(3) rx_renewed_trans [of "set ?D" s s1 "{}" s2] rx_renewed_cong(1) [of ?u s1]
      rx_renewed_cong(2) [of ?s' s2] by (simp add: rx_taken_def rx_growing_def)
  moreover from s1(2) have "dirty_rx s1 = dirty_rx s" by (auto simp: rx_taken_def dest: rx_frameD)
  ultimately have "rx_polled E budget s (of_nat ?k) ?s'"
    unfolding rx_polled_def F(3) using s1(2) s2(2-5) fr by (simp add: rx_taken_def rx_growing_def)
  with that run show thesis by blast
qed

end
