(* ===== verification/Open_Close.thy ===== *)
theory Open_Close
  imports Rx_Path
begin

text \<open>
  Bringing the interface up and down: \<^verbatim>\<open>rtl8101_init_buffers\<close> gives both rings or nothing,
  \<^verbatim>\<open>rtl8101_open\<close> establishes the invariants of the running driver, \<^verbatim>\<open>rtl8101_close\<close> gives back every
  packet, mapping and resource. The failure path of \<^verbatim>\<open>rtl8101_open\<close> after a refused interrupt is
  described as it is: it loses the receive buffers.
\<close>

section \<open>Idle rings\<close>

text \<open>No slot holds anything, so that the ledgers of the trace are the leaks.\<close>

definition rings_idle :: "DrvPvt \<Rightarrow> bool" where
  "rings_idle s \<longleftrightarrow>
     (\<forall>k \<in> set (rx_skbuff s). k = None)
     \<and> (\<forall>r \<in> set (tx_skb s). ri_skb r = None \<and> ri_len r = 0)"

definition leaks :: "DrvPvt \<Rightarrow> (ptr \<Rightarrow> int) \<times> (dma_map \<Rightarrow> int)" where
  "leaks s = (\<lambda>p. skb_leak p s, \<lambda>m. dma_leak m s)"

lemma same_leaks_iff: "same_leaks s s' \<longleftrightarrow> leaks s' = leaks s \<and> held (tr s') = held (tr s)"
  by (auto simp: same_leaks_def leaks_def fun_eq_iff)

lemma count_map2_none:
  "(\<And>a b. b \<in> set ys \<Longrightarrow> f a b \<noteq> c) \<Longrightarrow> count_list (map2 f xs ys) c = 0"
  by (auto simp: count_list_0_iff dest: set_zip_rightD)

lemma rx_maps_idle: "rings_idle s \<Longrightarrow> count_list (rx_maps s) (Some m) = 0"
  by (cases "RxDescArray s")
    (simp_all add: rings_idle_def rx_maps_def rx_map_def count_map2_none)

lemma tx_maps_idle: "rings_idle s \<Longrightarrow> count_list (tx_maps s) (Some m) = 0"
  by (cases "TxDescArray s")
    (simp_all add: rings_idle_def tx_maps_def tx_map_def count_map2_none)

lemma idle_leaks:
  assumes "rings_idle s"
  shows "skb_leak p s = skb_bal p (tr s)" "dma_leak m s = dma_bal m (tr s)"
proof -
  have "count_list (rx_skbuff s) (Some p) = 0" "count_list (map ri_skb (tx_skb s)) (Some p) = 0"
    using assms by (auto simp: rings_idle_def count_list_0_iff)
  then show "skb_leak p s = skb_bal p (tr s)" by (simp add: skb_leak_def)
  show "dma_leak m s = dma_bal m (tr s)"
    using rx_maps_idle [OF assms] tx_maps_idle [OF assms] by (simp add: dma_leak_def)
qed

lemma idle_leaks_eq:
  assumes "rings_idle s" "rings_idle s'" "\<forall>p. skb_bal p (tr s') = skb_bal p (tr s)"
    "\<forall>m. dma_bal m (tr s') = dma_bal m (tr s)"
  shows "leaks s' = leaks s"
  using assms(3,4) unfolding leaks_def idle_leaks [OF assms(1)] idle_leaks [OF assms(2)]
  by (simp only: prod.inject fun_eq_iff simp_thms)

lemma leaks_frame:
  assumes "\<forall>p. skb_bal p (tr s') = skb_bal p (tr s)" "\<forall>m. dma_bal m (tr s') = dma_bal m (tr s)"
    "rx_skbuff s' = rx_skbuff s" "tx_skb s' = tx_skb s" "RxDescArray s' = RxDescArray s"
    "TxDescArray s' = TxDescArray s" "rx_buf_sz s' = rx_buf_sz s"
  shows "leaks s' = leaks s"
proof -
  have "rx_maps s' = rx_maps s" "tx_maps s' = tx_maps s"
    using assms(3-) by (simp_all add: rx_maps_def tx_maps_def cong: option.case_cong)
  then show ?thesis
    using assms(1-4) unfolding leaks_def skb_leak_def dma_leak_def
    by (simp only: prod.inject fun_eq_iff simp_thms)
qed

lemma all_idle_rings:
  assumes "tx_ring_ok s" "tx_all_idle s" "rx_ring_ok s" "rx_all_empty s"
  shows "rings_idle s"
  using assms unfolding rings_idle_def tx_all_idle_def rx_all_empty_def
  by (auto simp: in_set_conv_nth tx_slot_ok_def elim!: tx_ring_okE rx_ring_okE)

section \<open>Fresh rings\<close>

lemma nth_fresh_ring:
  assumes "e < n"
  shows "fresh_ring n ! e = (if e = n - 1 then zero_desc\<lparr>opts1 := dbit RingEnd\<rparr> else zero_desc)"
  using assms by (auto simp: fresh_ring_def nth_list_update)

lemma length_fresh_ring [simp]: "length (fresh_ring n) = n"
  by (simp add: fresh_ring_def)

lemma fresh_ring_flags:
  assumes "e < n"
  shows "\<not> nic_owned (fresh_ring n ! e)" "ring_end (fresh_ring n ! e) \<longleftrightarrow> e = n - 1"
  using assms by (simp_all add: nth_fresh_ring) (auto simp: nic_owned_bit ring_end_bit)

lemma fresh_state:
  assumes "TxDescArray s = Some (fresh_ring NUM_TX_DESC)" "RxDescArray s = Some (fresh_ring NUM_RX_DESC)"
    and "tx_skb s = replicate NUM_TX_DESC \<lparr>ri_skb = None, ri_len = 0\<rparr>"
    and "rx_skbuff s = replicate NUM_RX_DESC None" and "rx_buf_sz s = RX_BUF_SIZE"
  shows "tx_ring_ok s" "tx_all_idle s" "rx_ring_ok s" "rx_all_empty s"
  using assms fresh_ring_flags
  by (auto simp: tx_ring_ok_def tx_all_idle_def rx_ring_ok_def rx_all_empty_def tx_slot_ok_def
      rx_slot_ok_def)

section \<open>Allocating the rings\<close>

text \<open>The interface is down and the rings hold nothing.\<close>

definition rings_down :: "DrvPvt \<Rightarrow> bool" where
  "rings_down s \<longleftrightarrow> TxDescArray s = None \<and> RxDescArray s = None \<and> rings_idle s"

text \<open>What \<^verbatim>\<open>rtl8101_init_buffers\<close> leaves alone.\<close>

definition buf_frame :: "DrvPvt \<Rightarrow> DrvPvt" where
  "buf_frame s = s\<lparr>tr := [], TxDescArray := None, RxDescArray := None, TxPhyAddr := 0, RxPhyAddr := 0,
     cur_tx := 0, dirty_tx := 0, cur_rx := 0, dirty_rx := 0, tx_skb := [], rx_skbuff := []\<rparr>"

definition rings_up :: "DrvPvt \<Rightarrow> bool" where
  "rings_up s \<longleftrightarrow> tx_ring_ok s \<and> tx_all_idle s \<and> rx_inv s
     \<and> (\<forall>e < NUM_RX_DESC. nic_owned (rx_desc_at s e))
     \<and> cur_tx s = 0 \<and> dirty_tx s = 0 \<and> cur_rx s = 0 \<and> dirty_rx s = 0"

lemma buf_frameD:
  assumes "buf_frame s' = buf_frame s"
  shows "lock s' = lock s" "carrier_ok s' = carrier_ok s" "netif_running s' = netif_running s"
    "napi_enabled s' = napi_enabled s" "napi_scheduled s' = napi_scheduled s"
    "task s' = task s" "link_timer s' = link_timer s" "queue_stopped s' = queue_stopped s"
    "rx_buf_sz s' = rx_buf_sz s" "stats s' = stats s"
  using assms by (cases s; cases s'; simp add: buf_frame_def)+

lemma rx_frame_buf_frame: "rx_frame s' = rx_frame s \<Longrightarrow> stats s' = stats s \<Longrightarrow> buf_frame s' = buf_frame s"
  by (cases s; cases s'; simp add: buf_frame_def rx_frame_def)

text \<open>The state that \<^verbatim>\<open>rtl8101_init_buffers\<close> starts filling from.\<close>

definition rings_fresh :: "trace \<Rightarrow> u64 \<Rightarrow> u64 \<Rightarrow> DrvPvt \<Rightarrow> DrvPvt" where
  "rings_fresh t txphy rxphy s =
     s\<lparr>TxPhyAddr := txphy, tr := t, RxPhyAddr := rxphy, dirty_tx := 0, dirty_rx := 0, cur_tx := 0,
       cur_rx := 0, tx_skb := replicate NUM_TX_DESC \<lparr>ri_skb = None, ri_len = 0\<rparr>,
       rx_skbuff := replicate NUM_RX_DESC None, TxDescArray := Some (fresh_ring NUM_TX_DESC),
       RxDescArray := Some (fresh_ring NUM_RX_DESC)\<rparr>"

lemma init_buffers_cases:
  "rtl8101_init_buffers E s =
     (if grant E (tr s) TxRing \<noteq> 0
      then Some (- ENOMEM, s\<lparr>tr := Denied TxRing (grant E (tr s) TxRing) # tr s, TxDescArray := None\<rparr>)
      else
        let t = Got TxRing # tr s; txphy = snd (coherent E (tr s) TxRing);
            rxphy = snd (coherent E t RxRing)
        in if grant E t RxRing \<noteq> 0
           then Some (- ENOMEM, s\<lparr>tr := Put TxRing # Denied RxRing (grant E t RxRing) # t,
                  TxDescArray := None, RxDescArray := None, TxPhyAddr := txphy\<rparr>)
           else init_buffers_fill E (rings_fresh (Got RxRing # t) txphy rxphy s))"
  by (simp add: rtl8101_init_buffers_def pci_alloc_consistent_def acquire_def Let_def release_def
      free_ring_def rings_fresh_def rtl8101_init_ring_indexes_def split: prod.splits)


lemma rings_fresh_ok:
  assumes "rx_buf_sz s = RX_BUF_SIZE"
  shows "tx_ring_ok (rings_fresh t a b s)" "tx_all_idle (rings_fresh t a b s)"
    "rx_ring_ok (rings_fresh t a b s)" "rx_all_empty (rings_fresh t a b s)"
  by (rule fresh_state; simp add: rings_fresh_def assms)+

lemma rings_fresh_frame: "buf_frame (rings_fresh t a b s) = buf_frame s"
  by (simp add: buf_frame_def rings_fresh_def)

lemma tx_parts_cong:
  "TxDescArray s' = TxDescArray s \<Longrightarrow> tx_skb s' = tx_skb s \<Longrightarrow> tx_all_idle s' = tx_all_idle s"
  by (simp add: tx_all_idle_def)

text \<open>Giving up after a shortage: the receive buffers made so far and both rings are given back.\<close>

lemma init_undo_spec:
  assumes ok: "rx_ring_ok s" "tx_ring_ok s" "tx_all_idle s" and held: "held (tr s) = Some (RxRing # TxRing # h)"
  obtains s2 where "rtl8101_rx_clear s = Some s2" "rings_down (rtl8101_shut_buffers s2)"
    "buf_frame (rtl8101_shut_buffers s2) = buf_frame s" "leaks (rtl8101_shut_buffers s2) = leaks s"
    "held (tr (rtl8101_shut_buffers s2)) = Some h"
proof -
  from rx_clear_spec [OF ok(1)] obtain s2 where
    s2: "rtl8101_rx_clear s = Some s2" "rx_shrinking s s2" "rx_all_empty s2" .
  let ?s = "rtl8101_shut_buffers s2"
  from s2(2) have "rx_frame s2 = rx_frame s" by (simp add: rx_shrinking_def)
  note D2 = rx_frameD [OF this]
  have "tx_ring_ok s2" "tx_all_idle s2"
    using ok(2,3) tx_ring_ok_cong [OF D2(5,6)] tx_parts_cong [OF D2(5,6)] by simp_all
  then have idle: "rings_idle s2"
    using s2(2,3) by (intro all_idle_rings) (auto simp: rx_shrinking_def)
  then have idle': "rings_idle ?s"
    by (simp add: rings_idle_def rtl8101_shut_buffers_def free_ring_def)
  have "leaks ?s = leaks s2"
    by (rule idle_leaks_eq [OF idle idle'])
      (simp_all add: rtl8101_shut_buffers_def free_ring_def release_def)
  moreover have "leaks s2 = leaks s" "held (tr s2) = Some (RxRing # TxRing # h)"
    using s2(2) held by (auto simp: rx_shrinking_def same_leaks_iff)
  moreover have "buf_frame ?s = buf_frame s"
    using s2(2) rx_frame_buf_frame [of s2 s]
    by (simp add: rx_shrinking_def) (simp add: buf_frame_def rtl8101_shut_buffers_def free_ring_def)
  ultimately show thesis
    using s2(1) idle' by (intro that [of s2])
      (simp_all add: rings_down_def, simp_all add: rtl8101_shut_buffers_def free_ring_def release_def)
qed

lemma init_fill_spec:
  fixes t a b s
  defines "f \<equiv> rings_fresh t a b s"
  assumes sz: "rx_buf_sz s = RX_BUF_SIZE" and held: "held t = Some (RxRing # TxRing # h)"
  obtains (up) s' where "init_buffers_fill E f = Some (0, s')" "rings_up s'" "buf_frame s' = buf_frame s"
      "leaks s' = leaks f" "held (tr s') = Some (RxRing # TxRing # h)"
  | (down) s' where "init_buffers_fill E f = Some (- ENOMEM, s')" "rings_down s'"
      "buf_frame s' = buf_frame s" "leaks s' = leaks f" "held (tr s') = Some h" "\<not> skbs_available E"
proof -
  note ok = rings_fresh_ok [OF sz, of t a b, folded f_def]
  have N: "unat (of_nat NUM_RX_DESC :: u32) = NUM_RX_DESC" by (simp add: NUM_RX_DESC_def)
  from rx_fill_spec [OF ok(3), of E 0 "of_nat NUM_RX_DESC"] obtain n s1 where
    f: "rtl8101_rx_fill E 0 (of_nat NUM_RX_DESC) f = Some (n, s1)" "rx_growing f s1"
      "unat n \<le> unat (of_nat NUM_RX_DESC - (0 :: u32))"
      "\<forall>j < unat n. rx_skbuff s1 ! ((unat (0 :: u32) + j) mod NUM_RX_DESC) \<noteq> None"
      "skbs_available E \<longrightarrow> n = of_nat NUM_RX_DESC - 0" .
  have idx0: "cur_tx f = 0" "dirty_tx f = 0" "cur_rx f = 0" "dirty_rx f = 0"
    by (simp_all add: f_def rings_fresh_def)
  from f(2) have "rx_frame s1 = rx_frame f" by (simp add: rx_growing_def)
  note D1 = rx_frameD [OF this]
  have tx1: "tx_ring_ok s1" "tx_all_idle s1" "cur_tx s1 = 0" "dirty_tx s1 = 0" "cur_rx s1 = 0" "dirty_rx s1 = 0"
    using ok(1,2) tx_ring_ok_cong [OF D1(5,6)] tx_parts_cong [OF D1(5,6)] D1(1-4) idx0 by simp_all
  have b1: "buf_frame s1 = buf_frame s"
    using f(2) rx_frame_buf_frame [of s1 f] rings_fresh_frame [of t a b s]
    by (simp add: rx_growing_def f_def)
  have l1: "leaks s1 = leaks f" "held (tr s1) = Some (RxRing # TxRing # h)" "rx_ring_ok s1"
    using f(2) held by (auto simp: rx_growing_def same_leaks_iff f_def rings_fresh_def)
  show thesis
  proof (cases "n = of_nat NUM_RX_DESC")
    case True
    with f(4) N have full: "\<forall>e < NUM_RX_DESC. rx_skbuff s1 ! e \<noteq> None" by auto
    then have "rx_inv s1" using l1(3) tx1 by (auto simp: rx_inv_def)
    moreover have "\<forall>e < NUM_RX_DESC. nic_owned (rx_desc_at s1 e)"
      using full f(2) ok(4) by (auto simp: rx_growing_def rx_renewed_def rx_all_empty_def)
    ultimately show thesis using True f(1) tx1 b1 l1
      by (intro up [of s1]) (simp_all add: init_buffers_fill_def rings_up_def)
  next
    case False
    from init_undo_spec [OF l1(3) tx1(1,2) l1(2)] obtain s2 where
      s2: "rtl8101_rx_clear s1 = Some s2" "rings_down (rtl8101_shut_buffers s2)"
        "buf_frame (rtl8101_shut_buffers s2) = buf_frame s1" "leaks (rtl8101_shut_buffers s2) = leaks s1"
        "held (tr (rtl8101_shut_buffers s2)) = Some h" .
    have "init_buffers_fill E f = Some (- ENOMEM, rtl8101_shut_buffers s2)"
      using False f(1) s2(1) by (simp add: init_buffers_fill_def rtl8101_shut_buffers_def)
    then show thesis using False f(5) s2 b1 l1(1) by (intro down [of "rtl8101_shut_buffers s2"]) simp_all
  qed
qed

text \<open>A kernel that does not run out of memory.\<close>

definition plentiful :: "env \<Rightarrow> bool" where
  "plentiful E \<longleftrightarrow> skbs_available E \<and> (\<forall>t. grant E t TxRing = 0 \<and> grant E t RxRing = 0)"

lemma init_buffers_spec:
  assumes dn: "rings_down s" and sz: "rx_buf_sz s = RX_BUF_SIZE" and held: "held (tr s) = Some h"
  obtains (up) s' where "rtl8101_init_buffers E s = Some (0, s')" "rings_up s'"
      "buf_frame s' = buf_frame s" "leaks s' = leaks s" "held (tr s') = Some (RxRing # TxRing # h)"
  | (down) s' where "rtl8101_init_buffers E s = Some (- ENOMEM, s')" "rings_down s'"
      "buf_frame s' = buf_frame s" "leaks s' = leaks s" "held (tr s') = Some h" "\<not> plentiful E"
proof -
  let ?t = "Got TxRing # tr s"
  from dn have idle: "rings_idle s" by (simp add: rings_down_def)
  consider (notx) "grant E (tr s) TxRing \<noteq> 0"
    | (norx) "grant E (tr s) TxRing = 0" "grant E ?t RxRing \<noteq> 0"
    | (both) "grant E (tr s) TxRing = 0" "grant E ?t RxRing = 0" by blast
  then show thesis
  proof cases
    case notx
    let ?s = "s\<lparr>tr := Denied TxRing (grant E (tr s) TxRing) # tr s, TxDescArray := None\<rparr>"
    have "rings_idle ?s" using idle by (simp add: rings_idle_def)
    moreover from this have "leaks ?s = leaks s" by (rule idle_leaks_eq [OF idle]) simp_all
    ultimately show thesis
      using notx dn held init_buffers_cases [of E s]
      by (intro down [of ?s]) (auto simp: rings_down_def buf_frame_def plentiful_def)
  next
    case norx
    let ?s = "s\<lparr>tr := Put TxRing # Denied RxRing (grant E ?t RxRing) # ?t, TxDescArray := None,
      RxDescArray := None, TxPhyAddr := snd (coherent E (tr s) TxRing)\<rparr>"
    have "rings_idle ?s" using idle by (simp add: rings_idle_def)
    moreover from this have "leaks ?s = leaks s" by (rule idle_leaks_eq [OF idle]) simp_all
    ultimately show thesis
      using norx dn held init_buffers_cases [of E s]
      by (intro down [of ?s]) (auto simp: rings_down_def buf_frame_def Let_def plentiful_def)
  next
    case both
    define f where "f = rings_fresh (Got RxRing # ?t) (snd (coherent E (tr s) TxRing))
      (snd (coherent E ?t RxRing)) s"
    have run: "rtl8101_init_buffers E s = init_buffers_fill E f"
      using both init_buffers_cases [of E s] by (simp add: f_def Let_def)
    have "rings_idle f"
      unfolding f_def by (rule all_idle_rings; rule rings_fresh_ok [OF sz])
    then have leaks: "leaks f = leaks s"
      by (rule idle_leaks_eq [OF idle]) (simp_all add: f_def rings_fresh_def)
    have "held (Got RxRing # ?t) = Some (RxRing # TxRing # h)" using held by simp
    from sz this show thesis
    proof (cases rule: init_fill_spec [where E = E and a = "snd (coherent E (tr s) TxRing)" and
          b = "snd (coherent E ?t RxRing)"])
      case (up s')
      then show thesis using run leaks by (intro that(1) [of s']) (simp_all add: f_def)
    next
      case (down s')
      then show thesis using run leaks by (intro that(2) [of s']) (simp_all add: f_def plentiful_def)
    qed
  qed
qed

section \<open>Open\<close>

text \<open>The parts of the state that neither the rings nor opening and closing are about.\<close>

definition same_flags :: "DrvPvt \<Rightarrow> DrvPvt \<Rightarrow> bool" where
  "same_flags s s' \<longleftrightarrow> lock s' = lock s \<and> netif_running s' = netif_running s
     \<and> napi_scheduled s' = napi_scheduled s \<and> stats s' = stats s"

definition open_up :: "env \<Rightarrow> res list \<Rightarrow> DrvPvt \<Rightarrow> bool" where
  "open_up E h s \<longleftrightarrow> rings_up s \<and> held (tr s) = Some (Irq # RxRing # TxRing # h)
     \<and> napi_enabled s \<and> link_timer s \<noteq> None \<and> \<not> queue_stopped s \<and> \<not> task s
     \<and> irq_mask (tr s) = Some IntrEnMask"

text \<open>
  After a refused interrupt: the descriptor rings are given back, while the receive packets stay
  mapped in \<^verbatim>\<open>rx_skbuff\<close> and NAPI stays enabled.
\<close>

definition open_noirq :: "res list \<Rightarrow> DrvPvt \<Rightarrow> bool" where
  "open_noirq h s \<longleftrightarrow> TxDescArray s = None \<and> RxDescArray s = None \<and> held (tr s) = Some h
     \<and> napi_enabled s \<and> length (rx_skbuff s) = NUM_RX_DESC
     \<and> (\<forall>e < NUM_RX_DESC. rx_skbuff s ! e \<noteq> None)"

definition rx_mapped :: "DrvPvt \<Rightarrow> dma_map list" where
  "rx_mapped s = map (\<lambda>e. (addr (rx_desc_at s e), RX_BUF_SIZE, FromDevice)) [0..<NUM_RX_DESC]"

definition open_started :: "env \<Rightarrow> DrvPvt \<Rightarrow> DrvPvt" where
  "open_started E s =
     (let s = s\<lparr>task := False, napi_enabled := True, tr := phy_power_up E (rtl8101_hw_reset E (tr s))\<rparr>
      in s\<lparr>tr := hw_init_trace E s, queue_stopped := False\<rparr>)"

lemma open_started_fields [simp]:
  "cur_rx (open_started E s) = cur_rx s" "dirty_rx (open_started E s) = dirty_rx s"
  "cur_tx (open_started E s) = cur_tx s" "dirty_tx (open_started E s) = dirty_tx s"
  "RxDescArray (open_started E s) = RxDescArray s" "rx_skbuff (open_started E s) = rx_skbuff s"
  "TxDescArray (open_started E s) = TxDescArray s" "tx_skb (open_started E s) = tx_skb s"
  "rx_buf_sz (open_started E s) = rx_buf_sz s" "lock (open_started E s) = lock s"
  "carrier_ok (open_started E s) = carrier_ok s" "netif_running (open_started E s) = netif_running s"
  "napi_enabled (open_started E s)" "napi_scheduled (open_started E s) = napi_scheduled s"
  "\<not> task (open_started E s)" "stats (open_started E s) = stats s"
  "\<not> queue_stopped (open_started E s)"
  by (simp_all add: open_started_def Let_def)

lemma open_started_trace [trace_simps]:
  "ledger (tr (open_started E s)) = ledger (tr s)"
  "irq_mask (tr (open_started E s)) = Some IntrEnMask"
  by (simp_all add: open_started_def Let_def trace_simps)

lemma open_cases:
  assumes "rtl8101_init_buffers E (s\<lparr>rx_buf_sz := RX_BUF_SIZE\<rparr>) = Some (r, s1)" "\<not> napi_enabled s1" "\<not> task s1"
  shows "rtl8101_open E s =
    (if r < 0 then Some (r, s1)
     else let u = open_started E s1; c = grant E (tr u) Irq
       in if c < 0 then Some (c, rtl8101_shut_buffers (u\<lparr>tr := Denied Irq c # tr u\<rparr>))
          else Some (0, rtl8101_request_link_timer E
                 (u\<lparr>tr := (if c = 0 then Got Irq else Denied Irq c) # tr u\<rparr>)))"
  using assms
  by (simp add: rtl8101_open_def init_delayed_work_def napi_enable_def open_started_def hw_init_state acquire_def Let_def)

lemma shut_buffers_state:
  "rtl8101_shut_buffers s =
     s\<lparr>tr := Put TxRing # Put RxRing # tr s, RxDescArray := None, TxDescArray := None\<rparr>"
  by (simp add: rtl8101_shut_buffers_def free_ring_def release_def)

lemma rings_up_cong:
  assumes "rings_up s" "TxDescArray s' = TxDescArray s" "tx_skb s' = tx_skb s"
    "RxDescArray s' = RxDescArray s" "rx_skbuff s' = rx_skbuff s" "rx_buf_sz s' = rx_buf_sz s"
    "cur_tx s' = cur_tx s" "dirty_tx s' = dirty_tx s" "cur_rx s' = cur_rx s" "dirty_rx s' = dirty_rx s"
  shows "rings_up s'"
  using assms tx_ring_ok_cong [of s' s] rx_ring_ok_cong [of s' s]
  by (simp add: rings_up_def tx_all_idle_def rx_inv_def rx_window_def rx_desc_at_def)

lemma rings_up_mapped:
  assumes "rings_up s"
  shows "rx_maps s = map Some (rx_mapped s)" "count_list (tx_maps s) (Some m) = 0"
proof -
  from assms have rx: "rx_ring_ok s" "\<forall>e < NUM_RX_DESC. rx_skbuff s ! e \<noteq> None"
    by (auto simp: rings_up_def rx_inv_def rx_window_def)
  then show "rx_maps s = map Some (rx_mapped s)"
    by (elim rx_ring_okE) (auto intro!: nth_equalityI simp: rx_maps_def rx_mapped_def rx_map_def rx_desc_at_def)
  from assms have "tx_ring_ok s" "tx_all_idle s" by (simp_all add: rings_up_def)
  then have "b \<in> set (tx_skb s) \<Longrightarrow> tx_map a b \<noteq> Some m" for a b
    by (elim tx_ring_okE) (auto simp: in_set_conv_nth tx_map_def tx_slot_ok_def tx_all_idle_def)
  then show "count_list (tx_maps s) (Some m) = 0"
    by (cases "TxDescArray s") (simp_all add: tx_maps_def count_map2_none)
qed

text \<open>The error path for a refused interrupt loses the mappings of all receive buffers.\<close>

lemma open_noirq_spec:
  fixes E s c
  defines "u \<equiv> open_started E s"
  assumes up: "rings_up u" and held: "held (tr u) = Some (RxRing # TxRing # h)"
  shows "open_noirq h (rtl8101_shut_buffers (u\<lparr>tr := Denied Irq c # tr u\<rparr>))"
    and "skb_leak p (rtl8101_shut_buffers (u\<lparr>tr := Denied Irq c # tr u\<rparr>)) = skb_leak p u"
    and "dma_leak m (rtl8101_shut_buffers (u\<lparr>tr := Denied Irq c # tr u\<rparr>)) = dma_leak m u + int (count_list (rx_mapped u) m)"
proof -
  show "open_noirq h (rtl8101_shut_buffers (u\<lparr>tr := Denied Irq c # tr u\<rparr>))"
    using up held unfolding open_noirq_def rings_up_def rx_inv_def rx_window_def u_def
    by (auto simp: shut_buffers_state elim!: rx_ring_okE)
  show "skb_leak p (rtl8101_shut_buffers (u\<lparr>tr := Denied Irq c # tr u\<rparr>)) = skb_leak p u"
    by (simp add: skb_leak_def shut_buffers_state)
  show "dma_leak m (rtl8101_shut_buffers (u\<lparr>tr := Denied Irq c # tr u\<rparr>)) = dma_leak m u + int (count_list (rx_mapped u) m)"
    using rings_up_mapped [OF up]
    by (simp add: dma_leak_def shut_buffers_state rx_maps_def [of "_\<lparr>TxDescArray := _\<rparr>"]
        tx_maps_def [of "_\<lparr>TxDescArray := _\<rparr>"] count_list_map_conv inj_def)
qed

lemma open_irq_spec:
  assumes up: "rings_up (open_started E s)" and held: "held (tr (open_started E s)) = Some (RxRing # TxRing # h)"
  defines "s' \<equiv> rtl8101_request_link_timer E ((open_started E s)\<lparr>tr := Got Irq # tr (open_started E s)\<rparr>)"
  shows "open_up E h s'" "leaks s' = leaks (open_started E s)"
proof -
  have "rings_up s'" by (rule rings_up_cong [OF up]) (simp_all add: s'_def rtl8101_request_link_timer_def)
  then show "open_up E h s'" using held by (simp add: open_up_def s'_def rtl8101_request_link_timer_def trace_simps)
  show "leaks s' = leaks (open_started E s)"
    by (rule leaks_frame) (simp_all add: s'_def rtl8101_request_link_timer_def)
qed

lemma open_spec:
  assumes env: "env_ok E" and dn: "rings_down s" and napi: "\<not> napi_enabled s" and work: "\<not> task s"
    and held: "held (tr s) = Some h"
  obtains (up) s' where "rtl8101_open E s = Some (0, s')" "open_up E h s'" "leaks s' = leaks s"
      "same_flags s s'" "carrier_ok s' = carrier_ok s"
  | (nomem) s' where "rtl8101_open E s = Some (- ENOMEM, s')" "rings_down s'" "leaks s' = leaks s"
      "same_flags s s'" "carrier_ok s' = carrier_ok s" "held (tr s') = Some h" "\<not> napi_enabled s'"
      "link_timer s' = link_timer s" "queue_stopped s' = queue_stopped s" "task s' = task s"
      "\<not> plentiful E"
  | (noirq) c s' ms where "rtl8101_open E s = Some (c, s')" "c < 0" "open_noirq h s'"
      "\<forall>p. skb_leak p s' = skb_leak p s" "length ms = NUM_RX_DESC"
      "\<forall>m. dma_leak m s' = dma_leak m s + int (count_list ms m)" "\<exists>t. grant E t Irq < 0"
proof -
  let ?z = "s\<lparr>rx_buf_sz := RX_BUF_SIZE\<rparr>"
  have z: "rings_down ?z" "rings_idle s" "rings_idle ?z"
    using dn by (simp_all add: rings_down_def rings_idle_def)
  have lz: "leaks ?z = leaks s" by (rule idle_leaks_eq [OF z(2,3)]) simp_all
  have "rx_buf_sz ?z = RX_BUF_SIZE" "held (tr ?z) = Some h" using held by simp_all
  with z(1) show thesis
  proof (cases rule: init_buffers_spec [where E = E and h = h])
    case (down s1)
    note D = buf_frameD [OF down(3)]
    from D napi work have "\<not> napi_enabled s1" "\<not> task s1" by simp_all
    from open_cases [OF down(1) this] show thesis
      using down D napi lz by (intro nomem [of s1]) (simp_all add: ENOMEM_def same_flags_def)
  next
    case (up s1)
    note D = buf_frameD [OF up(3)]
    from D napi work have n1: "\<not> napi_enabled s1" "\<not> task s1" by simp_all
    let ?u = "open_started E s1"
    have "same_leaks s1 ?u" by (rule same_leaks_frame) (simp_all add: trace_simps)
    then have lu: "leaks ?u = leaks s" "held (tr ?u) = Some (RxRing # TxRing # h)"
      using up lz by (simp_all add: same_leaks_iff)
    have uu: "rings_up ?u" by (rule rings_up_cong [OF up(2)]) simp_all
    let ?c = "grant E (tr ?u) Irq"
    show thesis
    proof (cases "?c < 0")
      case False
      then have "?c = 0" using env by (auto simp: env_ok_def intro: antisym)
      let ?s = "rtl8101_request_link_timer E (?u\<lparr>tr := Got Irq # tr ?u\<rparr>)"
      have run: "rtl8101_open E s = Some (0, ?s)"
        using open_cases [OF up(1) n1] \<open>?c = 0\<close> by (simp add: Let_def)
      with open_irq_spec [OF uu lu(2)] show thesis
        using D lu(1) by (intro that(1) [of ?s]) (simp_all add: same_flags_def rtl8101_request_link_timer_def)
    next
      case True
      let ?s = "rtl8101_shut_buffers (?u\<lparr>tr := Denied Irq ?c # tr ?u\<rparr>)"
      have run: "rtl8101_open E s = Some (?c, ?s)"
        using open_cases [OF up(1) n1] True by (simp add: Let_def)
      with open_noirq_spec [OF uu lu(2), where c = ?c] show thesis
        using lu(1) True by (intro noirq [of ?c ?s "rx_mapped ?u"])
          (auto simp: leaks_def fun_eq_iff rx_mapped_def)
    qed
  qed
qed

section \<open>Close\<close>

definition closed_down :: "res list \<Rightarrow> DrvPvt \<Rightarrow> bool" where
  "closed_down h s \<longleftrightarrow> rings_down s \<and> held (tr s) = Some h \<and> \<not> napi_enabled s
     \<and> \<not> carrier_ok s \<and> link_timer s = None \<and> queue_stopped s \<and> irq_mask (tr s) = Some 0"

text \<open>The first half of \<^verbatim>\<open>rtl8101_close\<close>: timer, NAPI and device stopped, nothing released yet.\<close>

definition close_quiet :: "env \<Rightarrow> DrvPvt \<Rightarrow> DrvPvt" where
  "close_quiet E s = s\<lparr>link_timer := None, napi_enabled := False, queue_stopped := True,
     carrier_ok := False, tr := SyncIrq # rtl8101_hw_reset E (SyncSched # tr s)\<rparr>"

lemma close_quiet_fields [simp]:
  "cur_rx (close_quiet E s) = cur_rx s" "dirty_rx (close_quiet E s) = dirty_rx s"
  "cur_tx (close_quiet E s) = cur_tx s" "dirty_tx (close_quiet E s) = dirty_tx s"
  "RxDescArray (close_quiet E s) = RxDescArray s" "rx_skbuff (close_quiet E s) = rx_skbuff s"
  "TxDescArray (close_quiet E s) = TxDescArray s" "tx_skb (close_quiet E s) = tx_skb s"
  "rx_buf_sz (close_quiet E s) = rx_buf_sz s" "lock (close_quiet E s) = lock s"
  "tr (close_quiet E s) = SyncIrq # rtl8101_hw_reset E (SyncSched # tr s)"
  "carrier_ok (close_quiet E s) = False" "netif_running (close_quiet E s) = netif_running s"
  "napi_enabled (close_quiet E s) = False" "napi_scheduled (close_quiet E s) = napi_scheduled s"
  "task (close_quiet E s) = task s" "link_timer (close_quiet E s) = None"
  "queue_stopped (close_quiet E s)"
  by (simp_all add: close_quiet_def)

lemma ledger_sync [trace_simps]:
  "ledger (SyncIrq # t) = ledger t" "ledger (SyncSched # t) = ledger t" "ledger (FlushWork # t) = ledger t"
  by (simp_all add: ledger_def)

lemma close_cases:
  assumes "TxDescArray s \<noteq> None" "RxDescArray s \<noteq> None" "napi_enabled s" "\<not> napi_scheduled s"
    "\<not> lock s"
    and "rtl8101_tx_clear ((close_quiet E s)\<lparr>lock := True\<rparr>) = Some s1"
    and "rtl8101_rx_clear (s1\<lparr>lock := False\<rparr>) = Some s2"
  shows "rtl8101_close E s = Some (0, s2\<lparr>tr := Put TxRing # Put RxRing # Put Irq # phy_power_down E (tr s2),
     TxDescArray := None, RxDescArray := None\<rparr>)"
  using assms
  by (simp add: rtl8101_close_def rtl8101_delete_link_timer_def napi_disable_def netif_defs Let_def
      spin_lock_def spin_unlock_def free_ring_def release_def close_quiet_def)

lemma close_spec:
  assumes env: "env_ok E" and tx: "tx_ring_ok s" "tx_nowrap s" and rx: "rx_ring_ok s"
    and st: "napi_enabled s" "\<not> napi_scheduled s" "\<not> lock s"
    and held: "held (tr s) = Some (Irq # RxRing # TxRing # h)"
  obtains s' where "rtl8101_close E s = Some (0, s')" "closed_down h s'" "leaks s' = leaks s"
    "\<not> lock s'" "netif_running s' = netif_running s" "napi_scheduled s' = napi_scheduled s" "task s' = task s"
proof -
  let ?q = "(close_quiet E s)\<lparr>lock := True\<rparr>"
  have lq: "same_leaks s ?q" by (rule same_leaks_frame) (simp_all add: trace_simps)
  have "tx_ring_ok ?q" "tx_nowrap ?q"
    using tx tx_ring_ok_cong [of ?q s] by (simp_all add: tx_nowrap_def)
  from tx_clear_spec [OF env this] obtain s1 where
    s1: "rtl8101_tx_clear ?q = Some s1" "tx_cleared E ?q s1" .
  from s1(2) have "tx_path_frame s1 = tx_path_frame ?q" by (simp add: tx_cleared_def)
  note D1 = tx_path_frameD [OF this]
  let ?u = "s1\<lparr>lock := False\<rparr>"
  have rx1: "rx_ring_ok ?u" using rx D1 rx_ring_ok_cong [of ?u s] by simp
  from rx_clear_spec [OF rx1] obtain s2 where
    s2: "rtl8101_rx_clear ?u = Some s2" "rx_shrinking ?u s2" "rx_all_empty s2" .
  from s2(2) have "rx_frame s2 = rx_frame ?u" by (simp add: rx_shrinking_def)
  note D2 = rx_frameD [OF this]
  let ?s = "s2\<lparr>tr := Put TxRing # Put RxRing # Put Irq # phy_power_down E (tr s2),
     TxDescArray := None, RxDescArray := None\<rparr>"
  have run: "rtl8101_close E s = Some (0, ?s)"
    using tx(1) rx st s1(1) s2(1) by (intro close_cases) (auto elim!: tx_ring_okE rx_ring_okE)
  have tx2: "tx_ring_ok s2" "tx_all_idle s2"
    using s1(2) D2 tx_ring_ok_cong [of s2 s1] tx_parts_cong [of s2 s1]
    by (simp_all add: tx_cleared_def tx_inv_def)
  then have idle: "rings_idle s2"
    using s2(2,3) by (intro all_idle_rings) (auto simp: rx_shrinking_def)
  then have idle': "rings_idle ?s" by (simp add: rings_idle_def)
  have ph: "ledger (phy_power_down E (tr s2)) = ledger (tr s2)" by (simp add: trace_simps)
  have "leaks ?s = leaks s2" by (rule idle_leaks_eq [OF idle idle']) (simp_all add: ledger_eqD [OF ph])
  moreover have "same_leaks s1 ?u" by (rule same_leaks_frame) simp_all
  with lq s1(2) s2(2) have "same_leaks s s2"
    by (auto simp: tx_cleared_def rx_shrinking_def intro: same_leaks_trans)
  moreover have "irq_mask (tr s2) = Some 0"
    using s1(2) s2(2) by (simp add: tx_cleared_def rx_shrinking_def trace_simps)
  ultimately have "closed_down h ?s" "leaks ?s = leaks s"
    using idle' D1 D2 s1(2) held ledger_eqD(3) [OF ph]
    by (simp_all add: closed_down_def rings_down_def same_leaks_iff tx_cleared_def trace_simps)
  with that run D1 D2 show thesis by simp
qed

end
