(* ===== verification/Driver.thy ===== *)
theory Driver
  imports Open_Close
begin

text \<open>
  The running driver as a state machine. An event is a call of one of the driver's entry points
  by the kernel, or a descriptor written back by the device. \<open>enabled\<close> says when the kernel or the
  device can produce it, \<open>exec\<close> is the code that runs. The invariant \<open>drv_inv\<close> holds in every
  reachable state, and no enabled event faults.
\<close>

section \<open>Congruence of the ring invariants\<close>

lemma tx_inv_cong:
  assumes "TxDescArray s' = TxDescArray s" "tx_skb s' = tx_skb s" "cur_tx s' = cur_tx s"
    "dirty_tx s' = dirty_tx s" "queue_stopped s' = queue_stopped s"
  shows "tx_inv E s' = tx_inv E s" "tx_queue s' = tx_queue s" "tx_done_count s' = tx_done_count s"
    "tx_window s' = tx_window s"
proof -
  show win: "tx_window s' = tx_window s" using assms by (simp add: tx_window_def)
  show "tx_inv E s' = tx_inv E s"
    using assms tx_ring_ok_cong [OF assms(1,2)] unfolding tx_inv_def win
    by (simp add: TX_BUFFS_AVAIL_def)
  have "slot_skb s' = slot_skb s" "tx_done s' = tx_done s"
    using assms by (auto simp: slot_skb_def tx_done_def tx_desc_at_def)
  then show "tx_queue s' = tx_queue s" "tx_done_count s' = tx_done_count s"
    by (simp_all add: tx_queue_def tx_done_count_def win)
qed

lemma rx_inv_cong:
  assumes "RxDescArray s' = RxDescArray s" "rx_skbuff s' = rx_skbuff s" "rx_buf_sz s' = rx_buf_sz s"
    "cur_rx s' = cur_rx s" "dirty_rx s' = dirty_rx s"
  shows "rx_inv s' = rx_inv s"
  using assms rx_ring_ok_cong [OF assms(1-3)] by (simp add: rx_inv_def rx_window_def)

text \<open>When the receive window is empty, the indices may be reset.\<close>

lemma rx_inv_reset:
  assumes "rx_inv s" "dirty_rx s = cur_rx s" "RxDescArray s' = RxDescArray s"
    "rx_skbuff s' = rx_skbuff s" "rx_buf_sz s' = rx_buf_sz s" "cur_rx s' = 0" "dirty_rx s' = 0"
  shows "rx_inv s'"
  using assms rx_ring_ok_cong [OF assms(3-5)] by (simp add: rx_inv_def rx_window_def)

lemma tx_inv_idle:
  assumes "env_ok E" "tx_inv E s" "cur_tx s = dirty_tx s" "TxDescArray s' = TxDescArray s"
    "tx_skb s' = tx_skb s" "cur_tx s' = dirty_tx s'"
  shows "tx_inv E s'" "tx_queue s' = []"
proof -
  have "tx_all_idle s" using assms(2,3) by (auto simp: tx_inv_def tx_all_idle_def tx_window_def)
  then have "tx_all_idle s'" "tx_ring_ok s'"
    using assms tx_ring_ok_cong [OF assms(4,5)] by (simp_all add: tx_all_idle_def tx_inv_def)
  from tx_inv_empty [OF assms(1) this(2,1) assms(6)] show "tx_inv E s'" "tx_queue s' = []" .
qed

section \<open>The invariant\<close>

definition run_inv :: "env \<Rightarrow> res list \<Rightarrow> DrvPvt \<Rightarrow> bool" where
  "run_inv E h s \<longleftrightarrow> tx_inv E s \<and> rx_inv s \<and> napi_enabled s
     \<and> held (tr s) = Some (Irq # RxRing # TxRing # h)
     \<and> (\<not> carrier_ok s \<longrightarrow> cur_tx s = dirty_tx s)"

definition down_inv :: "res list \<Rightarrow> DrvPvt \<Rightarrow> bool" where
  "down_inv h s \<longleftrightarrow> rings_down s \<and> \<not> napi_enabled s \<and> \<not> napi_scheduled s \<and> \<not> carrier_ok s
     \<and> link_timer s = None \<and> held (tr s) = Some h"

definition drv_inv :: "env \<Rightarrow> res list \<Rightarrow> DrvPvt \<Rightarrow> bool" where
  "drv_inv E h s \<longleftrightarrow> \<not> lock s \<and> leaks s = (\<lambda>_. 0, \<lambda>_. 0)
     \<and> (if netif_running s then run_inv E h s else down_inv h s)"

text \<open>The invariant of the running driver reads the rings, the ledgers and three flags.\<close>

definition same_core :: "DrvPvt \<Rightarrow> DrvPvt \<Rightarrow> bool" where
  "same_core s s' \<longleftrightarrow> TxDescArray s' = TxDescArray s \<and> tx_skb s' = tx_skb s \<and> cur_tx s' = cur_tx s
     \<and> dirty_tx s' = dirty_tx s \<and> RxDescArray s' = RxDescArray s \<and> rx_skbuff s' = rx_skbuff s
     \<and> rx_buf_sz s' = rx_buf_sz s \<and> cur_rx s' = cur_rx s \<and> dirty_rx s' = dirty_rx s
     \<and> queue_stopped s' = queue_stopped s \<and> napi_enabled s' = napi_enabled s
     \<and> carrier_ok s' = carrier_ok s \<and> ledger (tr s') = ledger (tr s)"

lemma run_inv_same_core:
  assumes "same_core s s'"
  shows "run_inv E h s' = run_inv E h s" "leaks s' = leaks s" "tx_queue s' = tx_queue s"
proof -
  show "run_inv E h s' = run_inv E h s" "tx_queue s' = tx_queue s"
    using assms tx_inv_cong(1) [of s' s E] tx_inv_cong(2) [of s' s] rx_inv_cong [of s' s] ledger_eqD(3) [of "tr s'" "tr s"]
    by (simp_all add: same_core_def run_inv_def)
  have "same_leaks s s'" by (rule same_leaks_frame) (use assms in \<open>simp_all add: same_core_def\<close>)
  then show "leaks s' = leaks s" by (simp add: same_leaks_iff)
qed

section \<open>Handlers of the running driver\<close>

lemma start_xmit_inv:
  assumes env: "env_ok E" and inv: "run_inv E h s" "\<not> lock s"
    and guard: "carrier_ok s" "\<not> queue_stopped s" "skb_ok E skb"
  obtains s' where "rtl8101_start_xmit E skb s = Some (NETDEV_TX_OK, s')" "tx_queued E skb s s'"
    "run_inv E h s'" "leaks s' = leaks s" "\<not> lock s'" "netif_running s' = netif_running s"
proof -
  from env have "0 < MAX_SKB_FRAGS E" by (simp add: env_ok_def)
  with inv guard obtain s' where s': "rtl8101_start_xmit E skb s = Some (NETDEV_TX_OK, s')"
    "tx_queued E skb s s'" using start_xmit_spec [of E s skb] by (auto simp: run_inv_def)
  from s'(2) have "tx_path_frame s' = tx_path_frame s" by (simp add: tx_queued_def)
  note D = tx_path_frameD [OF this]
  have "run_inv E h s'"
    using s'(2) inv(1) guard(1) D rx_inv_cong [OF D(3-5,1,2)]
    by (simp add: run_inv_def tx_queued_def same_leaks_iff)
  moreover have "leaks s' = leaks s" using s'(2) by (simp add: tx_queued_def same_leaks_iff)
  ultimately show thesis using that s' D inv(2) by simp
qed

definition polled :: "env \<Rightarrow> u32 \<Rightarrow> DrvPvt \<Rightarrow> u32 \<Rightarrow> DrvPvt \<Rightarrow> bool" where
  "polled E budget s n s' \<longleftrightarrow>
     unat n = length (rx_ready budget s)
     \<and> received (tr s') = received (tr s) @ map (rx_packet s) (rx_good s (rx_ready budget s))
     \<and> tx_queue s' = drop (tx_done_count s) (tx_queue s)
     \<and> freed (tr s') = freed (tr s) @ take (tx_done_count s) (tx_queue s)
     \<and> (skbs_available E \<longrightarrow> dirty_rx s' = cur_rx s')
     \<and> cur_rx s' = cur_rx s + n \<and> unat (cur_rx s' - dirty_rx s') \<le> unat (cur_rx s' - dirty_rx s)
     \<and> rx_renewed (set (rx_ready budget s)) s s'
     \<and> cur_tx s' = cur_tx s \<and> dirty_tx s' = dirty_tx s + of_nat (tx_done_count s)
     \<and> (queue_stopped s' \<longleftrightarrow>
          queue_stopped s \<and> (tx_done_count s = 0 \<or> TX_BUFFS_AVAIL s' < MAX_SKB_FRAGS E))
     \<and> carrier_ok s' = carrier_ok s \<and> task s' = task s \<and> link_timer s' = link_timer s
     \<and> napi_scheduled s' = (napi_scheduled s \<and> \<not> n < budget)
     \<and> irq_mask (tr s') = (if n < budget then Some IntrEnMask else irq_mask (tr s))"

lemma poll_inv:
  assumes env: "env_ok E" and inv: "run_inv E h s" "\<not> lock s"
  obtains n s' where "rtl8101_poll E budget s = Some (n, s')" "polled E budget s n s'"
    "run_inv E h s'" "leaks s' = leaks s" "\<not> lock s'" "netif_running s' = netif_running s"
proof -
  from inv have "rx_inv s" by (simp add: run_inv_def)
  from rx_interrupt_spec [OF this, of E budget] obtain n s1 where
    s1: "rtl8101_rx_interrupt E budget s = Some (n, s1)" "rx_polled E budget s n s1" .
  from s1(2) have "rx_path_frame s1 = rx_path_frame s" by (simp add: rx_polled_def)
  note D1 = rx_path_frameD [OF this]
  let ?l = "s1\<lparr>lock := True\<rparr>"
  note T = tx_inv_cong [of ?l s, simplified, OF D1(3,4,1,2,13)]
  have "tx_inv E ?l" using inv(1) T(1) by (simp add: run_inv_def)
  from tx_interrupt_spec [OF this] obtain s2 where
    s2: "rtl8101_tx_interrupt E ?l = Some s2" "tx_reaped E (tx_done_count s) ?l s2"
    using T(3) by auto
  from s2(2) have "tx_path_frame s2 = tx_path_frame ?l" by (simp add: tx_reaped_def)
  note D2 = tx_path_frameD [OF this]
  let ?u = "s2\<lparr>lock := False\<rparr>"
  let ?s = "if n < budget then ?u\<lparr>napi_scheduled := False, tr := rtl8101_enable_interrupts IntrEnMask (tr s2)\<rparr>
            else ?u"
  have run: "rtl8101_poll E budget s = Some (n, ?s)"
    using s1(1) s2(1) D1(6) inv(2)
    by (simp add: rtl8101_poll_def spin_lock_def spin_unlock_def napi_complete_def Let_def)
  have "cur_tx s = dirty_tx s \<longrightarrow> tx_done_count s = 0"
    by (simp add: tx_done_count_def tx_window_def)
  then have "run_inv E h s2"
    using inv(1) s1(2) s2(2) D1 D2 rx_inv_cong [OF D2(3,4,5,1,2)] rx_inv_cong [of ?l s1]
    by (simp add: run_inv_def rx_polled_def tx_reaped_def same_leaks_iff)
  moreover have core: "same_core s2 ?s" by (simp add: same_core_def trace_simps)
  ultimately have inv': "run_inv E h ?s" by (simp only: run_inv_same_core)
  have "same_leaks s1 ?l" by (rule same_leaks_frame) simp_all
  then have lk: "leaks ?s = leaks s"
    unfolding run_inv_same_core(2) [OF core] using s1(2) s2(2)
    by (simp add: rx_polled_def tx_reaped_def same_leaks_iff)
  have "unat (cur_rx s + n - dirty_rx s1) \<le> unat (cur_rx s + n - dirty_rx s)"
    using s1(2) by (auto simp: rx_polled_def)
  moreover have "rx_renewed X s ?s = rx_renewed X s s1" for X
    by (rule rx_renewed_cong(2)) (simp_all add: D2)
  moreover have "freed (tr ?s) = freed (tr s2)" "received (tr ?s) = received (tr s2)"
    by (simp_all add: rtl8101_enable_interrupts_def REG_defs)
  ultimately have "polled E budget s n ?s"
    unfolding polled_def run_inv_same_core(3) [OF core] using s1(2) s2(2) T(2) D1 D2
    by (simp add: rx_polled_def tx_reaped_def trace_simps TX_BUFFS_AVAIL_def)
  with that [OF run] inv' lk D1 D2 show thesis by simp
qed


text \<open>The interrupt handler only masks the device and schedules the poll.\<close>

lemma interrupt_state:
  "snd (rtl8101_interrupt E s) = s\<lparr>tr := tr (snd (rtl8101_interrupt E s)),
     napi_scheduled := napi_scheduled (snd (rtl8101_interrupt E s))\<rparr>"
  by (simp add: rtl8101_interrupt_def Let_def napi_schedule_def rtl8101_get_intr_status_def REG_defs)

lemma interrupt_ledger: "ledger (tr (snd (rtl8101_interrupt E s))) = ledger (tr s)"
  by (auto simp: rtl8101_interrupt_def Let_def napi_schedule_def rtl8101_get_intr_status_def REG_defs
      trace_simps)

lemma interrupt_scheduled:
  "napi_scheduled (snd (rtl8101_interrupt E s)) \<Longrightarrow> napi_scheduled s \<or> (netif_running s \<and> napi_enabled s)"
  by (auto simp: rtl8101_interrupt_def Let_def napi_schedule_def rtl8101_get_intr_status_def REG_defs
      split: if_splits)

lemma interrupt_core:
  "same_core s (snd (rtl8101_interrupt E s))" "lock (snd (rtl8101_interrupt E s)) = lock s"
  "netif_running (snd (rtl8101_interrupt E s)) = netif_running s"
  unfolding same_core_def by (subst interrupt_state; simp add: interrupt_ledger)+

text \<open>
  The interrupt handler claims an interrupt exactly when the status is a real one (not zero, not
  all ones as after a hot unplug), has an enabled cause, and the interface is running. Then it masks
  the device and schedules the poll; otherwise it touches neither mask nor NAPI.
\<close>

lemma interrupt_handled_iff:
  "let st = ioread16 E (tr s) (reg IntrStatus); (r, s') = rtl8101_interrupt E s in
     (r = IRQ_HANDLED \<longleftrightarrow> st \<noteq> 0xFFFF \<and> st \<noteq> 0 \<and> st AND IntrEnMask \<noteq> 0 \<and> netif_running s)
     \<and> (if r = IRQ_HANDLED then irq_mask (tr s') = Some 0 \<and> (napi_scheduled s' \<longleftrightarrow> napi_scheduled s \<or> napi_enabled s)
        else irq_mask (tr s') = irq_mask (tr s) \<and> napi_scheduled s' = napi_scheduled s)
     \<and> ledger (tr s') = ledger (tr s)"
  using interrupt_ledger [of E s]
  by (auto simp: rtl8101_interrupt_def Let_def napi_schedule_def rtl8101_get_intr_status_def
      rtl8101_disable_n_clear_interrupts_def REG_R16_def REG_W16_def trace_simps irq_mask_def split: if_splits)

text \<open>The transmit timeout resets the device and leaves the rings to the reset task.\<close>

lemma tx_timeout_inv:
  assumes "\<not> lock s"
  obtains s' where "rtl8101_tx_timeout E s = Some s'" "same_core s s'" "\<not> lock s'" "task s'"
    "netif_running s' = netif_running s" "link_timer s' = link_timer s"
  using assms that [of "s\<lparr>tr := rtl8101_hw_reset E (tr s), lock := False, task := True\<rparr>"]
  by (simp add: rtl8101_tx_timeout_def spin_lock_def spin_unlock_def schedule_delayed_work_def
      same_core_def trace_simps)

section \<open>Link status\<close>

lemma link_status_cases:
  "rtl8101_check_link_status E s =
     (let (on, t) = phy_link_status_on E (tr s); s = s\<lparr>tr := t\<rparr>
      in if carrier_ok s = on then Some s
         else if on then Some (s\<lparr>tr := hw_init_trace E s, queue_stopped := False, carrier_ok := True\<rparr>)
         else map_option rtl8101_init_ring_indexes
                (rtl8101_tx_clear (s\<lparr>carrier_ok := False, queue_stopped := True,
                   tr := rtl8101_hw_reset E (tr s)\<rparr>)))"
  by (simp add: rtl8101_check_link_status_def Let_def hw_init_state netif_defs bind_eq_Some_conv
      map_conv_bind_option comp_def split: prod.split)

lemma link_up_inv:
  assumes env: "env_ok E" and inv: "run_inv E h s" and off: "\<not> carrier_ok s"
  defines "s' \<equiv> s\<lparr>tr := hw_init_trace E s, queue_stopped := False, carrier_ok := True\<rparr>"
  shows "run_inv E h s'" "leaks s' = leaks s"
proof -
  have idle: "cur_tx s = dirty_tx s" using inv off by (simp add: run_inv_def)
  have "same_leaks s s'" unfolding s'_def by (rule same_leaks_frame) (simp_all add: trace_simps)
  then have l: "leaks s' = leaks s" "held (tr s') = held (tr s)" by (simp_all add: same_leaks_iff)
  have "tx_inv E s'"
    by (rule tx_inv_idle [OF env _ idle]) (use inv idle in \<open>simp_all add: s'_def run_inv_def\<close>)
  moreover have "rx_inv s'" using inv rx_inv_cong [of s' s] by (simp add: s'_def run_inv_def)
  ultimately show "run_inv E h s'" using inv l(2) by (simp add: run_inv_def) (simp add: s'_def)
  show "leaks s' = leaks s" by (rule l(1))
qed

lemma link_down_inv:
  assumes env: "env_ok E" and inv: "run_inv E h s" and nowrap: "tx_nowrap s" and full: "dirty_rx s = cur_rx s"
  defines "q \<equiv> s\<lparr>carrier_ok := False, queue_stopped := True, tr := rtl8101_hw_reset E (tr s)\<rparr>"
  obtains s' where "map_option rtl8101_init_ring_indexes (rtl8101_tx_clear q) = Some s'"
    "run_inv E h s'" "leaks s' = leaks s" "tx_queue s' = []" "lock s' = lock s"
    "netif_running s' = netif_running s" "irq_mask (tr s') = Some 0" "\<not> carrier_ok s'"
    "queue_stopped s'"
proof -
  have "same_leaks s q" unfolding q_def by (rule same_leaks_frame) (simp_all add: trace_simps)
  then have lq: "leaks q = leaks s" "held (tr q) = held (tr s)" by (simp_all add: same_leaks_iff)
  have "tx_ring_ok q" "tx_nowrap q"
    using inv nowrap by (simp_all add: q_def run_inv_def tx_inv_def tx_nowrap_def)
  from tx_clear_spec [OF env this] obtain s1 where s1: "rtl8101_tx_clear q = Some s1" "tx_cleared E q s1" .
  from s1(2) have "tx_path_frame s1 = tx_path_frame q" by (simp add: tx_cleared_def)
  note D = tx_path_frameD [OF this]
  let ?s = "rtl8101_init_ring_indexes s1"
  have i: "?s = s1\<lparr>dirty_tx := 0, dirty_rx := 0, cur_tx := 0, cur_rx := 0\<rparr>"
    by (simp add: rtl8101_init_ring_indexes_def)
  have t1: "tx_inv E s1" "cur_tx s1 = dirty_tx s1" using s1(2) by (simp_all add: tx_cleared_def)
  have tx: "tx_inv E ?s" "tx_queue ?s = []"
    by (rule tx_inv_idle [OF env t1]; simp add: i)+
  have rx: "rx_inv ?s"
    by (rule rx_inv_reset [of s]) (use inv full D in \<open>simp_all add: i run_inv_def q_def\<close>)
  have "same_leaks s1 ?s" by (rule same_leaks_frame) (simp_all add: i)
  with s1(2) lq have l: "leaks ?s = leaks s" "held (tr ?s) = held (tr s)"
    by (simp_all add: tx_cleared_def same_leaks_iff)
  have "irq_mask (tr ?s) = Some 0"
    using s1(2) by (simp add: tx_cleared_def i q_def trace_simps)
  moreover have "run_inv E h ?s"
    using tx rx l(2) inv D by (simp add: run_inv_def) (simp add: i q_def)
  ultimately show thesis
    using that [of ?s] s1 tx l(1) D by (simp add: tx_cleared_def) (simp add: i q_def)
qed


lemma link_timer_inv:
  assumes env: "env_ok E" and inv: "run_inv E h s" "\<not> lock s"
    and guard: "tx_nowrap s" "dirty_rx s = cur_rx s"
  obtains s' where "rtl8101_link_timer E s = Some s'" "run_inv E h s'" "leaks s' = leaks s" "\<not> lock s'"
    "netif_running s' = netif_running s" "carrier_ok s' = fst (phy_link_status_on E (tr s))"
    "link_timer s' \<noteq> None"
proof -
  obtain on t where ph: "phy_link_status_on E (tr s) = (on, t)" by fastforce
  have lt: "ledger t = ledger (tr s)" using phy_link_status_ledger [of E "tr s"] by (simp add: ph)
  let ?l = "s\<lparr>lock := True, tr := t\<rparr>"
  have core: "same_core s ?l" using lt by (simp add: same_core_def)
  have l: "run_inv E h ?l" "leaks ?l = leaks s"
    using run_inv_same_core [OF core] inv(1) by simp_all
  have "\<exists>s1. rtl8101_check_link_status E (s\<lparr>lock := True\<rparr>) = Some s1 \<and> run_inv E h s1
      \<and> leaks s1 = leaks s \<and> netif_running s1 = netif_running s \<and> carrier_ok s1 = on"
  proof (cases "carrier_ok s = on")
    case True
    then show ?thesis using l by (simp add: link_status_cases ph)
  next
    case False
    show ?thesis
    proof (cases on)
      case True
      with False have "\<not> carrier_ok ?l" by simp
      from link_up_inv [OF env l(1) this] True False l(2) show ?thesis
        by (simp add: link_status_cases ph)
    next
      case off: False
      have "tx_nowrap ?l" "dirty_rx ?l = cur_rx ?l" using guard by (simp_all add: tx_nowrap_def)
      from link_down_inv [OF env l(1) this] obtain s1 where
        "map_option rtl8101_init_ring_indexes (rtl8101_tx_clear (?l\<lparr>carrier_ok := False,
           queue_stopped := True, tr := rtl8101_hw_reset E (tr ?l)\<rparr>)) = Some s1"
        "run_inv E h s1" "leaks s1 = leaks ?l" "netif_running s1 = netif_running ?l" "\<not> carrier_ok s1" .
      then show ?thesis using off False l(2) by (intro exI [of _ s1]) (simp add: link_status_cases ph)
    qed
  qed
  then obtain s1 where s1: "rtl8101_check_link_status E (s\<lparr>lock := True\<rparr>) = Some s1"
    "run_inv E h s1" "leaks s1 = leaks s" "netif_running s1 = netif_running s" "carrier_ok s1 = on"
    by blast
  let ?s = "s1\<lparr>lock := False, link_timer := Some (jiffies E (tr s1) + RTL8101_LINK_TIMEOUT E)\<rparr>"
  have "same_core s1 ?s" by (simp add: same_core_def)
  from run_inv_same_core [OF this] that [of ?s] s1 inv(2) ph show thesis
    by (simp add: rtl8101_link_timer_def spin_lock_def spin_unlock_def Let_def)
qed


text \<open>A lost link leaves the receive ring as it is but starts over at its first slot.\<close>

lemma link_drop_state:
  assumes env: "env_ok E" and tx: "tx_ring_ok s" "tx_nowrap s" and "\<not> lock s" "carrier_ok s"
    and off: "\<not> fst (phy_link_status_on E (tr s))"
  obtains s' where "rtl8101_link_timer E s = Some s'" "RxDescArray s' = RxDescArray s"
    "rx_skbuff s' = rx_skbuff s" "cur_rx s' = 0" "dirty_rx s' = 0" "received (tr s') = received (tr s)"
    "rx_buf_sz s' = rx_buf_sz s"
proof -
  obtain t where ph: "phy_link_status_on E (tr s) = (False, t)" using off by (metis prod.collapse)
  let ?q = "s\<lparr>lock := True, carrier_ok := False, queue_stopped := True, tr := rtl8101_hw_reset E t\<rparr>"
  have "tx_ring_ok ?q" "tx_nowrap ?q" using tx by (simp_all add: tx_nowrap_def)
  from tx_clear_spec [OF env this] obtain s1 where s1: "rtl8101_tx_clear ?q = Some s1" "tx_cleared E ?q s1" .
  from s1(2) have "tx_path_frame s1 = tx_path_frame ?q" by (simp add: tx_cleared_def)
  note D = tx_path_frameD [OF this]
  have "received t = received (tr s)"
    using ledger_eqD(5) [OF phy_link_status_ledger, of E "tr s"] by (simp add: ph)
  then have "received (tr s1) = received (tr s)"
    using s1(2) ledger_eqD(5) [OF mac_ledger(3), of E t] by (simp add: tx_cleared_def)
  with that [of "(rtl8101_init_ring_indexes s1)\<lparr>lock := False,
      link_timer := Some (jiffies E (tr s1) + RTL8101_LINK_TIMEOUT E)\<rparr>"] assms(4,5) s1(1) D
  show thesis
    by (simp add: rtl8101_link_timer_def spin_lock_def spin_unlock_def link_status_cases ph Let_def
        rtl8101_init_ring_indexes_def)
qed

text \<open>
  The packets that a lost link drops from the transmit ring are freed, in the order in which they were queued.
\<close>

lemma tx_queue_same:
  assumes "tx_skb s' = tx_skb s" "cur_tx s' = cur_tx s" "dirty_tx s' = dirty_tx s"
  shows "tx_queue s' = tx_queue s"
  using assms by (simp add: tx_queue_def tx_window_def slot_skb_def cong: map_cong)

lemma tx_queue_empty: "cur_tx s = dirty_tx s \<Longrightarrow> tx_queue s = []"
  by (simp add: tx_queue_def tx_window_def ring_window_def)

lemma link_timer_frees:
  assumes inv: "run_inv E h s" "\<not> lock s" "tx_nowrap s" and run: "rtl8101_link_timer E s = Some s'"
  shows "freed (tr s') @ tx_queue s' = freed (tr s) @ tx_queue s"
proof -
  obtain on t where ph: "phy_link_status_on E (tr s) = (on, t)" by fastforce
  then have lt: "ledger t = ledger (tr s)" using phy_link_status_ledger [of E "tr s"] by simp
  let ?l = "s\<lparr>lock := True, tr := t\<rparr>"
  from run inv(2) obtain s1 a where s1: "rtl8101_check_link_status E (s\<lparr>lock := True\<rparr>) = Some s1"
    "s' = s1\<lparr>lock := False, link_timer := a\<rparr>"
    by (auto simp: rtl8101_link_timer_def spin_lock_def spin_unlock_def Let_def bind_eq_Some_conv)
  have same: "tx_queue s' = tx_queue s1" "tr s' = tr s1"
    using tx_queue_same [of s' s1] by (simp_all add: s1(2))
  show ?thesis
  proof (cases "carrier_ok s \<and> \<not> on")
    case False
    then have "ledger (tr s1) = ledger (tr s)" "tx_skb s1 = tx_skb s" "cur_tx s1 = cur_tx s" "dirty_tx s1 = dirty_tx s"
      using s1(1) lt by (auto simp: link_status_cases ph trace_simps Let_def split: if_splits)
    with same ledger_eqD(4) [of "tr s1" "tr s"] tx_queue_same [of s1 s] show ?thesis by simp
  next
    case True
    let ?q = "?l\<lparr>carrier_ok := False, queue_stopped := True, tr := rtl8101_hw_reset E t\<rparr>"
    from True s1(1) obtain u where u: "rtl8101_tx_clear ?q = Some u" "s1 = rtl8101_init_ring_indexes u"
      by (auto simp: link_status_cases ph)
    have "tx_inv E ?q" using inv(1) by (simp add: run_inv_def tx_inv_def tx_window_def)
    moreover have "tx_nowrap ?q" using inv(3) by (simp add: tx_nowrap_def)
    ultimately have "freed (tr u) = freed (tr ?q) @ tx_queue ?q" using u(1) by (rule tx_clear_frees)
    moreover have "freed (tr ?q) = freed (tr s)" using ledger_eqD(4) [of "rtl8101_hw_reset E t" "tr s"] lt
      by (simp add: trace_simps)
    moreover have "tx_queue ?q = tx_queue s" by (rule tx_queue_same) simp_all
    moreover have "tx_queue s1 = []" "tr s1 = tr u"
      unfolding u(2) by (simp_all add: rtl8101_init_ring_indexes_def tx_queue_empty)
    ultimately show ?thesis using same by simp
  qed
qed

section \<open>The reset task\<close>

definition reset_tail :: "env \<Rightarrow> DrvPvt \<Rightarrow> DrvPvt" where
  "reset_tail E s =
     (if dirty_rx s = cur_rx s then
        let s = rtl8101_init_ring_indexes s
        in s\<lparr>tr := hw_init_trace E s, queue_stopped := False, lock := False\<rparr>
      else s\<lparr>lock := False, task := True\<rparr>)"

lemma reset_task_cases:
  assumes "netif_running s" "napi_enabled s" "\<not> napi_scheduled s" "\<not> lock s"
    and rx: "rtl8101_rx_interrupt E (NOT 0)
      (s\<lparr>tr := rtl8101_disable_n_clear_interrupts E (SyncIrq # tr s)\<rparr>) = Some (n, s1)"
    and "\<not> lock s1" and tx: "rtl8101_tx_clear (s1\<lparr>lock := True\<rparr>) = Some s2"
  shows "rtl8101_reset_task E s = Some (reset_tail E s2)"
proof -
  have en: "s\<lparr>tr := t, napi_enabled := True\<rparr> = s\<lparr>tr := t\<rparr>" for t
    using assms(2) by (cases s) simp
  show ?thesis
    using assms(1-4,6) rx tx
    by (simp add: rtl8101_reset_task_def napi_disable_def napi_enable_def spin_lock_def Let_def en
        reset_tail_def spin_unlock_def schedule_delayed_work_def hw_init_state netif_defs)
qed

text \<open>
  Before it touches the transmit ring, the reset task passes all finished frames up the stack; the
  receive ring it leaves is the one of that poll.
\<close>

definition reset_drained :: "env \<Rightarrow> DrvPvt \<Rightarrow> DrvPvt \<Rightarrow> bool" where
  "reset_drained E s s' \<longleftrightarrow>
     (\<exists>n s1. rx_polled E (NOT 0) (s\<lparr>tr := rtl8101_disable_n_clear_interrupts E (SyncIrq # tr s)\<rparr>) n s1
        \<and> RxDescArray s' = RxDescArray s1 \<and> rx_skbuff s' = rx_skbuff s1
        \<and> received (tr s') = received (tr s1))"

text \<open>The end of the reset task keeps the invariants of both rings; without a shortage it restarts the device.\<close>

lemma reset_tail_rings:
  assumes env: "env_ok E" and tx: "tx_inv E s" "cur_tx s = dirty_tx s" and rx: "rx_inv s"
  shows "tx_inv E (reset_tail E s)" "tx_queue (reset_tail E s) = []" "rx_inv (reset_tail E s)"
    "cur_tx (reset_tail E s) = dirty_tx (reset_tail E s)"
    "task (reset_tail E s) \<or> irq_mask (tr (reset_tail E s)) = Some IntrEnMask \<and> \<not> queue_stopped (reset_tail E s)"
proof -
  let ?s = "reset_tail E s"
  show "tx_inv E ?s" "tx_queue ?s = []"
    using tx_inv_idle [OF env tx, of ?s]
    by (simp_all add: reset_tail_def rtl8101_init_ring_indexes_def Let_def tx(2))
  show "cur_tx ?s = dirty_tx ?s" using tx(2) by (simp add: reset_tail_def rtl8101_init_ring_indexes_def Let_def)
  show "rx_inv ?s"
  proof (cases "dirty_rx s = cur_rx s")
    case True
    show ?thesis
      by (rule rx_inv_reset [OF rx True])
        (simp_all add: True reset_tail_def rtl8101_init_ring_indexes_def Let_def)
  next
    case False
    then show ?thesis using rx rx_inv_cong [of "s\<lparr>lock := False, task := True\<rparr>" s]
      by (simp add: reset_tail_def)
  qed
  show "task ?s \<or> irq_mask (tr ?s) = Some IntrEnMask \<and> \<not> queue_stopped ?s"
    by (simp add: reset_tail_def Let_def trace_simps)
qed

lemma reset_task_inv:
  assumes env: "env_ok E" and inv: "run_inv E h s" "\<not> lock s" and run: "netif_running s"
    and guard: "\<not> napi_scheduled s" "tx_nowrap s"
  obtains s' where "rtl8101_reset_task E s = Some s'" "run_inv E h s'" "leaks s' = leaks s" "\<not> lock s'"
    "netif_running s' = netif_running s" "tx_queue s' = []"
    "skbs_available E \<longrightarrow> irq_mask (tr s') = Some IntrEnMask \<and> \<not> queue_stopped s'"
    "reset_drained E s s'" "link_timer s' = link_timer s"
    "task s' \<or> irq_mask (tr s') = Some IntrEnMask \<and> \<not> queue_stopped s'"
proof -
  let ?u = "s\<lparr>tr := rtl8101_disable_n_clear_interrupts E (SyncIrq # tr s)\<rparr>"
  have core: "same_core s ?u" by (simp add: same_core_def trace_simps)
  have u: "run_inv E h ?u" "leaks ?u = leaks s"
    using run_inv_same_core [OF core] inv(1) by simp_all
  then have "rx_inv ?u" by (simp add: run_inv_def)
  from rx_interrupt_spec [OF this, of E "NOT 0"] obtain n s1 where
    s1: "rtl8101_rx_interrupt E (NOT 0) ?u = Some (n, s1)" "rx_polled E (NOT 0) ?u n s1" .
  from s1(2) have "rx_path_frame s1 = rx_path_frame ?u" by (simp add: rx_polled_def)
  note D1 = rx_path_frameD [OF this]
  let ?l = "s1\<lparr>lock := True\<rparr>"
  have "tx_ring_ok ?l" "tx_nowrap ?l"
    using u(1) guard(2) D1 tx_ring_ok_cong [of ?l ?u] by (simp_all add: run_inv_def tx_inv_def tx_nowrap_def)
  from tx_clear_spec [OF env this] obtain s2 where
    s2: "rtl8101_tx_clear ?l = Some s2" "tx_cleared E ?l s2" .
  from s2(2) have "tx_path_frame s2 = tx_path_frame ?l" by (simp add: tx_cleared_def)
  note D2 = tx_path_frameD [OF this]
  let ?s = "reset_tail E s2"
  have "rtl8101_reset_task E s = Some ?s"
    by (rule reset_task_cases [OF run _ guard(1) inv(2) s1(1) _ s2(1)])
      (use inv D1 in \<open>simp_all add: run_inv_def\<close>)
  moreover have t2: "tx_inv E s2" "cur_tx s2 = dirty_tx s2" using s2(2) by (simp_all add: tx_cleared_def)
  have rx2: "rx_inv s2" using s1(2) rx_inv_cong [OF D2(3,4,5,1,2)] rx_inv_cong [of ?l s1]
    by (simp add: rx_polled_def)
  note tail = reset_tail_rings [OF env t2 rx2]
  have "same_leaks s1 ?l" "same_leaks s2 ?s"
    by (rule same_leaks_frame; simp add: reset_tail_def rtl8101_init_ring_indexes_def Let_def trace_simps)+
  with s1(2) s2(2) u have l: "leaks ?s = leaks s" "held (tr ?s) = Some (Irq # RxRing # TxRing # h)"
    by (simp_all add: rx_polled_def tx_cleared_def same_leaks_iff run_inv_def)
  moreover have "napi_enabled ?s"
    using D1 D2 u(1) by (simp add: reset_tail_def rtl8101_init_ring_indexes_def Let_def run_inv_def)
  moreover have "skbs_available E \<longrightarrow> irq_mask (tr ?s) = Some IntrEnMask \<and> \<not> queue_stopped ?s"
    using s1(2) D2 by (simp add: rx_polled_def reset_tail_def Let_def trace_simps)
  moreover have "received (tr ?s) = received (tr s1)"
    using s2(2) by (simp add: tx_cleared_def reset_tail_def rtl8101_init_ring_indexes_def Let_def
        ledger_eqD(5) [OF hw_init_trace_ledger])
  with s1(2) D2 have "reset_drained E s ?s"
    unfolding reset_drained_def
    by (intro exI [of _ n] exI [of _ s1]) (simp add: reset_tail_def rtl8101_init_ring_indexes_def Let_def)
  moreover have "\<not> lock ?s" "netif_running ?s = netif_running s" "link_timer ?s = link_timer s"
    using D1 D2 by (simp_all add: reset_tail_def rtl8101_init_ring_indexes_def Let_def)
  ultimately show thesis using tail that [of ?s] by (simp add: run_inv_def)
qed

lemma reset_task_frees:
  assumes env: "env_ok E" and inv: "run_inv E h s" "\<not> lock s" "netif_running s" "\<not> napi_scheduled s" "tx_nowrap s"
    and run: "rtl8101_reset_task E s = Some s'"
  shows "freed (tr s') @ tx_queue s' = freed (tr s) @ tx_queue s"
proof -
  let ?u = "s\<lparr>tr := rtl8101_disable_n_clear_interrupts E (SyncIrq # tr s)\<rparr>"
  have core: "same_core s ?u" by (simp add: same_core_def trace_simps)
  then have u: "run_inv E h ?u" "tx_queue ?u = tx_queue s" "freed (tr ?u) = freed (tr s)"
    using run_inv_same_core [OF core] inv(1) by (simp_all add: rtl8101_disable_n_clear_interrupts_def REG_defs Let_def)
  then have "rx_inv ?u" by (simp add: run_inv_def)
  from rx_interrupt_spec [OF this, of E "NOT 0"] obtain n s1 where
    s1: "rtl8101_rx_interrupt E (NOT 0) ?u = Some (n, s1)" "rx_polled E (NOT 0) ?u n s1" .
  from s1(2) have "rx_path_frame s1 = rx_path_frame ?u" by (simp add: rx_polled_def)
  note D = rx_path_frameD [OF this]
  let ?l = "s1\<lparr>lock := True\<rparr>"
  have T: "tx_inv E ?l = tx_inv E ?u" "tx_queue ?l = tx_queue ?u"
    using D tx_inv_cong(1) [of ?l ?u E] tx_queue_same [of ?l ?u] by simp_all
  have "tx_inv E ?l" "tx_nowrap ?l" using T(1) u(1) inv(5) D by (simp_all add: run_inv_def tx_nowrap_def)
  note l = this
  then have "tx_ring_ok ?l" by (simp add: tx_inv_def)
  from tx_clear_spec [OF env this l(2)] obtain s2 where s2: "rtl8101_tx_clear ?l = Some s2" "tx_cleared E ?l s2" .
  have "rtl8101_reset_task E s = Some (reset_tail E s2)"
    by (rule reset_task_cases [OF inv(3) _ inv(4,2) s1(1) _ s2(1)]) (use inv D in \<open>simp_all add: run_inv_def\<close>)
  with run have s': "s' = reset_tail E s2" by simp
  have "freed (tr s') = freed (tr s2)"
    by (simp add: s' reset_tail_def rtl8101_init_ring_indexes_def Let_def ledger_eqD(4) [OF hw_init_trace_ledger])
  moreover have "freed (tr s2) = freed (tr s) @ tx_queue s"
    using tx_clear_frees [OF l s2(1)] s1(2) u(2,3) T(2) by (simp add: rx_polled_def)
  moreover have "tx_queue s' = []"
    using s2(2) by (intro tx_queue_empty) (simp add: s' reset_tail_def rtl8101_init_ring_indexes_def Let_def tx_cleared_def)
  ultimately show ?thesis by simp
qed

section \<open>The device\<close>

text \<open>
  The device writes back a descriptor it owns: it clears the ownership bit and leaves the address
  and the end-of-ring mark. Receiving, it stores the status of the frame; transmitting, it keeps
  the fragment flags.
\<close>

definition nic_rx :: "nat \<Rightarrow> u32 \<Rightarrow> u32 \<Rightarrow> DrvPvt \<Rightarrow> DrvPvt option" where
  "nic_rx e o1 o2 s = do {
     descs \<leftarrow> RxDescArray s;
     d \<leftarrow> idx descs e;
     Some (s\<lparr>RxDescArray := Some (descs[e := d\<lparr>opts1 := o1, opts2 := o2\<rparr>])\<rparr>)
   }"

definition nic_tx :: "nat \<Rightarrow> u32 \<Rightarrow> u32 \<Rightarrow> DrvPvt \<Rightarrow> DrvPvt option" where
  "nic_tx e o1 o2 s = do {
     descs \<leftarrow> TxDescArray s;
     d \<leftarrow> idx descs e;
     Some (s\<lparr>TxDescArray := Some (descs[e := d\<lparr>opts1 := o1, opts2 := o2\<rparr>])\<rparr>)
   }"

definition nic_rx_ok :: "nat \<Rightarrow> u32 \<Rightarrow> DrvPvt \<Rightarrow> bool" where
  "nic_rx_ok e o1 s \<longleftrightarrow> e < NUM_RX_DESC \<and> nic_owned (rx_desc_at s e)
     \<and> o1 AND dbit DescOwn = 0 \<and> o1 AND dbit RingEnd = opts1 (rx_desc_at s e) AND dbit RingEnd
     \<and> rx_status_ok o1"

definition nic_tx_ok :: "nat \<Rightarrow> u32 \<Rightarrow> DrvPvt \<Rightarrow> bool" where
  "nic_tx_ok e o1 s \<longleftrightarrow> e < NUM_TX_DESC \<and> nic_owned (tx_desc_at s e)
     \<and> o1 AND dbit DescOwn = 0 \<and> o1 AND dbit LastFrag = opts1 (tx_desc_at s e) AND dbit LastFrag"

lemma nic_rx_ring:
  assumes inv: "rx_inv s" and ok: "nic_rx_ok e o1 s"
  obtains descs where "nic_rx e o1 o2 s = Some (s\<lparr>RxDescArray := Some descs\<rparr>)"
    "rx_inv (s\<lparr>RxDescArray := Some descs\<rparr>)" "same_leaks s (s\<lparr>RxDescArray := Some descs\<rparr>)"
proof -
  from inv have ring: "rx_ring_ok s" by (simp add: rx_inv_def)
  from ring obtain descs where d: "RxDescArray s = Some descs" "length descs = NUM_RX_DESC"
      "length (rx_skbuff s) = NUM_RX_DESC" "rx_buf_sz s = RX_BUF_SIZE"
      "\<forall>e < NUM_RX_DESC. rx_slot_ok e (descs ! e) (rx_skbuff s ! e)"
    by (rule rx_ring_okE)
  from ok have e: "e < NUM_RX_DESC" by (simp add: nic_rx_ok_def)
  let ?d = "(descs ! e)\<lparr>opts1 := o1, opts2 := o2\<rparr>"
  let ?u = "s\<lparr>tr := tr s, RxDescArray := Some (descs[e := ?d]), rx_skbuff := (rx_skbuff s)[e := rx_skbuff s ! e]\<rparr>"
  have run: "nic_rx e o1 o2 s = Some ?u" using d(1-3) e by (simp add: nic_rx_def)
  have "rx_slot_ok e ?d (rx_skbuff s ! e)"
    using d(1,5) ok e unfolding rx_slot_ok_def nic_rx_ok_def nic_owned_def ring_end_def rx_desc_at_def
    by simp
  then have "rx_ring_ok ?u" by (rule rx_ring_ok_update [OF ring d(1)]) (simp_all add: e)
  then have rx: "rx_inv ?u" using inv by (simp add: rx_inv_def rx_window_def)
  have "same_leaks s ?u"
    unfolding same_leaks_def rx_slot_leak [OF d(1-3) e] by (simp add: rx_map_def)
  with that [of "descs[e := ?d]"] run rx show thesis by simp
qed

lemma nic_rx_inv:
  assumes inv: "run_inv E h s" and ok: "nic_rx_ok e o1 s"
  obtains s' where "nic_rx e o1 o2 s = Some s'" "run_inv E h s'" "leaks s' = leaks s"
    "lock s' = lock s" "netif_running s' = netif_running s"
proof -
  from inv have "rx_inv s" by (simp add: run_inv_def)
  from nic_rx_ring [OF this ok, of o2] obtain descs where
    u: "nic_rx e o1 o2 s = Some (s\<lparr>RxDescArray := Some descs\<rparr>)"
      "rx_inv (s\<lparr>RxDescArray := Some descs\<rparr>)" "same_leaks s (s\<lparr>RxDescArray := Some descs\<rparr>)" .
  moreover have "tx_inv E (s\<lparr>RxDescArray := Some descs\<rparr>)"
    using inv tx_inv_cong(1) [of "s\<lparr>RxDescArray := Some descs\<rparr>" s E] by (simp add: run_inv_def)
  ultimately show thesis
    using that [OF u(1)] inv by (simp add: run_inv_def same_leaks_iff)
qed

lemma nic_tx_inv:
  assumes inv: "run_inv E h s" and ok: "nic_tx_ok e o1 s"
  obtains s' where "nic_tx e o1 o2 s = Some s'" "run_inv E h s'" "leaks s' = leaks s"
    "lock s' = lock s" "netif_running s' = netif_running s"
proof -
  from inv have ring: "tx_ring_ok s" by (simp add: run_inv_def tx_inv_def)
  from ring obtain descs where d: "TxDescArray s = Some descs" "length descs = NUM_TX_DESC"
      "length (tx_skb s) = NUM_TX_DESC" "\<forall>e < NUM_TX_DESC. tx_slot_ok e (descs ! e) (tx_skb s ! e)"
    by (rule tx_ring_okE)
  from ok have e: "e < NUM_TX_DESC" by (simp add: nic_tx_ok_def)
  let ?d = "(descs ! e)\<lparr>opts1 := o1, opts2 := o2\<rparr>"
  let ?u = "s\<lparr>tr := tr s, TxDescArray := Some (descs[e := ?d]), tx_skb := (tx_skb s)[e := tx_skb s ! e]\<rparr>"
  have run: "nic_tx e o1 o2 s = Some ?u" using d(1-3) e by (simp add: nic_tx_def)
  have "tx_slot_ok e ?d (tx_skb s ! e)"
    using d(1,4) ok e unfolding tx_slot_ok_def nic_tx_ok_def nic_owned_def ring_end_def tx_desc_at_def
    by simp
  then have "tx_ring_ok ?u" by (rule tx_ring_ok_update [OF ring d(1)]) (simp_all add: e)
  then have tx: "tx_inv E ?u" using inv by (simp add: run_inv_def tx_inv_def tx_window_def TX_BUFFS_AVAIL_def)
  have "same_leaks s ?u"
    unfolding same_leaks_def tx_slot_leak [OF d(1-3) e] by (simp add: tx_map_def)
  moreover have "rx_inv ?u" using inv rx_inv_cong [of ?u s] by (simp add: run_inv_def)
  ultimately show thesis
    using that [OF run] tx inv by (simp add: run_inv_def same_leaks_iff)
qed

end
