(* ===== verification/Machines.thy ===== *)
theory Machines
  imports Prelude
begin

text \<open>
  Event-driven machines: the interface between the drivers and the kernel that calls them. An
  event is enabled or not, and running it gives the next state or a fault. The locale \<open>machine\<close>
  is the contract of a driver with an invariant: an enabled event does not fault and keeps the
  invariant. \<open>packet_fifo\<close> extends it by the contract of a packet queue: packets leave in the order
  in which they came, none is lost and none appears twice.
\<close>

primrec run_events :: "('e \<Rightarrow> 's \<Rightarrow> bool) \<Rightarrow> ('e \<Rightarrow> 's \<Rightarrow> 's option) \<Rightarrow> 'e list \<Rightarrow> 's \<Rightarrow> 's option" where
  "run_events en step [] s = Some s"
| "run_events en step (e # es) s =
     (if en e s then step e s \<bind> run_events en step es else None)"

text \<open>A sequence of events each of which is enabled when it happens.\<close>

primrec schedule_ok :: "('e \<Rightarrow> 's \<Rightarrow> bool) \<Rightarrow> ('e \<Rightarrow> 's \<Rightarrow> 's option) \<Rightarrow> 'e list \<Rightarrow> 's \<Rightarrow> bool" where
  "schedule_ok en step [] s \<longleftrightarrow> True"
| "schedule_ok en step (e # es) s \<longleftrightarrow>
     en e s \<and> (\<forall>s'. step e s = Some s' \<longrightarrow> schedule_ok en step es s')"

inductive reach :: "('e \<Rightarrow> 's \<Rightarrow> bool) \<Rightarrow> ('e \<Rightarrow> 's \<Rightarrow> 's option) \<Rightarrow> 's \<Rightarrow> 's \<Rightarrow> bool"
  for en step s0 where
  reach_start: "reach en step s0 s0"
| reach_step: "reach en step s0 s \<Longrightarrow> en e s \<Longrightarrow> step e s = Some s' \<Longrightarrow> reach en step s0 s'"

lemma run_events_reach:
  assumes "run_events en step es s = Some s'" "reach en step s0 s"
  shows "reach en step s0 s'"
  using assms
proof (induction es arbitrary: s)
  case (Cons e es)
  then obtain s1 where "en e s" "step e s = Some s1" "run_events en step es s1 = Some s'"
    by (auto split: if_splits bind_splits)
  with Cons show ?case by (blast intro: reach_step)
qed simp

locale machine =
  fixes inv :: "'s \<Rightarrow> bool" and en :: "'e \<Rightarrow> 's \<Rightarrow> bool" and step :: "'e \<Rightarrow> 's \<Rightarrow> 's option"
  assumes step_ok: "inv s \<Longrightarrow> en e s \<Longrightarrow> \<exists>s'. step e s = Some s' \<and> inv s'"
begin

lemma reach_inv: "reach en step s0 s \<Longrightarrow> inv s0 \<Longrightarrow> inv s"
proof (induction rule: reach.induct)
  case (reach_step s e s')
  with step_ok [of s e] show ?case by auto
qed

lemma reach_no_fault: "reach en step s0 s \<Longrightarrow> inv s0 \<Longrightarrow> en e s \<Longrightarrow> step e s \<noteq> None"
  using reach_inv [of s0 s] step_ok [of s e] by auto

lemma run_total:
  assumes "inv s" "schedule_ok en step es s"
  shows "\<exists>s'. run_events en step es s = Some s' \<and> inv s'"
  using assms
proof (induction es arbitrary: s)
  case (Cons e es)
  then have "en e s" by simp
  from step_ok [OF Cons.prems(1) this] obtain s1 where s1: "step e s = Some s1" "inv s1" by blast
  with Cons.prems(2) have "schedule_ok en step es s1" by simp
  from Cons.IH [OF s1(2) this] \<open>en e s\<close> s1(1) show ?case by simp
qed simp

end

locale packet_fifo = machine +
  fixes queue :: "'a \<Rightarrow> 'p list" and sent :: "'a \<Rightarrow> 'p list" and given :: "'b \<Rightarrow> 'p list"
  assumes step_fifo: "inv s \<Longrightarrow> en e s \<Longrightarrow> step e s = Some s' \<Longrightarrow>
    sent s' @ queue s' = sent s @ queue s @ given e"
begin

lemma run_fifo:
  assumes "inv s" "run_events en step es s = Some s'"
  shows "sent s' @ queue s' = sent s @ queue s @ concat (map given es)"
  using assms
proof (induction es arbitrary: s)
  case (Cons e es)
  then obtain s1 where s1: "en e s" "step e s = Some s1" "run_events en step es s1 = Some s'"
    by (auto split: if_splits bind_splits)
  with step_ok [OF Cons.prems(1)] have "inv s1" by fastforce
  from Cons.IH [OF this s1(3)] step_fifo [OF Cons.prems(1) s1(1,2)] show ?case by simp
qed simp

text \<open>Started with an empty queue, what has been sent is a prefix of what was submitted.\<close>

lemma run_in_order:
  assumes "inv s" "run_events en step es s = Some s'" "queue s = []" "sent s = []"
  shows "sent s' = take (length (sent s')) (concat (map given es))"
  using run_fifo [OF assms(1,2)] assms(3,4) by (metis append_Nil append_eq_conv_conj)

end

section \<open>PCI drivers\<close>

text \<open>
  The contract of a PCI driver with the PCI core: \<open>probe\<close> binds the device or gives back all it
  took, \<open>remove\<close>, called on a quiet device, unbinds it; neither faults. \<open>idle h\<close> and \<open>bound h\<close> are
  the states of a device that nobody drives and of a device that the driver has bound, where \<open>h\<close>
  are the resources held before.
\<close>

datatype 'e pci_event = Probe | Remove | Work 'e

fun pci_step :: "('d \<Rightarrow> (int \<times> 'd) option) \<Rightarrow> ('d \<Rightarrow> 'd option) \<Rightarrow> ('e \<Rightarrow> 'd \<Rightarrow> 'd option)
    \<Rightarrow> 'e pci_event \<Rightarrow> 'd \<Rightarrow> 'd option" where
  "pci_step probe remove work Probe d = map_option snd (probe d)"
| "pci_step probe remove work Remove d = remove d"
| "pci_step probe remove work (Work e) d = work e d"

fun pci_enabled :: "('d \<Rightarrow> bool) \<Rightarrow> ('d \<Rightarrow> bool) \<Rightarrow> ('e \<Rightarrow> 'd \<Rightarrow> bool) \<Rightarrow> 'e pci_event \<Rightarrow> 'd \<Rightarrow> bool" where
  "pci_enabled driven quiet en Probe d \<longleftrightarrow> \<not> driven d"
| "pci_enabled driven quiet en Remove d \<longleftrightarrow> driven d \<and> quiet d"
| "pci_enabled driven quiet en (Work e) d \<longleftrightarrow> driven d \<and> en e d"

locale pci_driver =
  fixes idle :: "'h \<Rightarrow> 'd \<Rightarrow> bool" and bound :: "'h \<Rightarrow> 'd \<Rightarrow> bool" and driven :: "'d \<Rightarrow> bool"
    and quiet :: "'d \<Rightarrow> bool" and probe :: "'d \<Rightarrow> (int \<times> 'd) option" and remove :: "'d \<Rightarrow> 'd option"
    and en :: "'e \<Rightarrow> 'd \<Rightarrow> bool" and work :: "'e \<Rightarrow> 'd \<Rightarrow> 'd option"
  assumes driven: "idle h d \<Longrightarrow> \<not> driven d" "bound h d \<Longrightarrow> driven d"
    and probe_ok: "idle h d \<Longrightarrow> \<exists>r d'. probe d = Some (r, d') \<and> (if r = 0 then bound h d' else idle h d')"
    and remove_ok: "bound h d \<Longrightarrow> quiet d \<Longrightarrow> \<exists>d'. remove d = Some d' \<and> idle h d'"
    and work_ok: "bound h d \<Longrightarrow> en e d \<Longrightarrow> \<exists>d'. work e d = Some d' \<and> bound h d'"
begin

lemma life_step:
  assumes "idle h d \<or> bound h d" "pci_enabled driven quiet en e d"
  shows "\<exists>d'. pci_step probe remove work e d = Some d' \<and> (idle h d' \<or> bound h d')"
proof (cases e)
  case Probe
  with assms driven have "idle h d" by auto
  from probe_ok [OF this] Probe show ?thesis by (auto split: if_splits)
next
  case Remove
  with assms driven have "bound h d" "quiet d" by auto
  from remove_ok [OF this] Remove show ?thesis by auto
next
  case (Work w)
  with assms driven have "bound h d" "en w d" by auto
  from work_ok [OF this] Work show ?thesis by auto
qed

end

text \<open>Any sequence of plugging, working and unplugging: a \<open>machine\<close> whose states are idle or bound.\<close>

sublocale pci_driver \<subseteq> life: machine "\<lambda>d. idle h d \<or> bound h d" "pci_enabled driven quiet en"
    "pci_step probe remove work" for h
  by unfold_locales (rule life_step)

end
