(* ===== verification/Driver_Machine.thy ===== *)
theory Driver_Machine
  imports Driver Machines
begin

text \<open>
  The Realtek driver as an instance of \<open>machine\<close> and, for its traffic, of \<open>packet_fifo\<close>.

  The guards name three things the driver does not cope with, see the theorems on the transmit
  ring clear at index wrap-around, on a link drop during a shortage of receive buffers and on a
  reset task that outlives the interface: \<open>tx_nowrap\<close> for the events that clear the transmit ring, a filled
  receive ring when the link timer runs, and no pending reset task when the interface is opened.
\<close>

datatype drv_event =
    Open | Close | Xmit sk_buff | Poll u32 | Interrupt | LinkTimer | ResetTask | TxTimeout
  | NicRx nat u32 u32 | NicTx nat u32 u32

text \<open>
  The kernel sets the running flag before \<^verbatim>\<open>ndo_open\<close>, clears it when that fails, and clears it
  before \<^verbatim>\<open>ndo_stop\<close>. A delayed work item is no longer pending when it runs.
\<close>

definition dev_open :: "env \<Rightarrow> DrvPvt \<Rightarrow> DrvPvt option" where
  "dev_open E s = do {
     (r, s) \<leftarrow> rtl8101_open E (s\<lparr>netif_running := True\<rparr>);
     Some (if r = 0 then s else s\<lparr>netif_running := False\<rparr>)
   }"

definition dev_close :: "env \<Rightarrow> DrvPvt \<Rightarrow> DrvPvt option" where
  "dev_close E s = map_option snd (rtl8101_close E (s\<lparr>netif_running := False\<rparr>))"

fun exec :: "env \<Rightarrow> drv_event \<Rightarrow> DrvPvt \<Rightarrow> DrvPvt option" where
  "exec E Open s = dev_open E s"
| "exec E Close s = dev_close E s"
| "exec E (Xmit skb) s = map_option snd (rtl8101_start_xmit E skb s)"
| "exec E (Poll budget) s = map_option snd (rtl8101_poll E budget s)"
| "exec E Interrupt s = Some (snd (rtl8101_interrupt E s))"
| "exec E LinkTimer s = rtl8101_link_timer E s"
| "exec E ResetTask s = rtl8101_reset_task E (s\<lparr>task := False\<rparr>)"
| "exec E TxTimeout s = rtl8101_tx_timeout E s"
| "exec E (NicRx e o1 o2) s = nic_rx e o1 o2 s"
| "exec E (NicTx e o1 o2) s = nic_tx e o1 o2 s"

fun enabled :: "env \<Rightarrow> drv_event \<Rightarrow> DrvPvt \<Rightarrow> bool" where
  "enabled E Open s \<longleftrightarrow> \<not> netif_running s \<and> \<not> task s"
| "enabled E Close s \<longleftrightarrow> netif_running s \<and> \<not> napi_scheduled s \<and> tx_nowrap s"
| "enabled E (Xmit skb) s \<longleftrightarrow> netif_running s \<and> carrier_ok s \<and> \<not> queue_stopped s \<and> skb_ok E skb"
| "enabled E (Poll budget) s \<longleftrightarrow> napi_scheduled s"
| "enabled E Interrupt s \<longleftrightarrow> True"
| "enabled E LinkTimer s \<longleftrightarrow> link_timer s \<noteq> None \<and> tx_nowrap s \<and> dirty_rx s = cur_rx s"
| "enabled E ResetTask s \<longleftrightarrow> task s \<and> \<not> napi_scheduled s \<and> tx_nowrap s"
| "enabled E TxTimeout s \<longleftrightarrow> netif_running s \<and> carrier_ok s"
| "enabled E (NicRx e o1 o2) s \<longleftrightarrow> netif_running s \<and> nic_rx_ok e o1 s"
| "enabled E (NicTx e o1 o2) s \<longleftrightarrow> netif_running s \<and> nic_tx_ok e o1 s"

text \<open>The kernel grants the interrupt line; what happens otherwise is stated separately.\<close>

definition irq_granted :: "env \<Rightarrow> bool" where
  "irq_granted E \<longleftrightarrow> (\<forall>t. grant E t Irq = 0)"

definition machine_inv :: "env \<Rightarrow> res list \<Rightarrow> DrvPvt \<Rightarrow> bool" where
  "machine_inv E h s \<longleftrightarrow> env_ok E \<and> irq_granted E \<and> drv_inv E h s"

section \<open>Events keep the invariant\<close>

lemma drv_inv_running:
  "drv_inv E h s \<Longrightarrow> netif_running s \<Longrightarrow> run_inv E h s \<and> \<not> lock s \<and> leaks s = (\<lambda>_. 0, \<lambda>_. 0)"
  by (simp add: drv_inv_def)

lemma drv_inv_runningI:
  "run_inv E h s \<Longrightarrow> \<not> lock s \<Longrightarrow> leaks s = (\<lambda>_. 0, \<lambda>_. 0) \<Longrightarrow> netif_running s \<Longrightarrow> drv_inv E h s"
  by (simp add: drv_inv_def)

lemma dev_open_inv:
  assumes env: "env_ok E" "irq_granted E" and inv: "drv_inv E h s" and dn: "\<not> netif_running s" "\<not> task s"
  obtains s' where "dev_open E s = Some s'" "drv_inv E h s'"
proof -
  let ?s = "s\<lparr>netif_running := True\<rparr>"
  from inv dn have d: "down_inv h s" "\<not> lock s" "leaks s = (\<lambda>_. 0, \<lambda>_. 0)" by (simp_all add: drv_inv_def)
  have "leaks ?s = leaks s" by (rule leaks_frame) simp_all
  with d dn(2) have "rings_down ?s" "\<not> napi_enabled ?s" "\<not> task ?s" "held (tr ?s) = Some h" "leaks ?s = (\<lambda>_. 0, \<lambda>_. 0)"
    by (simp_all add: down_inv_def rings_down_def rings_idle_def)
  note u = this
  from env(1) u(1-4) show thesis
  proof (cases rule: open_spec)
    case (up s')
    have "tx_inv E s'" using up(2) tx_inv_empty(1) [OF env(1), of s'] by (simp add: open_up_def rings_up_def)
    then have "run_inv E h s'" using up(2) by (simp add: run_inv_def open_up_def rings_up_def)
    with up u(5) d(2) have "drv_inv E h s'"
      by (intro drv_inv_runningI) (simp_all add: same_flags_def)
    with that up show thesis by (simp add: dev_open_def)
  next
    case (nomem s')
    let ?r = "s'\<lparr>netif_running := False\<rparr>"
    have "leaks ?r = leaks s'" by (rule leaks_frame) simp_all
    with nomem u(5) d have "drv_inv E h ?r"
      by (simp add: drv_inv_def down_inv_def same_flags_def rings_down_def rings_idle_def)
    with that nomem(1) show thesis by (simp add: dev_open_def ENOMEM_def)
  next
    case (noirq c s' ms)
    with env(2) show thesis by (auto simp: irq_granted_def)
  qed
qed

lemma dev_close_inv:
  assumes env: "env_ok E" and inv: "drv_inv E h s"
    and guard: "netif_running s" "\<not> napi_scheduled s" "tx_nowrap s"
  obtains s' where "dev_close E s = Some s'" "drv_inv E h s'" "\<not> netif_running s'" "task s' = task s"
proof -
  let ?s = "s\<lparr>netif_running := False\<rparr>"
  note r = drv_inv_running [OF inv guard(1)]
  have core: "same_core s ?s" by (simp add: same_core_def)
  with r have "tx_ring_ok ?s" "tx_nowrap ?s" "rx_ring_ok ?s" "napi_enabled ?s" "\<not> napi_scheduled ?s"
    "\<not> lock ?s" "held (tr ?s) = Some (Irq # RxRing # TxRing # h)"
    using guard run_inv_same_core(1) [OF core, of E h]
    by (simp_all add: run_inv_def tx_inv_def rx_inv_def tx_nowrap_def)
  from close_spec [OF env this] obtain s' where
    s': "rtl8101_close E ?s = Some (0, s')" "closed_down h s'" "leaks s' = leaks ?s" "\<not> lock s'"
      "netif_running s' = netif_running ?s" "napi_scheduled s' = napi_scheduled ?s"
      "task s' = task ?s" .
  then have "drv_inv E h s'"
    using r guard(2) run_inv_same_core(2) [OF core]
    by (simp add: drv_inv_def down_inv_def closed_down_def)
  with that s' show thesis by (simp add: dev_close_def)
qed

text \<open>
  Each event on a running interface: that it does not fault and keeps the invariant, with what
  the proofs about liveness and packet order need to know of the state it leads to.
\<close>

lemma drv_inv_step:
  assumes "drv_inv E h s" "netif_running s" "run_inv E h s'" "\<not> lock s'" "leaks s' = leaks s" "netif_running s' = netif_running s"
  shows "drv_inv E h s'"
  using assms drv_inv_running [OF assms(1,2)] by (intro drv_inv_runningI) simp_all

lemma drv_inv_core:
  assumes "drv_inv E h s" "netif_running s" "same_core s s'" "\<not> lock s'" "netif_running s' = netif_running s"
  shows "drv_inv E h s'"
  using assms run_inv_same_core(1) [OF assms(3), of E h] run_inv_same_core(2) [OF assms(3)] drv_inv_running [OF assms(1,2)]
  by (intro drv_inv_step [OF assms(1,2)]) simp_all

lemma exec_xmit:
  assumes env: "env_ok E" and drv: "drv_inv E h s" and en: "enabled E (Xmit skb) s"
  obtains s' where "exec E (Xmit skb) s = Some s'" "drv_inv E h s'" "tx_queued E skb s s'"
proof -
  from en have g: "netif_running s" "carrier_ok s" "\<not> queue_stopped s" "skb_ok E skb" by simp_all
  from drv_inv_running [OF drv g(1)] have r: "run_inv E h s" "\<not> lock s" by simp_all
  from start_xmit_inv [OF env r g(2-4)] obtain s' where
    s': "rtl8101_start_xmit E skb s = Some (NETDEV_TX_OK, s')" "tx_queued E skb s s'" "run_inv E h s'" "leaks s' = leaks s" "\<not> lock s'"
      "netif_running s' = netif_running s" .
  with drv_inv_step [OF drv g(1), of s'] that [of s'] show thesis by simp
qed

lemma exec_poll:
  assumes env: "env_ok E" and drv: "drv_inv E h s" and on: "netif_running s"
  obtains n s' where "exec E (Poll b) s = Some s'" "drv_inv E h s'" "polled E b s n s'" "run_inv E h s'"
proof -
  from drv_inv_running [OF drv on] have "run_inv E h s" "\<not> lock s" by simp_all
  from poll_inv [OF env this, of b] obtain n s' where
    s': "rtl8101_poll E b s = Some (n, s')" "polled E b s n s'" "run_inv E h s'" "leaks s' = leaks s" "\<not> lock s'"
      "netif_running s' = netif_running s" .
  with drv_inv_step [OF drv on, of s'] that [of s' n] show thesis by simp
qed

lemma exec_interrupt:
  assumes "drv_inv E h s" "netif_running s"
  shows "drv_inv E h (snd (rtl8101_interrupt E s))"
  using drv_inv_core [OF assms interrupt_core(1)] interrupt_core(2,3) [of E s] drv_inv_running [OF assms] by simp

lemma exec_link_timer:
  assumes env: "env_ok E" and drv: "drv_inv E h s" and on: "netif_running s" and en: "enabled E LinkTimer s"
  obtains s' where "exec E LinkTimer s = Some s'" "drv_inv E h s'" "carrier_ok s' = fst (phy_link_status_on E (tr s))"
    "link_timer s' \<noteq> None" "freed (tr s') @ tx_queue s' = freed (tr s) @ tx_queue s"
proof -
  from drv_inv_running [OF drv on] have r: "run_inv E h s" "\<not> lock s" by simp_all
  from en have g: "tx_nowrap s" "dirty_rx s = cur_rx s" by simp_all
  from link_timer_inv [OF env r g] obtain s' where s': "rtl8101_link_timer E s = Some s'" "run_inv E h s'" "leaks s' = leaks s"
    "\<not> lock s'" "netif_running s' = netif_running s" "carrier_ok s' = fst (phy_link_status_on E (tr s))" "link_timer s' \<noteq> None" .
  with drv_inv_step [OF drv on, of s'] link_timer_frees [OF r g(1) s'(1)] that [of s'] show thesis by simp
qed

lemma exec_reset_task:
  assumes env: "env_ok E" and drv: "drv_inv E h s" and on: "netif_running s" and en: "enabled E ResetTask s"
  obtains s' where "exec E ResetTask s = Some s'" "drv_inv E h s'" "reset_drained E (s\<lparr>task := False\<rparr>) s'"
    "link_timer s' = link_timer s" "task s' \<or> irq_mask (tr s') = Some IntrEnMask \<and> \<not> queue_stopped s'"
    "freed (tr s') @ tx_queue s' = freed (tr s) @ tx_queue s" "run_inv E h s'"
proof -
  let ?s = "s\<lparr>task := False\<rparr>"
  have core: "same_core s ?s" by (simp add: same_core_def)
  note c = run_inv_same_core [OF core]
  have g: "run_inv E h ?s" "\<not> lock ?s" "netif_running ?s" "\<not> napi_scheduled ?s" "tx_nowrap ?s"
    using drv_inv_running [OF drv on] on en c(1) by (simp_all add: tx_nowrap_def)
  from reset_task_inv [OF env g] obtain s' where
    s': "rtl8101_reset_task E ?s = Some s'" "run_inv E h s'" "leaks s' = leaks ?s" "\<not> lock s'" "netif_running s' = netif_running ?s"
      "reset_drained E ?s s'" "link_timer s' = link_timer ?s" "task s' \<or> irq_mask (tr s') = Some IntrEnMask \<and> \<not> queue_stopped s'" .
  moreover have "freed (tr s') @ tx_queue s' = freed (tr s) @ tx_queue s"
    using reset_task_frees [OF env g s'(1)] c(3) by simp
  ultimately show thesis using drv_inv_step [OF drv on, of s'] c(2) that [of s'] by simp
qed

lemma exec_tx_timeout:
  assumes drv: "drv_inv E h s" and on: "netif_running s"
  obtains s' where "exec E TxTimeout s = Some s'" "drv_inv E h s'" "same_core s s'" "task s'" "link_timer s' = link_timer s"
proof -
  from drv_inv_running [OF drv on] have "\<not> lock s" by simp
  from tx_timeout_inv [OF this, of E] obtain s' where
    s': "rtl8101_tx_timeout E s = Some s'" "same_core s s'" "\<not> lock s'" "task s'" "netif_running s' = netif_running s" "link_timer s' = link_timer s" .
  with drv_inv_core [OF drv on s'(2)] that [of s'] show thesis by simp
qed

lemma exec_nic:
  assumes drv: "drv_inv E h s" and en: "enabled E ev s" and ev: "ev = NicRx e o1 o2 \<or> ev = NicTx e o1 o2"
  shows "\<exists>s'. exec E ev s = Some s' \<and> drv_inv E h s'"
proof -
  from en ev have on: "netif_running s" by auto
  note r = drv_inv_running [OF drv on]
  have step: "\<exists>s'. f = Some s' \<and> drv_inv E h s'"
    if "f = Some s'" "run_inv E h s'" "leaks s' = leaks s" "lock s' = lock s" "netif_running s' = netif_running s" for f s'
    using that drv_inv_step [OF drv on, of s'] r by simp
  from ev show ?thesis
  proof
    assume "ev = NicRx e o1 o2"
    with en r nic_rx_inv [of E h s e o1 o2] step [of "nic_rx e o1 o2 s"] show ?thesis by fastforce
  next
    assume "ev = NicTx e o1 o2"
    with en r nic_tx_inv [of E h s e o1 o2] step [of "nic_tx e o1 o2 s"] show ?thesis by fastforce
  qed
qed

lemma exec_running:
  assumes env: "env_ok E" and drv: "drv_inv E h s" and on: "netif_running s" and en: "enabled E ev s"
  shows "\<exists>s'. exec E ev s = Some s' \<and> drv_inv E h s'"
proof (cases ev)
  case Open
  with en on show ?thesis by simp
next
  case Close
  with en show ?thesis by (auto intro: dev_close_inv [OF env drv])
next
  case (Xmit skb)
  with en show ?thesis by (metis exec_xmit [OF env drv])
next
  case (Poll b)
  then show ?thesis by (metis exec_poll [OF env drv on])
next
  case Interrupt
  with exec_interrupt [OF drv on] show ?thesis by simp
next
  case LinkTimer
  with en show ?thesis by (metis exec_link_timer [OF env drv on])
next
  case ResetTask
  with en show ?thesis by (metis exec_reset_task [OF env drv on])
next
  case TxTimeout
  then show ?thesis by (metis exec_tx_timeout [OF drv on])
qed (use exec_nic [OF drv en] in auto)

text \<open>While the interface is down only three events can happen, and two of them return at once.\<close>

lemma interrupt_down:
  assumes "\<not> netif_running s"
  shows "rtl8101_interrupt E s = (IRQ_NONE, s\<lparr>tr := snd (rtl8101_get_intr_status E (tr s))\<rparr>)"
  using assms by (simp add: rtl8101_interrupt_def Let_def split: prod.split)

lemma down_inv_frame:
  assumes "drv_inv E h s" "\<not> netif_running s" "ledger t = ledger (tr s)"
  shows "drv_inv E h (s\<lparr>tr := t\<rparr>)" "drv_inv E h (s\<lparr>task := b\<rparr>)"
proof -
  have "leaks (s\<lparr>tr := t\<rparr>) = leaks s" "leaks (s\<lparr>task := b\<rparr>) = leaks s"
    by (rule leaks_frame; simp add: ledger_eqD [OF assms(3)])+
  with assms show "drv_inv E h (s\<lparr>tr := t\<rparr>)" "drv_inv E h (s\<lparr>task := b\<rparr>)"
    by (simp_all add: drv_inv_def down_inv_def rings_down_def rings_idle_def ledger_eqD [OF assms(3)])
qed

lemma exec_down:
  assumes env: "env_ok E" "irq_granted E" and drv: "drv_inv E h s" and dn: "\<not> netif_running s"
    and en: "enabled E ev s"
  shows "\<exists>s'. exec E ev s = Some s' \<and> drv_inv E h s'"
proof -
  from drv dn have d: "\<not> napi_scheduled s" "link_timer s = None" by (simp_all add: drv_inv_def down_inv_def)
  consider "ev = Open" | "ev = Interrupt" | "ev = ResetTask" using en dn d by (cases ev) auto
  then show ?thesis
  proof cases
    case 1
    with en show ?thesis by (auto intro: dev_open_inv [OF env drv dn])
  next
    case 2
    then show ?thesis
      using down_inv_frame(1) [OF drv dn] by (simp add: interrupt_down [OF dn] trace_simps)
  next
    case 3
    then show ?thesis
      using down_inv_frame(2) [OF drv dn refl] dn by (simp add: rtl8101_reset_task_def)
  qed
qed

lemma exec_ok: "machine_inv E h s \<Longrightarrow> enabled E ev s \<Longrightarrow> \<exists>s'. exec E ev s = Some s' \<and> machine_inv E h s'"
  using exec_running [of E h s ev] exec_down [of E h s ev] by (auto simp: machine_inv_def)

interpretation drv: machine "machine_inv E h" "enabled E" "exec E" for E h
  by unfold_locales (rule exec_ok)

section \<open>Traffic is first in, first out\<close>

text \<open>
  Everything that can happen while the interface is up: transmit calls, polls, interrupts, the link timer, transmit timeouts, the
  reset task, and the device. Packets that the link timer or the reset task drop from the ring are freed as well.
\<close>

definition traffic :: "env \<Rightarrow> drv_event \<Rightarrow> DrvPvt \<Rightarrow> bool" where
  "traffic E ev s \<longleftrightarrow> enabled E ev s \<and> ev \<noteq> Open \<and> ev \<noteq> Close"

fun submitted :: "drv_event \<Rightarrow> ptr list" where
  "submitted (Xmit skb) = [skb_ptr skb]"
| "submitted _ = []"

definition tx_sent :: "DrvPvt \<Rightarrow> ptr list" where
  "tx_sent s = freed (tr s)"

lemma traffic_enabled: "traffic E ev s \<Longrightarrow> enabled E ev s"
  by (simp add: traffic_def)

lemma nic_tx_queue:
  assumes "nic_tx e o1 o2 s = Some s'" shows "tx_queue s' = tx_queue s" "tr s' = tr s"
proof -
  from assms obtain descs where "s' = s\<lparr>TxDescArray := Some descs\<rparr>"
    by (auto simp: nic_tx_def bind_eq_Some_conv)
  then show "tx_queue s' = tx_queue s" "tr s' = tr s"
    by (simp_all add: tx_queue_def tx_window_def slot_skb_def cong: map_cong)
qed

lemma nic_rx_queue:
  assumes "nic_rx e o1 o2 s = Some s'" shows "tx_queue s' = tx_queue s" "tr s' = tr s"
proof -
  from assms obtain descs where "s' = s\<lparr>RxDescArray := Some descs\<rparr>"
    by (auto simp: nic_rx_def bind_eq_Some_conv)
  then show "tx_queue s' = tx_queue s" "tr s' = tr s"
    by (simp_all add: tx_queue_def tx_window_def slot_skb_def cong: map_cong)
qed

lemma exec_det: "exec E e s = Some u \<Longrightarrow> ev = e \<Longrightarrow> exec E ev s = Some s' \<Longrightarrow> u = s'"
  by simp

lemma exec_fifo_core: "same_core s s' \<Longrightarrow> tx_sent s' @ tx_queue s' = tx_sent s @ tx_queue s"
  using run_inv_same_core(3) [of s s'] ledger_eqD(4) [of "tr s'" "tr s"] by (simp add: tx_sent_def same_core_def)

lemma exec_fifo_running:
  assumes env: "env_ok E" and drv: "drv_inv E h s" and on: "netif_running s"
    and tr: "traffic E ev s" and run: "exec E ev s = Some s'"
  shows "tx_sent s' @ tx_queue s' = tx_sent s @ tx_queue s @ submitted ev"
proof (cases ev)
  case (Xmit skb)
  with tr have "enabled E (Xmit skb) s" by (simp add: traffic_def)
  from exec_xmit [OF env drv this] obtain u where u: "exec E (Xmit skb) s = Some u" "tx_queued E skb s u" .
  from u(2) Xmit show ?thesis unfolding exec_det [OF u(1) Xmit run] by (simp add: tx_queued_def tx_sent_def)
next
  case (Poll b)
  from exec_poll [OF env drv on, of b] obtain n u where u: "exec E (Poll b) s = Some u" "polled E b s n u" .
  from u(2) Poll show ?thesis unfolding exec_det [OF u(1) Poll run] by (simp add: polled_def tx_sent_def)
next
  case Interrupt
  with run exec_fifo_core [OF interrupt_core(1), of E s] show ?thesis by auto
next
  case LinkTimer
  with tr have "enabled E LinkTimer s" by (simp add: traffic_def)
  from exec_link_timer [OF env drv on this] obtain u where
    u: "exec E LinkTimer s = Some u" "freed (tr u) @ tx_queue u = freed (tr s) @ tx_queue s" .
  from u(2) LinkTimer show ?thesis unfolding exec_det [OF u(1) LinkTimer run] by (simp add: tx_sent_def)
next
  case ResetTask
  with tr have "enabled E ResetTask s" by (simp add: traffic_def)
  from exec_reset_task [OF env drv on this] obtain u where
    u: "exec E ResetTask s = Some u" "freed (tr u) @ tx_queue u = freed (tr s) @ tx_queue s" .
  from u(2) ResetTask show ?thesis unfolding exec_det [OF u(1) ResetTask run] by (simp add: tx_sent_def)
next
  case TxTimeout
  from exec_tx_timeout [OF drv on] obtain u where u: "exec E TxTimeout s = Some u" "same_core s u" .
  from exec_fifo_core [OF u(2)] TxTimeout show ?thesis unfolding exec_det [OF u(1) TxTimeout run] by simp
next
  case (NicRx e o1 o2)
  with run nic_rx_queue [of e o1 o2 s s'] show ?thesis by (simp add: tx_sent_def)
next
  case (NicTx e o1 o2)
  with run nic_tx_queue [of e o1 o2 s s'] show ?thesis by (simp add: tx_sent_def)
qed (use tr in \<open>simp_all add: traffic_def\<close>)

lemma exec_fifo:
  assumes inv: "machine_inv E h s" and tr: "traffic E ev s" and run: "exec E ev s = Some s'"
  shows "tx_sent s' @ tx_queue s' = tx_sent s @ tx_queue s @ submitted ev"
proof (cases "netif_running s")
  case True
  from inv have "env_ok E" "drv_inv E h s" by (simp_all add: machine_inv_def)
  from exec_fifo_running [OF this True tr run] show ?thesis .
next
  case False
  with inv have d: "\<not> napi_scheduled s" "link_timer s = None" by (simp_all add: machine_inv_def drv_inv_def down_inv_def)
  consider "ev = Interrupt" | "ev = ResetTask" using tr False d by (cases ev) (auto simp: traffic_def)
  then have "same_core s s' \<and> submitted ev = []"
    using run False interrupt_core(1) [of s E] by cases (auto simp: same_core_def rtl8101_reset_task_def)
  with exec_fifo_core [of s s'] show ?thesis by simp
qed

interpretation txq: packet_fifo "machine_inv E h" "traffic E" "exec E" tx_queue tx_sent submitted for E h
  by unfold_locales (auto intro: exec_ok traffic_enabled exec_fifo)

end
