(* ===== verification/Net_Dev.thy ===== *)
theory Net_Dev
  imports Driver_Machine
begin

text \<open>
  \<^verbatim>\<open>Rt8169Drv/net_stk.c\<close>: registration of the network device, and \<^verbatim>\<open>Rt8169Drv/pci_net.c\<close>: the PCI
  layer. The state of the PCI device is its driver data pointer, the trace while there is no
  network device, and the network device, whose record carries the trace while it exists.
\<close>

section \<open>State\<close>

datatype drvdata = DrvNull | DrvRegBase | DrvNetdev

record pci_dev =
  bus :: trace
  drvdata :: drvdata
  netdev :: "DrvPvt option"

definition live_trace :: "pci_dev \<Rightarrow> trace" where
  "live_trace d = (case netdev d of None \<Rightarrow> bus d | Some s \<Rightarrow> tr s)"

text \<open>
  \<^verbatim>\<open>alloc_etherdev\<close>: a zeroed structure, with the address length of Ethernet. No flag is set: the
  carrier counts as present, the queue as awake, NAPI (added later) is off.
\<close>

definition ETH_ALEN :: nat where "ETH_ALEN = 6"
definition MAX_ADDR_LEN :: nat where "MAX_ADDR_LEN = 32"

definition new_netdev :: "trace \<Rightarrow> DrvPvt" where
  "new_netdev t =
     \<lparr>tr = t,
      stats = \<lparr>rx_packets = 0, tx_packets = 0, rx_bytes = 0, tx_bytes = 0, rx_errors = 0,
               tx_dropped = 0, rx_length_errors = 0, rx_crc_errors = 0\<rparr>,
      queue_stopped = False, carrier_ok = True, netif_running = False, napi_enabled = False,
      napi_scheduled = False, dev_addr = replicate MAX_ADDR_LEN 0, perm_addr = replicate MAX_ADDR_LEN 0,
      addr_len = ETH_ALEN, trans_start = 0, lock = False, cur_rx = 0, cur_tx = 0, dirty_rx = 0,
      dirty_tx = 0, RxDescArray = None, TxDescArray = None, RxPhyAddr = 0, TxPhyAddr = 0,
      rx_skbuff = replicate NUM_RX_DESC None,
      tx_skb = replicate NUM_TX_DESC \<lparr>ri_skb = None, ri_len = 0\<rparr>,
      rx_buf_sz = 0, link_timer = None, task = False\<rparr>"

section \<open>Registration of the network device\<close>

text \<open>
  \<^verbatim>\<open>free_netdev\<close> frees the private data with the network device. A timer armed in it would fire in freed memory, since
  nothing can cancel it any more: no result, like a fault.
\<close>

definition free_netdev :: "DrvPvt \<Rightarrow> trace option" where
  "free_netdev s = (if task s \<or> link_timer s \<noteq> None then None else Some (release NetDev (tr s)))"

text \<open>
  \<^verbatim>\<open>net_register_dev\<close> takes the register window from the driver data and leaves the device there;
  with anything else in the driver data the register accesses would fault.
\<close>

definition net_register_dev :: "env \<Rightarrow> pci_dev \<Rightarrow> (int \<times> pci_dev) option" where
  "net_register_dev E d =
     (if drvdata d \<noteq> DrvRegBase then None
      else
        let (c, t) = acquire E NetDev (bus d)
        in if c \<noteq> 0 then Some (- ENOMEM, d\<lparr>bus := t\<rparr>)
           else do {
             let s = new_netdev t;
             let s = s\<lparr>tr := rtl8101_hw_reset E (tr s)\<rparr>;
             s \<leftarrow> rtl8101_get_mac_address E s;
             let (ret, t) = acquire E NetReg (tr s);
             let s = s\<lparr>tr := t\<rparr>;
             if ret \<noteq> 0 then do { t \<leftarrow> free_netdev s; Some (ret, d\<lparr>bus := t\<rparr>) }
             else Some (0, d\<lparr>drvdata := DrvNetdev, netdev := Some (netif_carrier_off s)\<rparr>)
           })"

text \<open>
  \<^verbatim>\<open>unregister_netdev\<close> closes a running interface first. \<^verbatim>\<open>flush_scheduled_work\<close> waits for work that is in the queue already
  and does not see a delayed work item whose timer is still running.
\<close>

definition unregister_netdev :: "env \<Rightarrow> DrvPvt \<Rightarrow> DrvPvt option" where
  "unregister_netdev E s = do {
     s \<leftarrow> (if netif_running s then dev_close E s else Some s);
     Some (s\<lparr>tr := release NetReg (tr s)\<rparr>)
   }"

definition net_deregister_dev :: "env \<Rightarrow> pci_dev \<Rightarrow> pci_dev option" where
  "net_deregister_dev E d =
     (if drvdata d \<noteq> DrvNetdev then None
      else do {
        s \<leftarrow> netdev d;
        let d = d\<lparr>drvdata := DrvRegBase\<rparr>;
        let s = s\<lparr>tr := FlushWork # tr s\<rparr>;
        s \<leftarrow> unregister_netdev E s;
        t \<leftarrow> free_netdev s;
        Some (d\<lparr>bus := t, netdev := None\<rparr>)
      })"

section \<open>The PCI layer\<close>

definition pci_unwind :: "pci_dev \<Rightarrow> pci_dev" where
  "pci_unwind d = d\<lparr>bus := release PciDevice (release Mwi (release Regions (release RegMap (bus d))))\<rparr>"

definition pci_disable_msi_if :: "pci_dev \<Rightarrow> pci_dev" where
  "pci_disable_msi_if d =
     (if pci_dev_msi_enabled (bus d) then d\<lparr>bus := release Msi (bus d)\<rparr> else d)"

text \<open>The part of \<^verbatim>\<open>pn_probe\<close> after the registers have been mapped.\<close>

definition pn_probe_mapped :: "env \<Rightarrow> pci_dev \<Rightarrow> (int \<times> pci_dev) option" where
  "pn_probe_mapped E d =
     (let (retval, t) = acquire E DmaMask (bus d);
          d = d\<lparr>bus := t\<rparr>
      in if retval \<noteq> 0 then Some (retval, pci_unwind d)
         else do {
           let (_, t) = acquire E Msi (bus d);
           let d = d\<lparr>bus := t, drvdata := DrvRegBase\<rparr>;
           (retval, d) \<leftarrow> net_register_dev E d;
           if retval \<noteq> 0 then
             let d = d\<lparr>drvdata := DrvNull\<rparr>;
                 d = pci_disable_msi_if d
             in Some (retval, pci_unwind d)
           else Some (0, d)
         })"

definition pn_probe :: "env \<Rightarrow> pci_dev \<Rightarrow> (int \<times> pci_dev) option" where
  "pn_probe E d =
     (let (retval, t) = acquire E PciDevice (bus d); d = d\<lparr>bus := t\<rparr>
      in if retval \<noteq> 0 then Some (retval, d)
         else
           let (retval, t) = acquire E Mwi (bus d); d = d\<lparr>bus := t\<rparr>
           in if retval \<noteq> 0 then Some (retval, d\<lparr>bus := release PciDevice (bus d)\<rparr>)
              else
                let (retval, t) = acquire E Regions (bus d); d = d\<lparr>bus := t\<rparr>
                in if retval \<noteq> 0
                   then Some (retval, d\<lparr>bus := release PciDevice (release Mwi (bus d))\<rparr>)
                   else
                     let d = d\<lparr>bus := SetMaster # bus d\<rparr>;
                         (null, t) = acquire E RegMap (bus d); d = d\<lparr>bus := t\<rparr>
                     in if null \<noteq> 0
                        then Some (- ENODEV,
                               d\<lparr>bus := release PciDevice (release Mwi (release Regions (bus d)))\<rparr>)
                        else pn_probe_mapped E d)"

definition pn_remove :: "env \<Rightarrow> pci_dev \<Rightarrow> pci_dev option" where
  "pn_remove E d = do {
     d \<leftarrow> net_deregister_dev E d;
     let d = d\<lparr>drvdata := DrvNull\<rparr>;
     let d = pci_disable_msi_if d;
     Some (pci_unwind d)
   }"

text \<open>Module initialisation and exit.\<close>

definition pn_drv_init :: "env \<Rightarrow> trace \<Rightarrow> int \<times> trace" where
  "pn_drv_init E t = acquire E PciDriver t"

definition pn_drv_exit :: "trace \<Rightarrow> trace" where
  "pn_drv_exit t = release PciDriver t"

end
