(* ===== verification/Pci_Net.thy ===== *)
theory Pci_Net
  imports Net_Dev
begin

text \<open>
  The life cycle of the Realtek driver: probing binds the device or gives back everything in the
  reverse order of acquisition, removal releases everything, and in between the driver's
  invariant holds. The driver is an instance of \<open>pci_driver\<close>.
\<close>

section \<open>The station address\<close>

definition addr_frame :: "DrvPvt \<Rightarrow> DrvPvt" where
  "addr_frame s = s\<lparr>tr := [], dev_addr := [], perm_addr := []\<rparr>"

lemma mac_addr_loop_spec:
  assumes "i + n \<le> length (dev_addr s)" "i + n \<le> length (perm_addr s)"
  shows "\<exists>s'. mac_addr_loop E n i s = Some s' \<and> addr_frame s' = addr_frame s
    \<and> ledger (tr s') = ledger (tr s)
    \<and> length (dev_addr s') = length (dev_addr s) \<and> length (perm_addr s') = length (perm_addr s)
    \<and> (\<forall>j < i. dev_addr s' ! j = dev_addr s ! j \<and> perm_addr s' ! j = perm_addr s ! j)
    \<and> (\<forall>j. i \<le> j \<and> j < i + n \<longrightarrow> dev_addr s' ! j = perm_addr s' ! j)"
  using assms
proof (induction n arbitrary: i s)
  case 0
  then show ?case by auto
next
  case (Suc n)
  let ?v = "ioread8 E (tr s) (reg MAC0 + i)"
  let ?u = "s\<lparr>tr := R8 (reg MAC0 + i) ?v # tr s, dev_addr := (dev_addr s)[i := ?v],
    perm_addr := (perm_addr s)[i := ?v]\<rparr>"
  from Suc.prems have "Suc i + n \<le> length (dev_addr ?u)" "Suc i + n \<le> length (perm_addr ?u)" by simp_all
  from Suc.IH [OF this] obtain s' where s': "mac_addr_loop E n (Suc i) ?u = Some s'"
    "addr_frame s' = addr_frame ?u" "ledger (tr s') = ledger (tr ?u)"
    "length (dev_addr s') = length (dev_addr ?u)" "length (perm_addr s') = length (perm_addr ?u)"
    "\<forall>j < Suc i. dev_addr s' ! j = dev_addr ?u ! j \<and> perm_addr s' ! j = perm_addr ?u ! j"
    "\<forall>j. Suc i \<le> j \<and> j < Suc i + n \<longrightarrow> dev_addr s' ! j = perm_addr s' ! j" by blast
  have "dev_addr s' ! j = perm_addr s' ! j" if "i \<le> j" "j < i + Suc n" for j
    using that s'(6,7) Suc.prems by (cases "j = i") (auto simp: nth_list_update)
  moreover have "mac_addr_loop E (Suc n) i s = Some s'"
    using s'(1) Suc.prems by (simp add: REG_defs Let_def)
  moreover have "addr_frame ?u = addr_frame s" by (simp add: addr_frame_def)
  ultimately show ?case using s'(2-6) by (auto simp: trace_simps)
qed

lemma get_mac_address_spec:
  assumes "addr_len s \<le> length (dev_addr s)" "addr_len s \<le> length (perm_addr s)" "dev_addr s \<noteq> []"
  obtains s' where "rtl8101_get_mac_address E s = Some s'" "addr_frame s' = addr_frame s"
    "ledger (tr s') = ledger (tr s)"
    "\<forall>j < addr_len s. dev_addr s' ! j = perm_addr s' ! j"
proof -
  let ?v = "ioread8 E (W8 (reg Cfg9346) (cfgbit Cfg9346_Unlock) # tr s) (reg MAC0 + 0)"
  let ?u = "s\<lparr>tr := W8 (reg Cfg9346) (cfgbit Cfg9346_Lock) # W8 (reg MAC0 + 0) (?v + 1)
     # R8 (reg MAC0 + 0) ?v # W8 (reg Cfg9346) (cfgbit Cfg9346_Unlock) # tr s,
     dev_addr := (dev_addr s)[0 := ?v + 1]\<rparr>"
  have "0 + addr_len s \<le> length (dev_addr ?u)" "0 + addr_len s \<le> length (perm_addr ?u)"
    using assms by simp_all
  from mac_addr_loop_spec [OF this, of E] obtain s' where "mac_addr_loop E (addr_len s) 0 ?u = Some s'"
    "addr_frame s' = addr_frame ?u" "ledger (tr s') = ledger (tr ?u)"
    "\<forall>j < addr_len s. dev_addr s' ! j = perm_addr s' ! j" by auto
  moreover have "addr_frame ?u = addr_frame s" by (simp add: addr_frame_def)
  ultimately show thesis
    using that [of s'] assms(3) by (simp add: rtl8101_get_mac_address_def REG_defs Let_def trace_simps)
qed

lemma addr_frameD:
  assumes "addr_frame s' = addr_frame s"
  shows "lock s' = lock s" "netif_running s' = netif_running s" "napi_enabled s' = napi_enabled s"
    "napi_scheduled s' = napi_scheduled s" "link_timer s' = link_timer s"
    "task s' = task s" "TxDescArray s' = TxDescArray s" "RxDescArray s' = RxDescArray s"
    "tx_skb s' = tx_skb s" "rx_skbuff s' = rx_skbuff s"
  using assms by (cases s; cases s'; simp add: addr_frame_def)+

section \<open>Registration\<close>

lemma idle_leaks_clean: "rings_idle s \<Longrightarrow> leaks s = (\<lambda>_. 0, \<lambda>_. 0) \<longleftrightarrow> clean_trace (tr s)"
  unfolding leaks_def clean_trace_def by (auto simp add: idle_leaks fun_eq_iff)

lemma register_spec:
  assumes dat: "drvdata d = DrvRegBase" and nd: "netdev d = None" and held: "held (bus d) = Some h"
    and clean: "clean_trace (bus d)"
  obtains (ok) s where "net_register_dev E d = Some (0, d\<lparr>drvdata := DrvNetdev, netdev := Some s\<rparr>)"
      "drv_inv E (NetReg # NetDev # h) s" "\<not> netif_running s"
  | (fail) c t where "net_register_dev E d = Some (c, d\<lparr>bus := t\<rparr>)" "c \<noteq> 0" "held t = Some h" "clean_trace t"
proof (cases "grant E (bus d) NetDev = 0")
  case False
  then show thesis
    using fail [of "- ENOMEM" "Denied NetDev (grant E (bus d) NetDev) # bus d"] dat held clean
    by (simp add: net_register_dev_def acquire_def Let_def ENOMEM_def)
next
  case True
  let ?n = "new_netdev (Got NetDev # bus d)"
  let ?r = "?n\<lparr>tr := rtl8101_hw_reset E (tr ?n)\<rparr>"
  have "addr_len ?r \<le> length (dev_addr ?r)" "addr_len ?r \<le> length (perm_addr ?r)" "dev_addr ?r \<noteq> []"
    by (simp_all add: new_netdev_def ETH_ALEN_def MAX_ADDR_LEN_def)
  from get_mac_address_spec [OF this, of E] obtain s where
    s: "rtl8101_get_mac_address E ?r = Some s" "addr_frame s = addr_frame ?r" "ledger (tr s) = ledger (tr ?r)" .
  note D = addr_frameD [OF s(2)]
  have led: "ledger (tr s) = ledger (Got NetDev # bus d)"
    using s(3) by (simp add: trace_simps new_netdev_def)
  let ?c = "grant E (tr s) NetReg"
  have run: "net_register_dev E d = (if ?c \<noteq> 0 then Some (?c, d\<lparr>bus := Put NetDev # Denied NetReg ?c # tr s\<rparr>)
      else Some (0, d\<lparr>drvdata := DrvNetdev, netdev := Some (s\<lparr>tr := Got NetReg # tr s, carrier_ok := False\<rparr>)\<rparr>))"
    using dat True s(1) D by (simp add: net_register_dev_def acquire_def Let_def release_def netif_defs free_netdev_def new_netdev_def)
  have hs: "held (tr s) = Some (NetDev # h)" "clean_trace (tr s)"
    using ledger_eqD(3) [OF led] clean_trace_ledger [OF led] held clean by simp_all
  show thesis
  proof (cases "?c = 0")
    case False
    then show thesis using fail [of ?c] run hs by simp
  next
    case True
    let ?s = "s\<lparr>tr := Got NetReg # tr s, carrier_ok := False\<rparr>"
    have idle: "rings_idle ?s" using D by (simp add: rings_idle_def new_netdev_def)
    then have "leaks ?s = (\<lambda>_. 0, \<lambda>_. 0)"
      using hs(2) by (simp add: idle_leaks_clean)
    with idle have "drv_inv E (NetReg # NetDev # h) ?s"
      using D hs by (simp add: drv_inv_def down_inv_def rings_down_def new_netdev_def)
    then show thesis using ok [of ?s] run True D by (simp add: new_netdev_def)
  qed
qed

section \<open>Probe and remove\<close>

text \<open>The resources of a bound device, newest first, on top of those held before.\<close>

definition pn_res :: "bool \<Rightarrow> res list \<Rightarrow> res list" where
  "pn_res msi h = (if msi then [Msi] else []) @ [RegMap, Regions, Mwi, PciDevice] @ h"

definition pn_idle :: "env \<Rightarrow> res list \<Rightarrow> pci_dev \<Rightarrow> bool" where
  "pn_idle E h d \<longleftrightarrow> env_ok E \<and> irq_granted E \<and> drvdata d = DrvNull \<and> netdev d = None
     \<and> held (bus d) = Some h \<and> clean_trace (bus d) \<and> Msi \<notin> set h"

definition pn_bound :: "env \<Rightarrow> res list \<Rightarrow> pci_dev \<Rightarrow> bool" where
  "pn_bound E h d \<longleftrightarrow> drvdata d = DrvNetdev \<and> Msi \<notin> set h
     \<and> (\<exists>s msi. netdev d = Some s \<and> machine_inv E (NetReg # NetDev # pn_res msi h) s)"

definition pn_driven :: "pci_dev \<Rightarrow> bool" where
  "pn_driven d \<longleftrightarrow> drvdata d = DrvNetdev"

text \<open>
  \<^verbatim>\<open>napi_disable\<close> in \<^verbatim>\<open>rtl8101_close\<close> waits for a scheduled poll; the ring clear must not wrap, and no reset task may be
  pending.
\<close>

definition pn_quiet :: "pci_dev \<Rightarrow> bool" where
  "pn_quiet d = (case netdev d of None \<Rightarrow> False
     | Some s \<Rightarrow> \<not> task s \<and> (netif_running s \<longrightarrow> \<not> napi_scheduled s \<and> tx_nowrap s))"

definition pn_enabled :: "env \<Rightarrow> drv_event \<Rightarrow> pci_dev \<Rightarrow> bool" where
  "pn_enabled E ev d = (case netdev d of None \<Rightarrow> False | Some s \<Rightarrow> enabled E ev s)"

definition pn_work :: "env \<Rightarrow> drv_event \<Rightarrow> pci_dev \<Rightarrow> pci_dev option" where
  "pn_work E ev d = do { s \<leftarrow> netdev d; s \<leftarrow> exec E ev s; Some (d\<lparr>netdev := Some s\<rparr>) }"

text \<open>The common tail of the error path and of removal.\<close>

lemma pn_release_spec:
  assumes "held (bus d) = Some (pn_res msi h)" "Msi \<notin> set h" "clean_trace (bus d)"
  shows "held (bus (pci_unwind (pci_disable_msi_if d))) = Some h"
    "clean_trace (bus (pci_unwind (pci_disable_msi_if d)))"
    "drvdata (pci_unwind (pci_disable_msi_if d)) = drvdata d"
    "netdev (pci_unwind (pci_disable_msi_if d)) = netdev d"
  using assms held_msi [OF assms(1)]
  by (auto simp: pci_unwind_def pci_disable_msi_if_def release_def pn_res_def split: if_splits)

lemma pn_probe_mapped_spec:
  assumes env: "env_ok E" "irq_granted E" and dat: "drvdata d = DrvNull" "netdev d = None"
    and held: "held (bus d) = Some (pn_res False h)" and clean: "clean_trace (bus d)" and msi: "Msi \<notin> set h"
  shows "\<exists>r d'. pn_probe_mapped E d = Some (r, d') \<and> (if r = 0 then pn_bound E h d' else pn_idle E h d')"
proof (cases "grant E (bus d) DmaMask = 0")
  case False
  then show ?thesis
    using assms by (auto simp: pn_probe_mapped_def acquire_def Let_def pci_unwind_def release_def
        pn_idle_def pn_res_def)
next
  case True
  let ?t = "Got DmaMask # bus d"
  let ?m = "grant E ?t Msi"
  let ?d = "d\<lparr>bus := (if ?m = 0 then Got Msi else Denied Msi ?m) # ?t, drvdata := DrvRegBase\<rparr>"
  have run: "pn_probe_mapped E d = do { (r, d) \<leftarrow> net_register_dev E ?d;
      if r \<noteq> 0 then Some (r, pci_unwind (pci_disable_msi_if (d\<lparr>drvdata := DrvNull\<rparr>))) else Some (0, d) }"
    unfolding pn_probe_mapped_def acquire_def Let_def using True by simp
  have "drvdata ?d = DrvRegBase" "netdev ?d = None" "held (bus ?d) = Some (pn_res (?m = 0) h)"
    "clean_trace (bus ?d)" using dat held clean by (simp_all add: pn_res_def)
  then show ?thesis
  proof (cases rule: register_spec [where E = E])
    case (ok s)
    then have "pn_bound E h (?d\<lparr>drvdata := DrvNetdev, netdev := Some s\<rparr>)"
      using env msi by (auto simp: pn_bound_def machine_inv_def)
    then show ?thesis using ok(1) run by simp
  next
    case (fail c t)
    let ?f = "?d\<lparr>bus := t, drvdata := DrvNull\<rparr>"
    have "held (bus ?f) = Some (pn_res (?m = 0) h)" "clean_trace (bus ?f)" using fail by simp_all
    from pn_release_spec [OF this(1) msi this(2)] have "pn_idle E h (pci_unwind (pci_disable_msi_if ?f))"
      using env dat msi by (simp add: pn_idle_def)
    then show ?thesis using fail(1,2) run by simp
  qed
qed

lemma pn_probe_spec:
  assumes "pn_idle E h d"
  shows "\<exists>r d'. pn_probe E d = Some (r, d') \<and> (if r = 0 then pn_bound E h d' else pn_idle E h d')"
proof -
  let ?t1 = "Got PciDevice # bus d"
  let ?t2 = "Got Mwi # ?t1"
  let ?t3 = "SetMaster # Got Regions # ?t2"
  consider "grant E (bus d) PciDevice \<noteq> 0"
    | "grant E (bus d) PciDevice = 0" "grant E ?t1 Mwi \<noteq> 0"
    | "grant E (bus d) PciDevice = 0" "grant E ?t1 Mwi = 0" "grant E ?t2 Regions \<noteq> 0"
    | "grant E (bus d) PciDevice = 0" "grant E ?t1 Mwi = 0" "grant E ?t2 Regions = 0" "grant E ?t3 RegMap \<noteq> 0"
    | (mapped) "grant E (bus d) PciDevice = 0" "grant E ?t1 Mwi = 0" "grant E ?t2 Regions = 0"
        "grant E ?t3 RegMap = 0" by blast
  then show ?thesis
  proof cases
    case mapped
    then have "pn_probe E d = pn_probe_mapped E (d\<lparr>bus := Got RegMap # ?t3\<rparr>)"
      by (simp add: pn_probe_def acquire_def Let_def)
    then show ?thesis
      using assms pn_probe_mapped_spec [of E "d\<lparr>bus := Got RegMap # ?t3\<rparr>" h]
      by (simp add: pn_idle_def pn_res_def)
  qed (use assms in \<open>auto simp: pn_probe_def acquire_def Let_def pn_idle_def release_def ENODEV_def\<close>)
qed

lemma deregister_spec:
  assumes b: "pn_bound E h d" and q: "pn_quiet d"
  obtains t msi where "net_deregister_dev E d = Some (d\<lparr>drvdata := DrvRegBase, bus := t, netdev := None\<rparr>)"
    "held t = Some (pn_res msi h)" "clean_trace t"
proof -
  from b obtain s msi where s: "netdev d = Some s" "drvdata d = DrvNetdev"
    "machine_inv E (NetReg # NetDev # pn_res msi h) s" by (auto simp: pn_bound_def)
  from s(3) have env: "env_ok E" and inv: "drv_inv E (NetReg # NetDev # pn_res msi h) s"
    by (simp_all add: machine_inv_def)
  let ?f = "s\<lparr>tr := FlushWork # tr s\<rparr>"
  have core: "same_core s ?f" by (simp add: same_core_def trace_simps)
  have "leaks ?f = leaks s" by (rule run_inv_same_core(2) [OF core])
  then have finv: "drv_inv E (NetReg # NetDev # pn_res msi h) ?f"
    using inv run_inv_same_core(1) [OF core]
    by (auto simp: drv_inv_def down_inv_def rings_down_def rings_idle_def)
  have "\<exists>u. (if netif_running ?f then dev_close E ?f else Some ?f) = Some u
      \<and> drv_inv E (NetReg # NetDev # pn_res msi h) u \<and> \<not> netif_running u \<and> \<not> task u"
  proof (cases "netif_running ?f")
    case True
    with q s(1) have g: "\<not> napi_scheduled ?f" "tx_nowrap ?f" by (simp_all add: pn_quiet_def tx_nowrap_def)
    from dev_close_inv [OF env finv True g] obtain u where
      "dev_close E ?f = Some u" "drv_inv E (NetReg # NetDev # pn_res msi h) u" "\<not> netif_running u" "task u = task ?f" .
    with True q s(1) show ?thesis by (simp add: pn_quiet_def)
  next
    case False
    then show ?thesis using finv q s(1) by (simp add: pn_quiet_def)
  qed
  then obtain u where u: "(if netif_running ?f then dev_close E ?f else Some ?f) = Some u"
    "drv_inv E (NetReg # NetDev # pn_res msi h) u" "\<not> netif_running u" "\<not> task u" by blast
  from u(2,3) have lt: "link_timer u = None" by (simp add: drv_inv_def down_inv_def)
  let ?t = "Put NetDev # Put NetReg # tr u"
  have "net_deregister_dev E d = Some (d\<lparr>drvdata := DrvRegBase, bus := ?t, netdev := None\<rparr>)"
    using s u(1,4) lt by (simp add: net_deregister_dev_def unregister_netdev_def free_netdev_def Let_def release_def)
  moreover have "held ?t = Some (pn_res msi h)" "clean_trace ?t"
    using u(2,3) idle_leaks_clean [of u] by (simp_all add: drv_inv_def down_inv_def rings_down_def)
  ultimately show thesis by (rule that)
qed

lemma pn_remove_spec:
  assumes b: "pn_bound E h d" and q: "pn_quiet d"
  shows "\<exists>d'. pn_remove E d = Some d' \<and> pn_idle E h d'"
proof -
  from b have msi: "Msi \<notin> set h" and env: "env_ok E" "irq_granted E"
    by (auto simp: pn_bound_def machine_inv_def)
  from deregister_spec [OF b q] obtain t m where
    r: "net_deregister_dev E d = Some (d\<lparr>drvdata := DrvRegBase, bus := t, netdev := None\<rparr>)"
      "held t = Some (pn_res m h)" "clean_trace t" .
  let ?d = "d\<lparr>bus := t, netdev := None, drvdata := DrvNull\<rparr>"
  have "held (bus ?d) = Some (pn_res m h)" "clean_trace (bus ?d)" using r by simp_all
  from pn_release_spec [OF this(1) msi this(2)] env msi
  have "pn_idle E h (pci_unwind (pci_disable_msi_if ?d))" by (simp add: pn_idle_def)
  with r(1) show ?thesis by (simp add: pn_remove_def Let_def)
qed

lemma pn_work_spec:
  assumes b: "pn_bound E h d" and en: "pn_enabled E ev d"
  shows "\<exists>d'. pn_work E ev d = Some d' \<and> pn_bound E h d'"
proof -
  from b obtain s msi where s: "netdev d = Some s" "drvdata d = DrvNetdev" "Msi \<notin> set h"
    "machine_inv E (NetReg # NetDev # pn_res msi h) s" by (auto simp: pn_bound_def)
  from en s(1) have "enabled E ev s" by (simp add: pn_enabled_def)
  from exec_ok [OF s(4) this] obtain s' where
    "exec E ev s = Some s'" "machine_inv E (NetReg # NetDev # pn_res msi h) s'" by blast
  with s show ?thesis by (auto simp: pn_work_def pn_bound_def)
qed

interpretation pn: pci_driver "pn_idle E" "pn_bound E" pn_driven pn_quiet "pn_probe E" "pn_remove E"
    "pn_enabled E" "pn_work E" for E
  by unfold_locales
    (simp add: pn_idle_def pn_driven_def, simp add: pn_bound_def pn_driven_def,
      fact pn_probe_spec, fact pn_remove_spec, fact pn_work_spec)

end
