(* ===== verification/Rx_Order.thy ===== *)
theory Rx_Order
  imports Driver_Machine
begin

text \<open>
  The receive ring as a queue. The device fills descriptors in ring order, starting behind the
  frames it has already delivered; under traffic of this kind every buffer of the ring that is not
  part of the run of finished frames at \<^verbatim>\<open>cur_rx\<close> belongs to the device, and the frames reach the
  network stack in the order in which the device wrote them, whatever the interleaving with polls,
  transmissions and interrupts and however often a refill fails for want of memory. The second
  instance of \<open>packet_fifo\<close>.
\<close>

section \<open>The slots ahead of the driver\<close>

text \<open>The slots from \<^verbatim>\<open>cur_rx\<close> on that have a buffer, and the run of finished frames among them.\<close>

definition rx_fresh :: "DrvPvt \<Rightarrow> nat list" where
  "rx_fresh s = ring_window NUM_RX_DESC (cur_rx s) (dirty_rx s + of_nat NUM_RX_DESC)"

definition rx_run :: "DrvPvt \<Rightarrow> nat list" where
  "rx_run s = takeWhile (rx_done s) (rx_fresh s)"

definition rx_order :: "DrvPvt \<Rightarrow> bool" where
  "rx_order s \<longleftrightarrow> (\<forall>e < NUM_RX_DESC. rx_skbuff s ! e \<noteq> None \<and> e \<notin> set (rx_run s)
     \<longrightarrow> nic_owned (rx_desc_at s e))"

text \<open>The lengths of the good frames of the run, which wait for the driver.\<close>

definition rx_queue :: "DrvPvt \<Rightarrow> u32 list" where
  "rx_queue s = map (snd \<circ> rx_packet s) (rx_good s (rx_run s))"

definition rx_sent :: "DrvPvt \<Rightarrow> u32 list" where
  "rx_sent s = map snd (received (tr s))"

lemma rx_order_cong:
  assumes "RxDescArray s' = RxDescArray s" "rx_skbuff s' = rx_skbuff s" "cur_rx s' = cur_rx s"
    "dirty_rx s' = dirty_rx s"
  shows "rx_run s' = rx_run s" "rx_order s' = rx_order s" "rx_queue s' = rx_queue s"
proof -
  have d: "rx_desc_at s' = rx_desc_at s" using assms(1) by (simp add: rx_desc_at_def [abs_def])
  then have "rx_done s' = rx_done s" "rx_bad s' = rx_bad s" "rx_packet s' = rx_packet s"
    using assms(2) by (simp_all add: rx_done_def [abs_def] rx_bad_def [abs_def] rx_packet_def [abs_def])
  note e = this
  show r: "rx_run s' = rx_run s" using assms(3,4) e by (simp add: rx_run_def rx_fresh_def)
  show "rx_order s' = rx_order s" "rx_queue s' = rx_queue s"
    using r d e assms(2) by (simp_all add: rx_order_def rx_queue_def rx_good_def)
qed

lemma unat_rx_fresh:
  fixes c d :: u32
  assumes "unat (c - d) \<le> NUM_RX_DESC"
  shows "unat (d + of_nat NUM_RX_DESC - c) = NUM_RX_DESC - unat (c - d)"
proof -
  have N: "unat (of_nat NUM_RX_DESC :: u32) = NUM_RX_DESC" by (simp add: NUM_RX_DESC_def)
  have "d + of_nat NUM_RX_DESC - c = of_nat NUM_RX_DESC - (c - d)" by simp
  moreover have "c - d \<le> of_nat NUM_RX_DESC" using assms N by (simp add: word_le_nat_alt)
  ultimately show ?thesis using N by (simp only: unat_sub)
qed

lemma rx_fresh_slots:
  assumes "rx_inv s"
  shows "distinct (rx_fresh s)" "e \<in> set (rx_fresh s) \<Longrightarrow> e < NUM_RX_DESC \<and> rx_skbuff s ! e \<noteq> None"
    "length (rx_fresh s) = NUM_RX_DESC - unat (cur_rx s - dirty_rx s)"
proof -
  from assms have le: "unat (cur_rx s - dirty_rx s) \<le> NUM_RX_DESC" by (simp add: rx_inv_def)
  note len = unat_rx_fresh [OF le]
  show "length (rx_fresh s) = NUM_RX_DESC - unat (cur_rx s - dirty_rx s)"
    by (simp add: rx_fresh_def len)
  show "distinct (rx_fresh s)"
    unfolding rx_fresh_def by (rule rxr.window_distinct) (simp add: len)
  have sum: "unat (cur_rx s - dirty_rx s) + unat (dirty_rx s + of_nat NUM_RX_DESC - cur_rx s) \<le> NUM_RX_DESC"
    using le len by simp
  show "e < NUM_RX_DESC \<and> rx_skbuff s ! e \<noteq> None" if "e \<in> set (rx_fresh s)"
  proof -
    from that have e: "e \<in> set (ring_window NUM_RX_DESC (cur_rx s) (dirty_rx s + of_nat NUM_RX_DESC))"
      by (simp add: rx_fresh_def)
    from rxr.window_less [OF e] rxr.window_disjoint [OF sum e] assms show ?thesis
      by (auto simp: rx_inv_def rx_window_def)
  qed
qed

lemma rx_run_slots:
  assumes "rx_inv s"
  shows "distinct (rx_run s)" "e \<in> set (rx_run s) \<Longrightarrow> e < NUM_RX_DESC \<and> rx_skbuff s ! e \<noteq> None"
    "e \<in> set (rx_run s) \<Longrightarrow> rx_done s e"
  using rx_fresh_slots [OF assms] by (auto simp: rx_run_def dest: set_takeWhileD)

section \<open>A poll takes frames from the front\<close>

lemma rx_ready_run:
  assumes "rx_inv s"
  shows "rx_ready budget s = take (unat (rx_limit budget s)) (rx_run s)"
proof -
  from assms have le: "unat (cur_rx s - dirty_rx s) \<le> NUM_RX_DESC" by (simp add: rx_inv_def)
  let ?b = "cur_rx s + rx_limit budget s"
  have "unat (?b - cur_rx s) \<le> unat (dirty_rx s + of_nat NUM_RX_DESC - cur_rx s)"
    using unat_rx_limit [OF le, of budget] unat_rx_fresh [OF le] by simp
  from rxr.window_take [OF this]
  have "rx_ready budget s = takeWhile (rx_done s) (take (unat (rx_limit budget s)) (rx_fresh s))"
    by (simp add: rx_ready_def rx_fresh_def)
  then show ?thesis by (simp add: rx_run_def takeWhile_take)
qed

lemma rx_ready_take:
  "rx_inv s \<Longrightarrow> rx_ready budget s = take (length (rx_ready budget s)) (rx_run s)"
  using rx_ready_run [of s budget] by (simp add: min_def)

text \<open>
  After a poll the run is what is left of the old one: the handled frames are gone from its front,
  and every buffer put back into the ring has gone to the device.
\<close>

text \<open>Taking \<open>k\<close> descriptors and refilling: the fresh part of the ring loses its first \<open>k\<close> slots and may grow at the end.\<close>

lemma rx_fresh_grows:
  assumes inv: "rx_inv s" and inv': "rx_inv s'"
    and kf: "k \<le> length (rx_fresh s)" and cnt: "cur_rx s' = cur_rx s + n" "unat n = k"
    and dirty: "unat (cur_rx s' - dirty_rx s') \<le> unat (cur_rx s' - dirty_rx s)"
  obtains X where "rx_fresh s' = drop k (rx_fresh s) @ X"
proof -
  have le: "unat (cur_rx s - dirty_rx s) \<le> NUM_RX_DESC" "unat (cur_rx s' - dirty_rx s') \<le> NUM_RX_DESC"
    using inv inv' by (simp_all add: rx_inv_def)
  have kl: "k \<le> unat (dirty_rx s + of_nat NUM_RX_DESC - cur_rx s)" using kf by (simp add: rx_fresh_def)
  have n: "cur_rx s + of_nat k = cur_rx s'" by (simp add: cnt(1) flip: cnt(2))
  have "unat (cur_rx s - dirty_rx s) + unat (cur_rx s' - cur_rx s) < 2 ^ 32"
    using kf rx_fresh_slots(3) [OF inv] le(1) rxr.N_less cnt by simp
  from rxr.unat_diff_add [OF this] have sum: "unat (cur_rx s' - dirty_rx s) = unat (cur_rx s - dirty_rx s) + k"
    using cnt by simp
  note wd = rxr.window_drop [OF kl, unfolded n]
  have "NUM_RX_DESC - unat (cur_rx s - dirty_rx s) - k \<le> NUM_RX_DESC - unat (cur_rx s' - dirty_rx s')"
    using dirty sum by linarith
  then have "unat (dirty_rx s + of_nat NUM_RX_DESC - cur_rx s')
      \<le> unat (dirty_rx s' + of_nat NUM_RX_DESC - cur_rx s')"
    using wd unat_rx_fresh [OF le(1)] unat_rx_fresh [OF le(2)] by simp
  from rxr.window_take [OF this] wd have "drop k (rx_fresh s) =
      take (unat (dirty_rx s + of_nat NUM_RX_DESC - cur_rx s')) (rx_fresh s')"
    by (simp add: rx_fresh_def)
  then show thesis using that by (metis append_take_drop_id)
qed

lemma rx_polled_run:
  assumes inv: "rx_inv s" "rx_order s" and inv': "rx_inv s'"
    and cnt: "unat n = length (rx_ready budget s)" "cur_rx s' = cur_rx s + n"
    and dirty: "unat (cur_rx s' - dirty_rx s') \<le> unat (cur_rx s' - dirty_rx s)"
    and ren: "rx_renewed (set (rx_ready budget s)) s s'"
  defines "k \<equiv> length (rx_ready budget s)"
  shows "rx_run s' = drop k (rx_run s)" "rx_order s'"
    "e \<in> set (drop k (rx_run s)) \<Longrightarrow> rx_skbuff s' ! e = rx_skbuff s ! e \<and> rx_desc_at s' e = rx_desc_at s e"
proof -
  let ?R = "rx_ready budget s" and ?Q = "drop k (rx_run s)"
  have split: "rx_run s = ?R @ ?Q"
    using rx_ready_take [OF inv(1), of budget] by (metis append_take_drop_id k_def)
  have notin: "e \<notin> set ?R" if "e \<in> set ?Q" for e
    using rx_run_slots(1) [OF inv(1)] that split by (metis IntI distinct_append empty_iff)
  show kept: "rx_skbuff s' ! e = rx_skbuff s ! e \<and> rx_desc_at s' e = rx_desc_at s e"
    if "e \<in> set ?Q" for e
    using ren notin [OF that] rx_run_slots(2) [OF inv(1) in_set_dropD [OF that]]
    by (simp add: rx_renewed_def)
  have done': "\<forall>e \<in> set ?Q. rx_done s' e"
    using rx_run_slots(3) [OF inv(1) in_set_dropD] kept by (simp add: rx_done_def)
  have owned: "nic_owned (rx_desc_at s' e)"
    if "e < NUM_RX_DESC" "rx_skbuff s' ! e \<noteq> None" "e \<notin> set ?Q" for e
  proof (cases "e \<in> set ?R \<or> rx_skbuff s ! e = None")
    case True
    with ren that(2) show ?thesis by (simp add: rx_renewed_def)
  next
    case False
    then have "e \<notin> set (rx_run s)" using that(3) split by (metis Un_iff set_append)
    with inv(2) False that(1) have "nic_owned (rx_desc_at s e)" by (simp add: rx_order_def)
    with ren False show ?thesis by (simp add: rx_renewed_def)
  qed
  have kn: "k \<le> length (rx_run s)" using split by (metis k_def length_append le_add1)
  then have "drop k (rx_fresh s) = ?Q @ dropWhile (rx_done s) (rx_fresh s)"
    unfolding rx_run_def by (metis drop_append diff_is_0_eq drop_0 takeWhile_dropWhile_id)
  moreover obtain X where "rx_fresh s' = drop k (rx_fresh s) @ X"
  proof (rule rx_fresh_grows [OF inv(1) inv'])
    show "k \<le> length (rx_fresh s)" using kn length_takeWhile_le [of "rx_done s"]
      unfolding rx_run_def by (rule order_trans)
    show "cur_rx s' = cur_rx s + n" "unat n = k" using cnt by (simp_all add: k_def)
  qed (rule dirty)
  ultimately obtain Y where fresh': "rx_fresh s' = ?Q @ Y" by simp
  have "\<forall>e \<in> set Y. \<not> rx_done s' e"
  proof
    fix e assume "e \<in> set Y"
    then have "e \<in> set (rx_fresh s')" "e \<notin> set ?Q"
      using fresh' rx_fresh_slots(1) [OF inv'] by auto
    with rx_fresh_slots(2) [OF inv'] owned show "\<not> rx_done s' e" by (simp add: rx_done_def)
  qed
  from takeWhile_append_exact [OF done' this] show run': "rx_run s' = ?Q"
    by (simp add: rx_run_def fresh')
  show "rx_order s'" unfolding rx_order_def run' using owned by blast
qed

section \<open>The device adds frames at the back\<close>

definition nic_next :: "nat \<Rightarrow> DrvPvt \<Rightarrow> bool" where
  "nic_next e s \<longleftrightarrow> length (rx_run s) < length (rx_fresh s) \<and> e = rx_fresh s ! length (rx_run s)"

fun arrived :: "drv_event \<Rightarrow> u32 list" where
  "arrived (NicRx e o1 o2) = (if o1 AND dbit RxRES = 0 then [rx_pkt_len o1] else [])"
| "arrived _ = []"

lemma nic_rx_desc:
  assumes "rx_ring_ok s" "e < NUM_RX_DESC" "nic_rx e o1 o2 s = Some s'"
  shows "rx_desc_at s' x = (if x = e then (rx_desc_at s e)\<lparr>opts1 := o1, opts2 := o2\<rparr> else rx_desc_at s x)"
    "rx_skbuff s' = rx_skbuff s" "rx_fresh s' = rx_fresh s" "tr s' = tr s"
  using assms by (auto simp: nic_rx_def rx_desc_at_def rx_fresh_def nth_list_update elim!: rx_ring_okE)

lemma nic_rx_run:
  assumes inv: "rx_inv s" "rx_order s" and nxt: "nic_next e s" and ok: "nic_rx_ok e o1 s"
    and run: "nic_rx e o1 o2 s = Some s'"
  shows "rx_run s' = rx_run s @ [e]" "rx_order s'" "rx_queue s' = rx_queue s @ arrived (NicRx e o1 o2)"
proof -
  from inv(1) have ring: "rx_ring_ok s" by (simp add: rx_inv_def)
  from ok have e: "e < NUM_RX_DESC" and o1: "o1 AND dbit DescOwn = 0" by (simp_all add: nic_rx_ok_def)
  note d = nic_rx_desc [OF ring e run]
  let ?k = "length (rx_run s)" and ?Y = "drop (Suc (length (rx_run s))) (rx_fresh s)"
  have "rx_run s = take ?k (rx_fresh s)" unfolding rx_run_def by (rule takeWhile_eq_take)
  with nxt have fresh: "rx_fresh s = (rx_run s @ [e]) @ ?Y"
    unfolding nic_next_def by (metis id_take_nth_drop append.assoc append_Cons append_Nil)
  with rx_fresh_slots(1) [OF inv(1)] have dis: "distinct ((rx_run s @ [e]) @ ?Y)" by metis
  have desc: "rx_desc_at s' x = rx_desc_at s x" if "x \<in> set (rx_run s)" for x
    using dis that by (auto simp: d(1))
  have "rx_done s' e" using o1 by (simp add: rx_done_def d(1) nic_owned_def)
  then have "\<forall>x \<in> set (rx_run s @ [e]). rx_done s' x"
    using rx_run_slots(3) [OF inv(1)] desc by (auto simp: rx_done_def)
  moreover have owned: "nic_owned (rx_desc_at s' x)"
    if "x < NUM_RX_DESC" "rx_skbuff s ! x \<noteq> None" "x \<notin> set (rx_run s @ [e])" for x
    using that inv(2) by (auto simp: d(1) rx_order_def)
  have "x < NUM_RX_DESC \<and> rx_skbuff s ! x \<noteq> None \<and> x \<notin> set (rx_run s @ [e])" if "x \<in> set ?Y" for x
    using rx_fresh_slots(2) [OF inv(1) in_set_dropD [OF that]] dis that by (metis IntI distinct_append empty_iff)
  with owned have "\<forall>x \<in> set ?Y. \<not> rx_done s' x" by (simp add: rx_done_def)
  ultimately have "takeWhile (rx_done s') ((rx_run s @ [e]) @ ?Y) = rx_run s @ [e]"
    by (rule takeWhile_append_exact)
  with fresh show run': "rx_run s' = rx_run s @ [e]" unfolding rx_run_def [of s'] d(3) by metis
  show "rx_order s'" unfolding rx_order_def run' d(2) using owned by blast
  have "rx_good s' (rx_run s) = rx_good s (rx_run s)"
    unfolding rx_good_def by (rule filter_cong) (simp_all add: rx_bad_def desc)
  moreover have "map (snd \<circ> rx_packet s') (rx_good s (rx_run s)) = map (snd \<circ> rx_packet s) (rx_good s (rx_run s))"
    by (rule map_cong) (auto simp: rx_good_def rx_packet_def desc)
  ultimately show "rx_queue s' = rx_queue s @ arrived (NicRx e o1 o2)"
    unfolding rx_queue_def run' by (simp add: rx_good_def rx_bad_def rx_packet_def d(1))
qed

section \<open>Frames arrive in order\<close>

text \<open>
  All events but those that open and close the interface and the loss of the link, which resets the
  ring indices under the frames still in the ring. The device writes the next descriptor, not any.
\<close>

definition rx_traffic :: "env \<Rightarrow> drv_event \<Rightarrow> DrvPvt \<Rightarrow> bool" where
  "rx_traffic E ev s \<longleftrightarrow> enabled E ev s \<and>
     (case ev of
        NicRx e o1 o2 \<Rightarrow> nic_next e s
      | LinkTimer \<Rightarrow> carrier_ok s \<longrightarrow> fst (phy_link_status_on E (tr s))
      | Open \<Rightarrow> False
      | Close \<Rightarrow> False
      | _ \<Rightarrow> True)"

lemma rx_queue_polled:
  assumes run': "rx_run s' = drop k (rx_run s)"
    and kept: "\<And>e. e \<in> set (drop k (rx_run s)) \<Longrightarrow>
      rx_skbuff s' ! e = rx_skbuff s ! e \<and> rx_desc_at s' e = rx_desc_at s e"
  shows "map (snd \<circ> rx_packet s) (rx_good s (take k (rx_run s))) @ rx_queue s' = rx_queue s"
proof -
  let ?Q = "drop k (rx_run s)"
  have "rx_good s' ?Q = rx_good s ?Q"
    unfolding rx_good_def by (rule filter_cong) (simp_all add: rx_bad_def kept)
  moreover have "map (snd \<circ> rx_packet s') (rx_good s ?Q) = map (snd \<circ> rx_packet s) (rx_good s ?Q)"
    by (rule map_cong) (auto simp: rx_good_def rx_packet_def kept)
  ultimately have "rx_queue s' = map (snd \<circ> rx_packet s) (rx_good s ?Q)"
    by (simp add: rx_queue_def run')
  then show ?thesis
    unfolding rx_queue_def rx_good_def by (simp flip: map_append filter_append)
qed

lemma poll_rx_fifo:
  assumes rx: "rx_inv s" "rx_order s" "rx_inv s'"
    and cnt: "unat n = length (rx_ready budget s)" "cur_rx s' = cur_rx s + n"
    and dirty: "unat (cur_rx s' - dirty_rx s') \<le> unat (cur_rx s' - dirty_rx s)"
    and ren: "rx_renewed (set (rx_ready budget s)) s s'"
    and rcv: "received (tr s') = received (tr s) @ map (rx_packet s) (rx_good s (rx_ready budget s))"
  shows "rx_order s' \<and> rx_sent s' @ rx_queue s' = rx_sent s @ rx_queue s"
proof -
  note R = rx_polled_run [OF rx cnt dirty ren]
  from rx_queue_polled [OF R(1,3)] rx_ready_take [OF rx(1), of budget] R(2) rcv show ?thesis
    by (simp add: rx_sent_def)
qed

text \<open>The reset task polls without a limit, so that nothing is left of the run.\<close>

lemma rx_ready_all:
  assumes "rx_inv s"
  shows "rx_ready (NOT 0) s = rx_run s"
proof -
  have "unat (cur_rx s - dirty_rx s) \<le> NUM_RX_DESC" using assms by (simp add: rx_inv_def)
  moreover have "rx_limit (NOT 0) s = of_nat NUM_RX_DESC + dirty_rx s - cur_rx s"
    by (simp add: rx_limit_def min_def)
  ultimately show ?thesis by (simp add: rx_ready_def rx_run_def rx_fresh_def algebra_simps)
qed

lemma rx_run_empty:
  assumes "rx_inv s" "\<forall>e < NUM_RX_DESC. rx_skbuff s ! e \<noteq> None \<longrightarrow> nic_owned (rx_desc_at s e)"
  shows "rx_run s = []" "rx_order s" "rx_queue s = []"
proof -
  have "\<forall>e \<in> set (rx_fresh s). \<not> rx_done s e"
    using assms rx_fresh_slots(2) [OF assms(1)] by (auto simp: rx_done_def)
  then show r: "rx_run s = []" unfolding rx_run_def by (cases "rx_fresh s") simp_all
  show "rx_order s" "rx_queue s = []" using assms(2) r by (simp_all add: rx_order_def rx_queue_def rx_good_def)
qed

lemma reset_rx_fifo:
  assumes rx: "rx_inv s" "rx_order s" "rx_inv s'" and dr: "reset_drained E s s'"
  shows "rx_order s' \<and> rx_queue s' = [] \<and> rx_sent s' = rx_sent s @ rx_queue s"
proof -
  let ?u = "s\<lparr>tr := rtl8101_disable_n_clear_interrupts E (SyncIrq # tr s)\<rparr>"
  from dr obtain n s1 where p: "rx_polled E (NOT 0) ?u n s1" and
    e: "RxDescArray s' = RxDescArray s1" "rx_skbuff s' = rx_skbuff s1" "received (tr s') = received (tr s1)"
    by (auto simp: reset_drained_def)
  have u: "rx_inv ?u" "rx_order ?u" "rx_queue ?u = rx_queue s" "rx_sent ?u = rx_sent s"
    using rx rx_inv_cong [of ?u s] rx_order_cong [of ?u s]
    by (simp_all add: rx_sent_def ledger_eqD(5) [OF mac_ledger(2)])
  from p have c: "rx_inv s1" "unat n = length (rx_ready (NOT 0) ?u)" "cur_rx s1 = cur_rx ?u + n"
    "unat (cur_rx s1 - dirty_rx s1) \<le> unat (cur_rx s1 - dirty_rx ?u)"
    "rx_renewed (set (rx_ready (NOT 0) ?u)) ?u s1"
    "received (tr s1) = received (tr ?u) @ map (rx_packet ?u) (rx_good ?u (rx_ready (NOT 0) ?u))"
    unfolding rx_polled_def by blast+
  note R = rx_polled_run [OF u(1,2) c(1-5)]
  have r1: "rx_run s1 = []" using R(1) rx_ready_all [OF u(1)] by simp
  then have "\<forall>e < NUM_RX_DESC. rx_skbuff s1 ! e \<noteq> None \<longrightarrow> nic_owned (rx_desc_at s1 e)"
    using R(2) by (simp add: rx_order_def)
  then have "\<forall>e < NUM_RX_DESC. rx_skbuff s' ! e \<noteq> None \<longrightarrow> nic_owned (rx_desc_at s' e)"
    using e by (simp add: rx_desc_at_def)
  note R' = rx_run_empty [OF rx(3) this]
  have "rx_queue s1 = []" using r1 by (simp add: rx_queue_def rx_good_def)
  then show ?thesis
    using poll_rx_fifo [OF u(1,2) c] R'(2,3) u(3,4) e(3) by (simp add: rx_sent_def)
qed

lemma link_timer_rx:
  assumes "\<not> lock s" "carrier_ok s \<longrightarrow> fst (phy_link_status_on E (tr s))" "rtl8101_link_timer E s = Some s'"
  shows "RxDescArray s' = RxDescArray s" "rx_skbuff s' = rx_skbuff s" "cur_rx s' = cur_rx s"
    "dirty_rx s' = dirty_rx s" "received (tr s') = received (tr s)"
  using assms ledger_eqD(5) [OF phy_link_status_ledger, of E "tr s"] ledger_eqD(5) [OF hw_init_trace_ledger]
  by (auto simp: rtl8101_link_timer_def spin_lock_def spin_unlock_def link_status_cases Let_def
      split: prod.splits if_splits)

lemma exec_rx_same:
  assumes "RxDescArray s' = RxDescArray s" "rx_skbuff s' = rx_skbuff s" "cur_rx s' = cur_rx s"
    "dirty_rx s' = dirty_rx s" "received (tr s') = received (tr s)" "rx_order s"
  shows "rx_order s' \<and> rx_sent s' @ rx_queue s' = rx_sent s @ rx_queue s"
  using rx_order_cong [OF assms(1-4)] assms(5-) by (simp add: rx_sent_def)

lemma exec_rx_core:
  assumes "same_core s s'" "rx_order s"
  shows "rx_order s' \<and> rx_sent s' @ rx_queue s' = rx_sent s @ rx_queue s"
  using assms ledger_eqD(5) [of "tr s'" "tr s"] by (intro exec_rx_same) (simp_all add: same_core_def)

lemma exec_rx_poll:
  assumes env: "env_ok E" and drv: "drv_inv E h s" "rx_order s" and on: "netif_running s"
    and run: "exec E (Poll b) s = Some s'"
  shows "rx_order s' \<and> rx_sent s' @ rx_queue s' = rx_sent s @ rx_queue s"
proof -
  from exec_poll [OF env drv(1) on, of b] obtain n u where
    u: "exec E (Poll b) s = Some u" "polled E b s n u" "run_inv E h u" .
  note p = u(2,3) [unfolded exec_det [OF u(1) refl run]]
  from p(1) have c: "unat n = length (rx_ready b s)" "cur_rx s' = cur_rx s + n"
    "unat (cur_rx s' - dirty_rx s') \<le> unat (cur_rx s' - dirty_rx s)" "rx_renewed (set (rx_ready b s)) s s'"
    "received (tr s') = received (tr s) @ map (rx_packet s) (rx_good s (rx_ready b s))"
    unfolding polled_def by blast+
  have "rx_inv s" "rx_inv s'" using drv_inv_running [OF drv(1) on] p(2) by (simp_all add: run_inv_def)
  from poll_rx_fifo [OF this(1) drv(2) this(2) c] show ?thesis .
qed

lemma exec_rx_reset:
  assumes env: "env_ok E" and drv: "drv_inv E h s" "rx_order s" and on: "netif_running s"
    and en: "enabled E ResetTask s" and run: "exec E ResetTask s = Some s'"
  shows "rx_order s' \<and> rx_sent s' @ rx_queue s' = rx_sent s @ rx_queue s"
proof -
  let ?s = "s\<lparr>task := False\<rparr>"
  from exec_reset_task [OF env drv(1) on en] obtain u where
    u: "exec E ResetTask s = Some u" "reset_drained E ?s u" "run_inv E h u" .
  note p = u(2,3) [unfolded exec_det [OF u(1) refl run]]
  have "rx_inv ?s" "rx_order ?s" "rx_inv s'"
    using drv_inv_running [OF drv(1) on] drv(2) p(2) rx_inv_cong [of ?s s] rx_order_cong [of ?s s]
    by (simp_all add: run_inv_def)
  from reset_rx_fifo [OF this p(1)] rx_order_cong(3) [of ?s s] show ?thesis by (simp add: rx_sent_def)
qed

lemma exec_rx_fifo_running:
  assumes env: "env_ok E" and drv: "drv_inv E h s" "rx_order s" and on: "netif_running s"
    and tr: "rx_traffic E ev s" and run: "exec E ev s = Some s'" and drv': "drv_inv E h s'"
  shows "rx_order s' \<and> rx_sent s' @ rx_queue s' = rx_sent s @ rx_queue s @ arrived ev"
proof (cases ev)
  case (Xmit skb)
  with tr have "enabled E (Xmit skb) s" by (simp add: rx_traffic_def)
  from exec_xmit [OF env drv(1) this] obtain u where u: "exec E (Xmit skb) s = Some u" "tx_queued E skb s u" .
  note q = u(2) [unfolded exec_det [OF u(1) Xmit run]]
  then have "tx_path_frame s' = tx_path_frame s" "received (tr s') = received (tr s)" by (simp_all add: tx_queued_def)
  from exec_rx_same [OF tx_path_frameD(3,4,1,2) [OF this(1)] this(2) drv(2)] Xmit show ?thesis by simp
next
  case (Poll b)
  from exec_rx_poll [OF env drv on run [unfolded Poll]] Poll show ?thesis by simp
next
  case Interrupt
  have "same_core s s'" using interrupt_core(1) [of s E] run Interrupt by auto
  from exec_rx_core [OF this drv(2)] Interrupt show ?thesis by simp
next
  case LinkTimer
  with tr run have "carrier_ok s \<longrightarrow> fst (phy_link_status_on E (tr s))" "rtl8101_link_timer E s = Some s'"
    by (simp_all add: rx_traffic_def)
  from exec_rx_same [OF link_timer_rx [OF _ this] drv(2)] LinkTimer drv_inv_running [OF drv(1) on] show ?thesis by simp
next
  case ResetTask
  with tr have "enabled E ResetTask s" by (simp add: rx_traffic_def)
  from exec_rx_reset [OF env drv on this run [unfolded ResetTask]] ResetTask show ?thesis by simp
next
  case TxTimeout
  from exec_tx_timeout [OF drv(1) on] obtain u where u: "exec E TxTimeout s = Some u" "same_core s u" .
  from exec_rx_core [OF u(2) [unfolded exec_det [OF u(1) TxTimeout run]] drv(2)] TxTimeout show ?thesis by simp
next
  case (NicRx e o1 o2)
  with tr run have g: "nic_next e s" "nic_rx_ok e o1 s" "nic_rx e o1 o2 s = Some s'"
    by (simp_all add: rx_traffic_def)
  have "rx_inv s" using drv_inv_running [OF drv(1) on] by (simp add: run_inv_def)
  from nic_rx_run [OF this drv(2) g] nic_rx_queue(2) [OF g(3)] NicRx show ?thesis by (simp add: rx_sent_def)
next
  case (NicTx e o1 o2)
  with run obtain descs where "s' = s\<lparr>TxDescArray := Some descs\<rparr>"
    by (auto simp: nic_tx_def bind_eq_Some_conv)
  with exec_rx_same [of s' s] NicTx drv(2) show ?thesis by simp
qed (use tr in \<open>simp_all add: rx_traffic_def\<close>)

lemma exec_rx_fifo_down:
  assumes drv: "drv_inv E h s" "rx_order s" and dn: "\<not> netif_running s"
    and tr: "rx_traffic E ev s" and run: "exec E ev s = Some s'"
  shows "rx_order s' \<and> rx_sent s' @ rx_queue s' = rx_sent s @ rx_queue s @ arrived ev"
proof -
  from drv dn have "\<not> napi_scheduled s" "link_timer s = None" by (simp_all add: drv_inv_def down_inv_def)
  with tr dn consider "ev = Interrupt" | "ev = ResetTask" by (cases ev) (auto simp: rx_traffic_def)
  then show ?thesis
  proof cases
    case 1
    have "same_core s s'" using interrupt_core(1) [of s E] run 1 by auto
    from exec_rx_core [OF this drv(2)] 1 show ?thesis by simp
  next
    case 2
    with run dn have "same_core s s'" by (auto simp: rtl8101_reset_task_def same_core_def)
    from exec_rx_core [OF this drv(2)] 2 show ?thesis by simp
  qed
qed

lemma exec_rx_ok:
  assumes inv: "machine_inv E h s" "rx_order s" and tr: "rx_traffic E ev s"
  obtains s' where "exec E ev s = Some s'" "machine_inv E h s'" "rx_order s'"
    "rx_sent s' @ rx_queue s' = rx_sent s @ rx_queue s @ arrived ev"
proof -
  from tr have "enabled E ev s" by (simp add: rx_traffic_def)
  from exec_ok [OF inv(1) this] obtain s' where s': "exec E ev s = Some s'" "machine_inv E h s'" by blast
  from inv s'(2) have i: "env_ok E" "drv_inv E h s" "drv_inv E h s'" by (simp_all add: machine_inv_def)
  with that s' exec_rx_fifo_running [OF i(1,2) inv(2) _ tr s'(1) i(3)]
    exec_rx_fifo_down [OF i(2) inv(2) _ tr s'(1)] show thesis by blast
qed

interpretation rxf: packet_fifo "\<lambda>s. machine_inv E h s \<and> rx_order s" "rx_traffic E" "exec E"
    rx_queue rx_sent arrived for E h
  by unfold_locales (use exec_rx_ok in \<open>metis option.inject\<close>)+

end
