(* ===== verification/Example_Env.thy ===== *)
theory Example_Env
  imports Kernel_Env
begin

text \<open>
  A concrete kernel and device at which the theorems are applied: every request is granted, every
  register reads 2 (so that the link is up and no reset is pending), a new packet is named by the
  length of the trace, packet \<open>p\<close> is mapped at \<open>4096 * p\<close>, and user copies succeed.
\<close>

definition env0 :: env where
  "env0 = \<lparr>ioread8 = \<lambda>_ _. 2, ioread16 = \<lambda>_ _. 2, ioread32 = \<lambda>_ _. 2, grant = \<lambda>_ _. 0,
     coherent = \<lambda>_ _. ([], 4096), alloc_skb = \<lambda>t _. Some (length t),
     map_addr = \<lambda>_ p. of_nat (4096 * p), kmalloc_mem = \<lambda>_ _. replicate 256 0,
     user_copied = \<lambda>_ n. n, jiffies = \<lambda>_. 0, HZ = 250, MAX_SKB_FRAGS = 17,
     MII_BMCR = 0, BMCR_ANENABLE = 0x1000, BMCR_PDOWN = 0x0800\<rparr>"

text \<open>The same kernel, refusing one kind of resource.\<close>

definition refusing :: "res \<Rightarrow> env" where
  "refusing r = env0\<lparr>grant := \<lambda>_ q. if q = r then - 16 else 0\<rparr>"

end
