(* ===== verification/Examples.thy ===== *)
theory Examples
  imports Pci_Net Rx_Order Example_Env
begin

text \<open>
  Concrete states of the Realtek driver in the example kernel, at which its theorems are applied.
\<close>

lemma env0_ok: "env_ok env0" "irq_granted env0" "skbs_available env0"
  by (simp_all add: env_ok_def irq_granted_def skbs_available_def env0_def NUM_TX_DESC_def)

lemma refusing_ok: "env_ok (refusing r)" "r \<noteq> Irq \<Longrightarrow> irq_granted (refusing r)"
  by (simp_all add: env_ok_def irq_granted_def refusing_def env0_def NUM_TX_DESC_def)

section \<open>A device that is down\<close>

definition dev0 :: DrvPvt where
  "dev0 = (new_netdev [])\<lparr>carrier_ok := False\<rparr>"

lemma dev0_idle: "rings_idle dev0" "rings_down dev0"
  by (simp_all add: rings_idle_def rings_down_def dev0_def new_netdev_def)

lemma dev0_inv: "drv_inv E [] dev0" "\<not> netif_running dev0"
proof -
  have "leaks dev0 = (\<lambda>_. 0, \<lambda>_. 0)"
    using idle_leaks_clean [OF dev0_idle(1)] by (simp add: dev0_def new_netdev_def clean_trace_def)
  with dev0_idle show "drv_inv E [] dev0" "\<not> netif_running dev0"
    by (simp_all add: drv_inv_def down_inv_def dev0_def new_netdev_def)
qed

lemma dev0_machine: "machine_inv env0 [] dev0"
  by (simp add: machine_inv_def env0_ok dev0_inv)

section \<open>A running device, with and without link\<close>

text \<open>An interface brought up, with the link found up, and with one packet handed to the device.\<close>

definition up0 :: DrvPvt where "up0 = the (dev_open env0 dev0)"

lemma dev0_task: "\<not> task dev0"
  by (simp add: dev0_def new_netdev_def)

definition link0 :: DrvPvt where "link0 = the (exec env0 LinkTimer up0)"

definition skb0 :: sk_buff where "skb0 = \<lparr>skb_ptr = 7, skb_len = 60, nr_frags = 0\<rparr>"

definition sent0 :: DrvPvt where "sent0 = the (exec env0 (Xmit skb0) link0)"

lemma skb0_ok: "skb_ok env0 skb0"
  by (simp add: skb_ok_def skb0_def env0_def)

lemma open_up0: "dev_open env0 dev0 = Some up0" "rings_up up0" "\<not> queue_stopped up0"
  "netif_running up0" "link_timer up0 \<noteq> None" "\<not> task up0" "\<not> napi_scheduled up0" "\<not> carrier_ok up0"
proof -
  let ?s = "dev0\<lparr>netif_running := True\<rparr>"
  have "rings_down ?s" "\<not> napi_enabled ?s" "\<not> task ?s" "held (tr ?s) = Some []"
    by (simp_all add: rings_down_def rings_idle_def dev0_def new_netdev_def)
  from env0_ok(1) this have "\<exists>s'. rtl8101_open env0 ?s = Some (0, s') \<and> open_up env0 [] s'
    \<and> same_flags ?s s' \<and> carrier_ok s' = carrier_ok ?s"
  proof (cases rule: open_spec)
    case (nomem s')
    then show ?thesis using env0_ok(3) by (simp add: plentiful_def env0_def)
  next
    case (noirq c s' ms)
    then show ?thesis by (simp add: env0_def)
  qed blast
  then show "dev_open env0 dev0 = Some up0" "rings_up up0" "\<not> queue_stopped up0"
    "netif_running up0" "link_timer up0 \<noteq> None" "\<not> task up0" "\<not> napi_scheduled up0" "\<not> carrier_ok up0"
    by (auto simp: up0_def dev_open_def open_up_def same_flags_def dev0_def new_netdev_def)
qed

lemma up0_inv: "machine_inv env0 [] up0" "run_inv env0 [] up0" "\<not> lock up0"
proof -
  from dev_open_inv [OF env0_ok(1,2) dev0_inv dev0_task] open_up0(1) have "drv_inv env0 [] up0" by (metis option.inject)
  with open_up0(4) show "machine_inv env0 [] up0" "run_inv env0 [] up0" "\<not> lock up0"
    by (simp_all add: machine_inv_def env0_ok drv_inv_def)
qed

lemma up0_link_enabled: "enabled env0 LinkTimer up0"
  using open_up0 by (simp add: rings_up_def tx_nowrap_def NUM_TX_DESC_def)

lemma link0: "exec env0 LinkTimer up0 = Some link0" "machine_inv env0 [] link0" "carrier_ok link0"
  "netif_running link0" "\<not> queue_stopped link0" "run_inv env0 [] link0" "\<not> lock link0"
  "tx_queue link0 = []" "\<not> napi_scheduled link0" "cur_tx link0 = 0" "dirty_tx link0 = 0"
  "cur_rx link0 = 0" "dirty_rx link0 = 0" "\<forall>e < NUM_RX_DESC. nic_owned (rx_desc_at link0 e)"
  "\<not> task link0"
proof -
  from exec_ok [OF up0_inv(1) up0_link_enabled] show run: "exec env0 LinkTimer up0 = Some link0"
    and inv: "machine_inv env0 [] link0" by (auto simp: link0_def)
  have on: "phy_link_status_on env0 t = (True, R8 (reg PHYstatus) 2 # t)" for t
    by (simp add: phy_link_status_on_def REG_defs env0_def)
  have "\<exists>t lt. exec env0 LinkTimer up0 = Some (up0\<lparr>tr := t, queue_stopped := False,
      carrier_ok := True, lock := False, link_timer := lt\<rparr>)"
    using up0_inv(3) open_up0(8)
    by (simp add: rtl8101_link_timer_def spin_lock_def spin_unlock_def link_status_cases on Let_def) blast
  with run obtain t lt where "link0 = up0\<lparr>tr := t, queue_stopped := False, carrier_ok := True,
      lock := False, link_timer := lt\<rparr>" by auto
  note eq = arg_cong [OF this]
  show "\<forall>e < NUM_RX_DESC. nic_owned (rx_desc_at link0 e)"
    using eq [of RxDescArray] open_up0(2) by (simp add: rings_up_def rx_desc_at_def)
  show "\<not> task link0" using eq [of task] open_up0(6) by simp
  show "carrier_ok link0" "\<not> queue_stopped link0" "\<not> lock link0"
    using eq [of carrier_ok] eq [of queue_stopped] eq [of lock] by simp_all
  show n: "netif_running link0" using eq [of netif_running] open_up0(4) by simp
  show "run_inv env0 [] link0" using inv n by (simp add: machine_inv_def drv_inv_def)
  show i: "cur_tx link0 = 0" "dirty_tx link0 = 0" "cur_rx link0 = 0" "dirty_rx link0 = 0"
    using eq [of cur_tx] eq [of dirty_tx] eq [of cur_rx] eq [of dirty_rx] open_up0(2)
    by (simp_all add: rings_up_def)
  then show "tx_queue link0 = []" by (simp add: tx_queue_def tx_window_def)
  show "\<not> napi_scheduled link0" using eq [of napi_scheduled] open_up0(7) by simp
qed

text \<open>The receive ring of the running device is ready for a first frame, of 64 bytes.\<close>

lemma link0_rx: "rx_order link0" "rx_queue link0 = []" "nic_next 0 link0" "nic_rx_ok 0 64 link0"
proof -
  have rx: "rx_inv link0" using link0(6) by (simp add: run_inv_def)
  note e = rx_run_empty [OF rx] link0(14)
  show "rx_order link0" "rx_queue link0 = []" using e by blast+
  have "rx_fresh link0 = [0..<NUM_RX_DESC]"
    using link0(12,13) by (auto simp: rx_fresh_def ring_window_def NUM_RX_DESC_def intro: map_idI)
  moreover have "rx_run link0 = []" using e by blast
  ultimately show "nic_next 0 link0" using rxr.N_pos by (simp add: nic_next_def)
  from rx obtain descs where d: "RxDescArray link0 = Some descs" "rx_slot_ok 0 (descs ! 0) (rx_skbuff link0 ! 0)"
    using rxr.N_pos by (auto simp: rx_inv_def elim!: rx_ring_okE)
  then have "\<not> ring_end (rx_desc_at link0 0)" by (simp add: rx_slot_ok_def rx_desc_at_def NUM_RX_DESC_def)
  then have z: "opts1 (rx_desc_at link0 0) AND dbit RingEnd = 0" unfolding ring_end_def by blast
  have "64 AND dbit RingEnd = opts1 (rx_desc_at link0 0) AND dbit RingEnd" unfolding z by simp
  then show "nic_rx_ok 0 64 link0"
    using link0(14) rxr.N_pos
    by (simp add: nic_rx_ok_def rx_status_ok_def RX_BUF_SIZE_def)
qed

lemma sent0: "exec env0 (Xmit skb0) link0 = Some sent0" "machine_inv env0 [] sent0"
  "tx_queue sent0 = [7]" "run_inv env0 [] sent0" "\<not> lock sent0" "dirty_tx sent0 = 0" "cur_tx sent0 = 1"
  "netif_running sent0" "\<not> napi_scheduled sent0" "cur_rx sent0 = 0" "dirty_rx sent0 = 0" "carrier_ok sent0"
  "tx_desc_at sent0 0 = \<lparr>opts1 = tx_opts1 60 0, opts2 = 0, addr = 28672\<rparr>"
proof -
  have en: "enabled env0 (Xmit skb0) link0" using link0 skb0_ok by simp
  from exec_ok [OF link0(2) en] show run: "exec env0 (Xmit skb0) link0 = Some sent0"
    and inv: "machine_inv env0 [] sent0" by (auto simp: sent0_def)
  from start_xmit_inv [OF env0_ok(1) link0(6,7,3,5) skb0_ok] obtain s' where
    "rtl8101_start_xmit env0 skb0 link0 = Some (NETDEV_TX_OK, s')" "tx_queued env0 skb0 link0 s'" .
  with run have q: "tx_queued env0 skb0 link0 sent0" by simp
  then have "tx_path_frame sent0 = tx_path_frame link0" by (simp add: tx_queued_def)
  note D = tx_path_frameD [OF this]
  show "tx_queue sent0 = [7]" "dirty_tx sent0 = 0" "cur_tx sent0 = 1"
    using q link0(8,10,11) by (simp_all add: tx_queued_def skb0_def)
  show n: "netif_running sent0" "\<not> lock sent0" "\<not> napi_scheduled sent0" "cur_rx sent0 = 0"
      "dirty_rx sent0 = 0" "carrier_ok sent0"
    using D link0 by simp_all
  show "run_inv env0 [] sent0" using inv n by (simp add: machine_inv_def drv_inv_def)
  show "tx_desc_at sent0 0 = \<lparr>opts1 = tx_opts1 60 0, opts2 = 0, addr = 28672\<rparr>"
    using q link0(10) by (simp add: tx_queued_def ring_slot_def skb0_def env0_def)
qed

end
