(* ===== verification/Net_Props.thy ===== *)
theory Net_Props
  imports Examples
begin

text \<open>
  What the Realtek network driver (\<^verbatim>\<open>Solutions/Rt8169Drv\<close>) guarantees: the properties of its state
  machine, of its life cycle under the PCI core, and of its transmit, receive, open and close
  paths, with what goes wrong in the situations the driver does not handle.
\<close>

section \<open>The whole driver\<close>

text \<open>
  C1. Started from a registered device that is down, and provided that the kernel grants the interrupt
  line, the driver keeps its invariant in every state reached by enabled events: the descriptor
  rings are consistent, no packet and no DMA mapping is lost or released twice, the resources are
  held in order, and no enabled event makes the kernel fault (no null packet, no write outside a
  ring, no double lock, no double NAPI enable, no timer overwritten). Besides what the kernel guarantees, enabled
  events are restricted in three ways: the transmit ring is not cleared (by closing, by the reset task or by the link timer) with its
  index within 1024 of the wrap-around, the link timer does not run while receive slots lack a
  buffer, and the interface is not opened while a reset task is pending. C12, C13, C14 and C39
  show what happens in the excluded situations.
\<close>

theorem driver_reach_safe:
  assumes "env_ok E" "irq_granted E" "drv_inv E h s0" "reach (enabled E) (exec E) s0 s"
  shows "drv_inv E h s \<and> (\<forall>ev. enabled E ev s \<longrightarrow> exec E ev s \<noteq> None)"
proof -
  have "machine_inv E h s0" using assms(1-3) by (simp add: machine_inv_def)
  with drv.reach_inv [OF assms(4)] drv.reach_no_fault [OF assms(4)] show ?thesis
    by (auto simp: machine_inv_def)
qed

lemma reach_sent0: "reach (enabled env0) (exec env0) dev0 sent0"
proof -
  have "reach (enabled env0) (exec env0) dev0 up0"
    using reach_step [OF reach_start, of "enabled env0" Open dev0 "exec env0" up0] dev0_inv dev0_task open_up0 by simp
  from reach_step [of "enabled env0" "exec env0", OF this up0_link_enabled link0(1)]
  show ?thesis
    by (rule reach_step [of _ _ _ _ "Xmit skb0"]) (use link0 skb0_ok sent0(1) in simp_all)
qed

theorem driver_reach_safe_witness:
  "drv_inv env0 [] sent0 \<and> enabled env0 TxTimeout sent0 \<and> exec env0 TxTimeout sent0 \<noteq> None
    \<and> exec env0 Interrupt sent0 \<noteq> None"
proof -
  note safe = driver_reach_safe [OF env0_ok(1,2) dev0_inv(1) reach_sent0]
  have en: "enabled env0 TxTimeout sent0" "enabled env0 Interrupt sent0" using sent0 by simp_all
  from safe have "drv_inv env0 [] sent0" "exec env0 TxTimeout sent0 \<noteq> None" "exec env0 Interrupt sent0 \<noteq> None"
    using en by blast+
  with en show ?thesis by blast
qed

text \<open>
  C2. Transmission is first in, first out, with the interrupt line granted and as long as the ring is not cleared, by a reset or
  a lost link, with its index within 1024 of the wrap-around (C13 shows that packets are then lost), nor a link check made
  while receive slots lack a buffer: whatever the interleaving of transmit calls, polls,
  interrupts, link checks, transmit timeouts, resets and descriptors written back by the device, the packets freed so far
  followed by those still queued are the packets queued before followed by those submitted, in that order. Every packet
  submitted is thus freed exactly once, sent or dropped, and never before an older one.
\<close>

theorem tx_first_in_first_out:
  assumes "env_ok E" "irq_granted E" "drv_inv E h s" "run_events (traffic E) (exec E) es s = Some s'"
  shows "freed (tr s') @ tx_queue s' = freed (tr s) @ tx_queue s @ concat (map submitted es)"
  using txq.run_fifo [OF _ assms(4), of h] assms(1-3) by (simp add: machine_inv_def tx_sent_def)

theorem tx_first_in_first_out_witness:
  "\<exists>s'. run_events (traffic env0) (exec env0) [Xmit skb0, TxTimeout, ResetTask] link0 = Some s'
    \<and> freed (tr s') @ tx_queue s' = freed (tr link0) @ [] @ [7]"
proof -
  let ?u = "sent0\<lparr>tr := rtl8101_hw_reset env0 (tr sent0), lock := False, task := True\<rparr>"
  have "exec env0 TxTimeout sent0 = Some ?u"
    using sent0(5) by (simp add: rtl8101_tx_timeout_def spin_lock_def spin_unlock_def schedule_delayed_work_def)
  moreover have "traffic env0 (Xmit skb0) link0" "traffic env0 TxTimeout sent0" "traffic env0 ResetTask ?u"
    using link0 skb0_ok sent0 by (simp_all add: traffic_def tx_nowrap_def NUM_TX_DESC_def)
  ultimately have "schedule_ok (traffic env0) (exec env0) [Xmit skb0, TxTimeout, ResetTask] link0"
    by (simp del: exec.simps add: sent0(1))
  from txq.run_total [OF link0(2) this] obtain s' where
    r: "run_events (traffic env0) (exec env0) [Xmit skb0, TxTimeout, ResetTask] link0 = Some s'" by blast
  moreover have "drv_inv env0 [] link0" using link0(2) by (simp add: machine_inv_def)
  ultimately show ?thesis
    using tx_first_in_first_out [OF env0_ok(1,2), of "[]" link0 "[Xmit skb0, TxTimeout, ResetTask]" s'] link0(8)
    by (simp add: skb0_def)
qed

section \<open>Life cycle\<close>

text \<open>
  C3. Under any sequence of probing, use and removal by the PCI core, within the limits of C1 (the interrupt line is granted, the
  events of a bound device are the enabled ones) and with removal only when no poll and no reset
  task is pending and the transmit index is not within 1024 of the wrap-around, the driver does not fault, and
  whenever the device is not driven the driver holds exactly the resources held at the beginning,
  no packet and no DMA mapping.
\<close>

theorem pn_life_cycle:
  assumes "pn_idle E h d0"
    and "reach (pci_enabled pn_driven pn_quiet (pn_enabled E)) (pci_step (pn_probe E) (pn_remove E) (pn_work E)) d0 d"
  shows "(\<not> pn_driven d \<longrightarrow> netdev d = None \<and> held (bus d) = Some h \<and> clean_trace (bus d))
    \<and> (\<forall>ev. pci_enabled pn_driven pn_quiet (pn_enabled E) ev d
         \<longrightarrow> pci_step (pn_probe E) (pn_remove E) (pn_work E) ev d \<noteq> None)"
proof -
  have inv: "pn_idle E h d \<or> pn_bound E h d"
    using pn.life.reach_inv [OF assms(2), where h = h] assms(1) by blast
  with pn.life_step [where E = E and h = h and d = d] show ?thesis
    by (auto simp: pn_idle_def pn_bound_def pn_driven_def)
qed

definition pci0 :: pci_dev where
  "pci0 = \<lparr>bus = [], drvdata = DrvNull, netdev = None\<rparr>"

lemma pci0_idle: "env_ok E \<Longrightarrow> irq_granted E \<Longrightarrow> pn_idle E [] pci0"
  by (simp add: pn_idle_def pci0_def clean_trace_def)

definition failed0 :: pci_dev where
  "failed0 = pci0\<lparr>bus := [Put PciDevice, Put Mwi, Denied Regions (- 16), Got Mwi, Got PciDevice]\<rparr>"

lemma failed0: "pn_probe (refusing Regions) pci0 = Some (- 16, failed0)"
  by (simp add: pn_probe_def acquire_def release_def failed0_def pci0_def refusing_def env0_def)

theorem pn_life_cycle_witness:
  "netdev failed0 = None \<and> held (bus failed0) = Some [] \<and> clean_trace (bus failed0)
    \<and> pci_step (pn_probe (refusing Regions)) (pn_remove (refusing Regions)) (pn_work (refusing Regions)) Probe failed0
      \<noteq> None"
proof -
  let ?E = "refusing Regions"
  have "pn_idle ?E [] pci0" by (rule pci0_idle) (simp_all add: refusing_ok)
  moreover have "reach (pci_enabled pn_driven pn_quiet (pn_enabled ?E))
      (pci_step (pn_probe ?E) (pn_remove ?E) (pn_work ?E)) pci0 failed0"
    by (rule reach_step [OF reach_start, where e = Probe]) (simp_all add: failed0, simp add: pn_driven_def pci0_def)
  moreover have "\<not> pn_driven failed0" "pci_enabled pn_driven pn_quiet (pn_enabled ?E) Probe failed0"
    by (simp_all add: pn_driven_def failed0_def pci0_def)
  ultimately show ?thesis using pn_life_cycle [of ?E "[]" pci0 failed0] by blast
qed

text \<open>
  C4. \<^verbatim>\<open>pn_probe\<close> is all or nothing: on success the driver data is the registered network device,
  which satisfies the driver invariant; on an error, whichever request was refused, everything is
  given back in the reverse order of acquisition and the driver data is NULL.
\<close>

theorem pn_probe_all_or_nothing:
  assumes "pn_idle E h d"
  shows "\<exists>r d'. pn_probe E d = Some (r, d') \<and>
    (if r = 0 then drvdata d' = DrvNetdev
       \<and> (\<exists>s msi. netdev d' = Some s \<and> drv_inv E (NetReg # NetDev # pn_res msi h) s)
     else drvdata d' = DrvNull \<and> netdev d' = None \<and> held (bus d') = Some h \<and> clean_trace (bus d'))"
proof -
  from pn_probe_spec [OF assms] obtain r d' where p: "pn_probe E d = Some (r, d')"
    "if r = 0 then pn_bound E h d' else pn_idle E h d'" by blast
  then show ?thesis
    by (intro exI [of _ r] exI [of _ d'])
      (auto simp: pn_bound_def pn_idle_def machine_inv_def split: if_splits)
qed

theorem pn_probe_all_or_nothing_witness:
  "\<exists>r d'. pn_probe (refusing NetReg) pci0 = Some (r, d') \<and>
    (if r = 0 then drvdata d' = DrvNetdev
       \<and> (\<exists>s msi. netdev d' = Some s \<and> drv_inv (refusing NetReg) (NetReg # NetDev # pn_res msi []) s)
     else drvdata d' = DrvNull \<and> netdev d' = None \<and> held (bus d') = Some [] \<and> clean_trace (bus d'))"
  by (rule pn_probe_all_or_nothing [OF pci0_idle]) (simp_all add: refusing_ok)

section \<open>Transmit\<close>

text \<open>
  C5. While the queue is awake \<^verbatim>\<open>rtl8101_start_xmit\<close> accepts every packet the stack may pass (the
  message about a full ring is unreachable): the packet is appended to the queue, its descriptor
  goes to the device with the mapped address, the length, both fragment flags and the end-of-ring
  mark in the last slot only, the device is told to poll, and the queue is stopped exactly when a
  packet with the largest number of fragments might not fit any more.
\<close>

theorem start_xmit_accepts:
  assumes "env_ok E" "run_inv E h s" "\<not> lock s" "carrier_ok s" "\<not> queue_stopped s" "skb_ok E skb"
  shows "\<exists>s'. rtl8101_start_xmit E skb s = Some (NETDEV_TX_OK, s')
    \<and> run_inv E h s' \<and> leaks s' = leaks s \<and> \<not> lock s'
    \<and> tx_queue s' = tx_queue s @ [skb_ptr skb]
    \<and> (let e = ring_slot NUM_TX_DESC (cur_tx s); d = tx_desc_at s' e in
         nic_owned d \<and> addr d = map_addr E (TakeSkb (skb_ptr skb) # tr s) (skb_ptr skb)
         \<and> opts1 d AND mask 16 = skb_len skb \<and> opts1 d AND dbit FirstFrag \<noteq> 0
         \<and> opts1 d AND dbit LastFrag \<noteq> 0 \<and> (ring_end d \<longleftrightarrow> e = NUM_TX_DESC - 1))
    \<and> last_w8 (reg TxPoll) (tr s') = Some (pollbit NPQ)
    \<and> (queue_stopped s' \<longleftrightarrow> TX_BUFFS_AVAIL s' < MAX_SKB_FRAGS E)"
proof -
  from start_xmit_inv [OF assms] obtain s' where s': "rtl8101_start_xmit E skb s = Some (NETDEV_TX_OK, s')"
    "tx_queued E skb s s'" "run_inv E h s'" "leaks s' = leaks s" "\<not> lock s'" .
  have "skb_len skb < 0x10000" using assms(6) by (simp add: skb_ok_def)
  note bits = tx_opts1_bits [OF this, of "ring_slot NUM_TX_DESC (cur_tx s)"]
  from s'(2) have d: "tx_desc_at s' (ring_slot NUM_TX_DESC (cur_tx s)) =
      \<lparr>opts1 = tx_opts1 (skb_len skb) (ring_slot NUM_TX_DESC (cur_tx s)), opts2 = 0,
       addr = map_addr E (TakeSkb (skb_ptr skb) # tr s) (skb_ptr skb)\<rparr>"
    by (simp add: tx_queued_def)
  show ?thesis
    unfolding Let_def d using s' bits
    by (intro exI [of _ s']) (simp add: tx_queued_def nic_owned_bit ring_end_bit)
qed

theorem start_xmit_accepts_witness:
  "\<exists>s'. rtl8101_start_xmit env0 skb0 link0 = Some (NETDEV_TX_OK, s') \<and> tx_queue s' = [7]"
  using start_xmit_accepts [OF env0_ok(1) link0(6,7,3,5) skb0_ok] link0(8) by (auto simp: skb0_def)

text \<open>
  C6. \<^verbatim>\<open>rtl8101_tx_interrupt\<close> completes exactly the longest prefix of queued packets whose descriptors
  the device has given back: these are unmapped and freed in order and counted, the rest of the
  queue is untouched, and a stopped queue is woken when packets were completed and there is room.
\<close>

theorem tx_interrupt_reaps:
  assumes "tx_inv E s"
  shows "\<exists>s'. rtl8101_tx_interrupt E s = Some s' \<and> tx_inv E s' \<and> same_leaks s s'
    \<and> (let k = length (takeWhile (tx_done s) (tx_window s)) in
         tx_queue s' = drop k (tx_queue s)
         \<and> freed (tr s') = freed (tr s) @ take k (tx_queue s)
         \<and> tx_packets (stats s') = tx_packets (stats s) + of_nat k
         \<and> tx_bytes (stats s') = tx_bytes (stats s) + sum_list (map (slot_bytes s) (take k (tx_window s)))
         \<and> (queue_stopped s' \<longleftrightarrow>
              queue_stopped s \<and> (k = 0 \<or> TX_BUFFS_AVAIL s' < MAX_SKB_FRAGS E)))"
proof -
  from tx_interrupt_spec [OF assms] obtain s' where
    "rtl8101_tx_interrupt E s = Some s'" "tx_reaped E (tx_done_count s) s s'" .
  then show ?thesis
    by (intro exI [of _ s']) (simp add: tx_reaped_def tx_done_count_def Let_def)
qed

theorem tx_interrupt_reaps_witness:
  "\<exists>s'. rtl8101_tx_interrupt env0 sent0 = Some s' \<and> tx_inv env0 s'
     \<and> freed (tr s') @ tx_queue s' = freed (tr sent0) @ [7]"
proof -
  have "tx_inv env0 sent0" using sent0(4) by (simp add: run_inv_def)
  from tx_interrupt_reaps [OF this] sent0(3) show ?thesis
    by (auto simp: Let_def)
qed

section \<open>Receive\<close>

text \<open>
  C7. \<^verbatim>\<open>rtl8101_rx_interrupt\<close> handles exactly the longest run of descriptors, at most \<^verbatim>\<open>budget\<close>, that the
  device has given back: the good frames go up the stack in order, with the frame length less the
  checksum; the bad ones are counted and their buffers returned to the device. It refills what it
  emptied, completely so when memory is available, and returns the number of descriptors handled.
\<close>

theorem rx_interrupt_delivers:
  assumes "rx_inv s"
  shows "\<exists>n s'. rtl8101_rx_interrupt E budget s = Some (n, s') \<and> rx_inv s' \<and> same_leaks s s'
    \<and> (let D = rx_ready budget s; G = filter (\<lambda>e. opts1 (rx_desc_at s e) AND dbit RxRES = 0) D in
         unat n = length D \<and> length D \<le> unat budget
         \<and> received (tr s') = received (tr s)
             @ map (\<lambda>e. (the (rx_skbuff s ! e), (opts1 (rx_desc_at s e) AND 0x3FFF) - 4)) G
         \<and> rx_packets (stats s') = rx_packets (stats s) + of_nat (length G)
         \<and> rx_errors (stats s') = rx_errors (stats s) + of_nat (length D - length G)
         \<and> cur_rx s' = cur_rx s + n)
    \<and> (skbs_available E \<longrightarrow> dirty_rx s' = cur_rx s')"
proof -
  from rx_interrupt_spec [OF assms, of E budget] obtain n s' where
    r: "rtl8101_rx_interrupt E budget s = Some (n, s')" "rx_polled E budget s n s'" .
  have "length (rx_ready budget s) \<le> unat (rx_limit budget s)"
    unfolding rx_ready_def by (rule order_trans [OF length_takeWhile_le]) simp
  also have "\<dots> \<le> unat budget"
    using assms unat_rx_limit [of s budget] by (simp add: rx_inv_def)
  finally have "length (rx_ready budget s) \<le> unat budget" .
  with r show ?thesis
    by (intro exI [of _ n] exI [of _ s'])
      (simp add: rx_polled_def rx_good_def rx_bad_def Let_def rx_packet_def [abs_def] rx_pkt_len_def)
qed

theorem rx_interrupt_delivers_witness:
  "\<exists>n s'. rtl8101_rx_interrupt env0 64 link0 = Some (n, s') \<and> rx_inv s' \<and> unat n \<le> 64
     \<and> dirty_rx s' = cur_rx s'"
proof -
  have "rx_inv link0" using link0(6) by (simp add: run_inv_def)
  from rx_interrupt_delivers [OF this, of env0 64] env0_ok(3) show ?thesis
    by (auto simp: Let_def)
qed

text \<open>
  C8. One NAPI poll: when fewer descriptors than the budget were handled, the poll completes and the
  device interrupts are enabled again; otherwise it stays scheduled with the mask as it was.
  Receive and transmit work are both done, whatever the budget.
\<close>

theorem poll_completes_or_stays:
  assumes "env_ok E" "run_inv E h s" "\<not> lock s"
  shows "\<exists>n s'. rtl8101_poll E budget s = Some (n, s') \<and> run_inv E h s' \<and> leaks s' = leaks s
    \<and> unat n = length (rx_ready budget s)
    \<and> napi_scheduled s' = (napi_scheduled s \<and> \<not> n < budget)
    \<and> irq_mask (tr s') = (if n < budget then Some IntrEnMask else irq_mask (tr s))
    \<and> tx_queue s' = drop (tx_done_count s) (tx_queue s)"
proof -
  from poll_inv [OF assms, of budget] obtain n s' where
    r: "rtl8101_poll E budget s = Some (n, s')" "polled E budget s n s'"
    "run_inv E h s'" "leaks s' = leaks s" .
  from r(2) have "unat n = length (rx_ready budget s)"
    "napi_scheduled s' = (napi_scheduled s \<and> \<not> n < budget)"
    "irq_mask (tr s') = (if n < budget then Some IntrEnMask else irq_mask (tr s))"
    "tx_queue s' = drop (tx_done_count s) (tx_queue s)"
    by (simp_all only: polled_def)
  with r(1,3,4) show ?thesis by (intro exI conjI)
qed

theorem poll_completes_or_stays_witness:
  "\<exists>n s'. rtl8101_poll env0 64 sent0 = Some (n, s') \<and> run_inv env0 [] s'
    \<and> unat n = length (rx_ready 64 sent0)
    \<and> irq_mask (tr s') = (if n < 64 then Some IntrEnMask else irq_mask (tr sent0))"
  using poll_completes_or_stays [OF env0_ok(1) sent0(4,5), of 64] by blast

section \<open>Open and close\<close>

text \<open>
  \<^verbatim>\<open>rtl8101_init_buffers\<close> allocates both rings and all receive buffers, or nothing: on failure the
  rings and every packet and mapping made on the way are given back, and the error is \<^verbatim>\<open>-ENOMEM\<close>. It
  succeeds when memory is available.
\<close>

lemma init_buffers_all_or_nothing:
  assumes "rings_down s" "rx_buf_sz s = RX_BUF_SIZE" "held (tr s) = Some h"
  shows "\<exists>r s'. rtl8101_init_buffers E s = Some (r, s') \<and> leaks s' = leaks s
    \<and> (r = 0 \<and> tx_ring_ok s' \<and> tx_all_idle s' \<and> rx_inv s' \<and> dirty_rx s' = cur_rx s'
         \<and> held (tr s') = Some (RxRing # TxRing # h)
       \<or> r = - ENOMEM \<and> rings_down s' \<and> held (tr s') = Some h \<and> \<not> plentiful E)"
  using assms
proof (cases rule: init_buffers_spec [where E = E])
  case (up s')
  then show ?thesis by (auto simp: rings_up_def)
next
  case (down s')
  then show ?thesis by auto
qed

text \<open>
  C10. When the interrupt line is granted and no reset task is pending, \<^verbatim>\<open>rtl8101_open\<close> either brings the interface up (rings
  filled, interrupts enabled, NAPI enabled, queue awake, link timer armed, the interrupt line and
  both rings held) or fails with \<^verbatim>\<open>-ENOMEM\<close> leaving the device as it was.
\<close>

theorem open_up_or_unchanged:
  assumes "env_ok E" "irq_granted E" "rings_down s" "\<not> napi_enabled s" "\<not> task s" "held (tr s) = Some h"
  shows "\<exists>r s'. rtl8101_open E s = Some (r, s') \<and> leaks s' = leaks s
    \<and> (r = 0 \<and> rings_up s' \<and> held (tr s') = Some (Irq # RxRing # TxRing # h) \<and> napi_enabled s'
         \<and> link_timer s' \<noteq> None \<and> \<not> queue_stopped s' \<and> irq_mask (tr s') = Some IntrEnMask
       \<or> r = - ENOMEM \<and> rings_down s' \<and> held (tr s') = Some h \<and> \<not> napi_enabled s'
         \<and> link_timer s' = link_timer s)"
  using assms(1,3-6)
proof (cases rule: open_spec)
  case (up s')
  then show ?thesis by (auto simp: open_up_def)
next
  case (nomem s')
  then show ?thesis by auto
next
  case (noirq c s' ms)
  with assms(2) show ?thesis by (auto simp: irq_granted_def)
qed

theorem open_up_or_unchanged_witness:
  "\<exists>r s'. rtl8101_open (refusing RxRing) dev0 = Some (r, s') \<and> leaks s' = leaks dev0
    \<and> (r = 0 \<and> napi_enabled s' \<or> r = - ENOMEM \<and> rings_down s' \<and> held (tr s') = Some [])"
proof -
  have "\<not> napi_enabled dev0" "\<not> task dev0" "held (tr dev0) = Some []" by (simp_all add: dev0_def new_netdev_def)
  from open_up_or_unchanged [OF refusing_ok(1) refusing_ok(2) dev0_idle(2) this, of RxRing]
  show ?thesis by auto
qed

text \<open>
  C11. \<^verbatim>\<open>rtl8101_close\<close> undoes \<^verbatim>\<open>rtl8101_open\<close>, unless \<^verbatim>\<open>dirty_tx\<close> is within 1024 of its wrap-around (then C13 applies, and
  the transmit ring is not cleared): every packet still in the rings is unmapped and freed,
  interrupt line and rings are given back in reverse order, the device is reset with interrupts
  masked, and timer, NAPI, queue and carrier are off.
\<close>

theorem close_releases_all:
  assumes "env_ok E" "tx_ring_ok s" "tx_nowrap s" "rx_ring_ok s" "napi_enabled s" "\<not> napi_scheduled s"
    "\<not> lock s" "held (tr s) = Some (Irq # RxRing # TxRing # h)"
  shows "\<exists>s'. rtl8101_close E s = Some (0, s') \<and> rings_down s' \<and> leaks s' = leaks s
    \<and> held (tr s') = Some h \<and> irq_mask (tr s') = Some 0 \<and> \<not> napi_enabled s' \<and> \<not> carrier_ok s'
    \<and> queue_stopped s' \<and> link_timer s' = None \<and> \<not> lock s'"
proof -
  from close_spec [OF assms] obtain s' where
    "rtl8101_close E s = Some (0, s')" "closed_down h s'" "leaks s' = leaks s" "\<not> lock s'" .
  then show ?thesis by (intro exI [of _ s']) (simp add: closed_down_def)
qed

theorem close_releases_all_witness:
  "\<exists>s'. rtl8101_close env0 sent0 = Some (0, s') \<and> rings_down s' \<and> held (tr s') = Some []"
proof -
  have "tx_nowrap sent0" using sent0(6) by (simp add: tx_nowrap_def NUM_TX_DESC_def)
  moreover have "tx_ring_ok sent0" "rx_ring_ok sent0" "napi_enabled sent0"
    "held (tr sent0) = Some [Irq, RxRing, TxRing]"
    using sent0(4) by (simp_all add: run_inv_def tx_inv_def rx_inv_def)
  ultimately show ?thesis
    using close_releases_all [OF env0_ok(1) _ _ _ _ sent0(9,5), of "[]"] by blast
qed

section \<open>Where the driver fails\<close>

lemma reopen_faults:
  assumes "napi_enabled s \<or> task s" "held (tr s) = Some h" "plentiful E"
  shows "rtl8101_open E s = None"
proof -
  let ?z = "s\<lparr>rx_buf_sz := RX_BUF_SIZE\<rparr>" and ?t = "Got TxRing # tr s"
  let ?a = "snd (coherent E (tr s) TxRing)" and ?b = "snd (coherent E ?t RxRing)"
  have run: "rtl8101_init_buffers E ?z = init_buffers_fill E (rings_fresh (Got RxRing # ?t) ?a ?b ?z)"
    using init_buffers_cases [of E ?z] assms(3) by (simp add: plentiful_def Let_def)
  have "rx_buf_sz ?z = RX_BUF_SIZE" "held (Got RxRing # ?t) = Some (RxRing # TxRing # h)"
    using assms(2) by simp_all
  then obtain s1 where s1: "rtl8101_init_buffers E ?z = Some (0, s1)" "buf_frame s1 = buf_frame ?z"
    unfolding run using assms(3)
    by (cases rule: init_fill_spec [where E = E and a = ?a and b = ?b]) (auto simp: plentiful_def)
  from buf_frameD [OF s1(2)] assms(1) have "napi_enabled s1 \<or> task s1" by simp
  with s1(1) show ?thesis by (auto simp: rtl8101_open_def napi_enable_def init_delayed_work_def)
qed

text \<open>
  C12. When the interrupt line is refused, \<^verbatim>\<open>rtl8101_open\<close> frees the descriptor rings but neither unmaps
  nor frees the receive buffers (all 1024 mappings are lost) and leaves NAPI enabled, so that the
  next attempt to open the interface stops the kernel in \<^verbatim>\<open>napi_enable\<close>.
\<close>

theorem open_irq_refused_leaks:
  assumes "env_ok E" "plentiful E" "\<forall>t. grant E t Irq < 0"
    "rings_down s" "\<not> napi_enabled s" "\<not> task s" "held (tr s) = Some h"
  shows "\<exists>c s' ms. rtl8101_open E s = Some (c, s') \<and> c < 0 \<and> RxDescArray s' = None
    \<and> length ms = NUM_RX_DESC \<and> (\<forall>m. dma_leak m s' = dma_leak m s + int (count_list ms m))
    \<and> (\<forall>e < NUM_RX_DESC. rx_skbuff s' ! e \<noteq> None)
    \<and> (\<forall>E'. plentiful E' \<longrightarrow> rtl8101_open E' s' = None)"
  using assms(1,4-7)
proof (cases rule: open_spec)
  case (up s')
  have "grant E t Irq \<noteq> 0" for t using assms(3) by (metis less_irrefl)
  then have "rtl8101_open E s \<noteq> Some (0, s')"
    using assms(3) by (auto simp: rtl8101_open_def bind_eq_Some_conv Let_def acquire_def split: if_splits)
  with up show ?thesis by simp
next
  case (nomem s')
  with assms(2) show ?thesis by simp
next
  case (noirq c s' ms)
  have "rtl8101_open E' s' = None" if "plentiful E'" for E'
    using reopen_faults [of s' h E'] that noirq(3) by (simp add: open_noirq_def)
  with noirq show ?thesis by (auto simp: open_noirq_def)
qed

theorem open_irq_refused_leaks_witness:
  "\<exists>c s' ms. rtl8101_open (refusing Irq) dev0 = Some (c, s') \<and> c < 0 \<and> length ms = NUM_RX_DESC
    \<and> (\<forall>m. dma_leak m s' = dma_leak m dev0 + int (count_list ms m))
    \<and> rtl8101_open env0 s' = None"
proof -
  have p: "plentiful (refusing Irq)" "plentiful env0" "\<forall>t. grant (refusing Irq) t Irq < 0"
    by (simp_all add: plentiful_def refusing_def env0_def skbs_available_def)
  have "\<not> napi_enabled dev0" "\<not> task dev0" "held (tr dev0) = Some []" by (simp_all add: dev0_def new_netdev_def)
  from open_irq_refused_leaks [OF refusing_ok(1) p(1,3) dev0_idle(2) this] p(2) show ?thesis by blast
qed

text \<open>
  C13. \<^verbatim>\<open>rtl8101_tx_clear\<close> compares \<^verbatim>\<open>i < pvt->dirty_tx + NUM_TX_DESC\<close> in 32-bit arithmetic. Once
  \<^verbatim>\<open>dirty_tx\<close> is within 1024 of the wrap-around the loop body is never run: the indices are reset
  while every packet stays in its slot, neither unmapped nor freed, and the queue forgets it.
\<close>

theorem tx_clear_wraps:
  assumes "2 ^ 32 \<le> unat (dirty_tx s) + NUM_TX_DESC"
  shows "rtl8101_tx_clear s = Some (s\<lparr>cur_tx := 0, dirty_tx := 0\<rparr>)
    \<and> tx_queue (s\<lparr>cur_tx := 0, dirty_tx := 0\<rparr>) = []"
proof -
  have "unat (dirty_tx s) < 2 ^ 32" using unsigned_less [of "dirty_tx s"] by simp
  then have "(unat (dirty_tx s) + NUM_TX_DESC) mod 2 ^ 32 = unat (dirty_tx s) + NUM_TX_DESC - 2 ^ 32"
    using assms by (simp add: NUM_TX_DESC_def mod_if)
  moreover have "unat (of_nat NUM_TX_DESC :: u32) = NUM_TX_DESC" by (simp add: NUM_TX_DESC_def)
  ultimately have "unat (dirty_tx s + of_nat NUM_TX_DESC) < unat (dirty_tx s)"
    using assms txr.N_less by (simp add: unat_word_ariths)
  then have "\<not> dirty_tx s < dirty_tx s + of_nat NUM_TX_DESC" by (simp add: word_less_nat_alt)
  then show ?thesis
    by (simp add: rtl8101_tx_clear_def tx_clear_loop.simps [of "dirty_tx s"] tx_queue_def tx_window_def)
qed

theorem tx_clear_wraps_witness:
  "rtl8101_tx_clear (sent0\<lparr>dirty_tx := 0xFFFFFFFF, cur_tx := 0\<rparr>)
     = Some (sent0\<lparr>dirty_tx := 0, cur_tx := 0\<rparr>)"
  using tx_clear_wraps [of "sent0\<lparr>dirty_tx := 0xFFFFFFFF, cur_tx := 0\<rparr>"]
  by (simp add: NUM_TX_DESC_def)

text \<open>
  C14. When the link drops, \<^verbatim>\<open>rtl8101_check_link_status\<close> resets the receive indices without checking,
  as the reset task does, that the ring has been refilled. If a shortage of memory has left slot 0
  without a buffer, the next poll takes it for a received frame and dereferences a null packet.
\<close>

theorem link_drop_in_shortage_faults:
  assumes "env_ok E" "tx_ring_ok s" "tx_nowrap s" "rx_ring_ok s" "\<not> lock s" "carrier_ok s"
    and "\<not> fst (phy_link_status_on E (tr s))"
    and "rx_skbuff s ! 0 = None" "opts1 (rx_desc_at s 0) AND dbit RxRES = 0"
  shows "\<exists>s'. rtl8101_link_timer E s = Some s'
    \<and> (\<forall>E' budget. 0 < budget \<longrightarrow> rtl8101_rx_interrupt E' budget s' = None)"
proof -
  from link_drop_state [OF assms(1-3,5-7)] obtain s' where run: "rtl8101_link_timer E s = Some s'"
    and f: "RxDescArray s' = RxDescArray s" "rx_skbuff s' = rx_skbuff s" "cur_rx s' = 0" "dirty_rx s' = 0" .
  from assms(4) obtain descs where d: "RxDescArray s = Some descs" "length descs = NUM_RX_DESC"
    "length (rx_skbuff s) = NUM_RX_DESC" "rx_slot_ok 0 (descs ! 0) (rx_skbuff s ! 0)"
    using rxr.N_pos by (auto elim!: rx_ring_okE)
  have "rx_loop (Suc n) 0 s' = None" for n
    using d assms(8,9) rxr.N_pos f
    by (simp add: rx_desc_at_def rx_slot_ok_def nic_owned_def rx_deliver_def Let_def)
  moreover have "\<exists>n. unat (min (of_nat NUM_RX_DESC) budget) = Suc n" if "0 < budget" for budget :: u32
    using that by (intro not0_implies_Suc) (auto simp: min_def unat_eq_zero NUM_RX_DESC_def)
  ultimately have "rtl8101_rx_interrupt E' budget s' = None" if "0 < budget" for E' budget
    using that d(1) f by (force simp: rtl8101_rx_interrupt_def Let_def)
  with run show ?thesis by blast
qed

text \<open>The hypotheses of the last theorem, in a device whose slot 0 could not be refilled.\<close>

definition hole0 :: DrvPvt where
  "hole0 = link0\<lparr>rx_skbuff := (rx_skbuff link0)[0 := None],
     RxDescArray := Some ((the (RxDescArray link0))[0 := zero_desc]), cur_rx := 1\<rparr>"

lemma hole0: "tx_ring_ok hole0" "tx_nowrap hole0" "rx_ring_ok hole0" "\<not> lock hole0" "carrier_ok hole0"
  "rx_skbuff hole0 ! 0 = None" "opts1 (rx_desc_at hole0 0) AND dbit RxRES = 0"
proof -
  show "tx_ring_ok hole0" using link0(6) by (simp add: hole0_def run_inv_def tx_inv_def)
  show "tx_nowrap hole0" using link0(11) by (simp add: hole0_def tx_nowrap_def NUM_TX_DESC_def)
  show "\<not> lock hole0" "carrier_ok hole0" using link0 by (simp_all add: hole0_def)
  from link0(6) have ok: "rx_ring_ok link0" by (simp add: run_inv_def rx_inv_def)
  then obtain descs where d: "RxDescArray link0 = Some descs" "length descs = NUM_RX_DESC"
    "length (rx_skbuff link0) = NUM_RX_DESC" by (rule rx_ring_okE)
  show "rx_ring_ok hole0"
    by (rule rx_ring_ok_update [OF ok d(1), of 0 zero_desc None])
      (simp_all add: hole0_def d(1) rx_slot_ok_def rxr.N_pos, simp add: NUM_RX_DESC_def)
  show "rx_skbuff hole0 ! 0 = None" using d rxr.N_pos by (simp add: hole0_def)
  have "rx_desc_at hole0 0 = zero_desc" using d rxr.N_pos by (simp add: hole0_def rx_desc_at_def)
  then show "opts1 (rx_desc_at hole0 0) AND dbit RxRES = 0" by simp
qed

theorem link_drop_in_shortage_faults_witness:
  "\<exists>s'. rtl8101_link_timer (env0\<lparr>ioread8 := \<lambda>_ _. 0\<rparr>) hole0 = Some s'
    \<and> rtl8101_rx_interrupt env0 64 s' = None"
proof -
  let ?E = "env0\<lparr>ioread8 := \<lambda>_ _. 0\<rparr>"
  have "env_ok ?E" using env0_ok(1) by (simp add: env_ok_def)
  moreover have "\<not> fst (phy_link_status_on ?E (tr hole0))"
    by (simp add: phy_link_status_on_def REG_defs)
  ultimately show ?thesis
    using link_drop_in_shortage_faults [OF _ hole0(1-5) _ hole0(6,7), of ?E] by auto
qed

lemma deregister_pending_faults:
  assumes "netdev d = Some s" "task s" and "\<And>u. dev_close E (s\<lparr>tr := FlushWork # tr s\<rparr>) = Some u \<Longrightarrow> task u"
  shows "net_deregister_dev E d = None"
proof (cases "dev_close E (s\<lparr>tr := FlushWork # tr s\<rparr>)")
  case (Some u)
  with assms show ?thesis by (auto simp: net_deregister_dev_def unregister_netdev_def free_netdev_def Let_def)
qed (use assms in \<open>auto simp: net_deregister_dev_def unregister_netdev_def free_netdev_def Let_def\<close>)

text \<open>
  C39. \<^verbatim>\<open>rtl8101_close\<close> does not cancel the reset task that a transmit timeout has scheduled. Closed in this
  state the interface is down with the task pending. If the task then runs before anything else happens, it returns at once; but
  an attempt to open the interface earlier, for which memory is available, overwrites the armed
  timer, and unbinding the driver, before or after the interface has been closed, frees it.
\<close>

theorem reset_task_outlives_close:
  assumes env: "env_ok E" and inv: "drv_inv E h s" and g: "netif_running s" "\<not> napi_scheduled s" "tx_nowrap s"
  shows "\<exists>s1 s2. exec E TxTimeout s = Some s1 \<and> exec E Close s1 = Some s2 \<and> \<not> netif_running s2 \<and> task s2
    \<and> exec E ResetTask s2 = Some (s2\<lparr>task := False\<rparr>)
    \<and> (\<forall>E'. plentiful E' \<longrightarrow> exec E' Open s2 = None)
    \<and> (\<forall>d. drvdata d = DrvNetdev \<and> netdev d \<in> {Some s1, Some s2} \<longrightarrow> pn_remove E d = None)"
proof -
  let ?s1 = "s\<lparr>tr := rtl8101_hw_reset E (tr s), lock := False, task := True\<rparr>"
  have "\<not> lock s" using drv_inv_running [OF inv g(1)] by simp
  then have t: "exec E TxTimeout s = Some ?s1"
    by (simp add: rtl8101_tx_timeout_def spin_lock_def spin_unlock_def schedule_delayed_work_def)
  have i1: "drv_inv E h ?s1"
    using inv g(1) \<open>\<not> lock s\<close> by (intro drv_inv_core [OF inv]) (simp_all add: same_core_def trace_simps)
  have g1: "netif_running ?s1" "\<not> napi_scheduled ?s1" "tx_nowrap ?s1" using g by (simp_all add: tx_nowrap_def)
  from dev_close_inv [OF env i1 g1] obtain s2 where
    s2: "dev_close E ?s1 = Some s2" "drv_inv E h s2" "\<not> netif_running s2" "task s2" by auto
  from s2(2,3) have "held (tr s2) = Some h" by (simp add: drv_inv_def down_inv_def)
  then have "exec E' Open s2 = None" if "plentiful E'" for E'
    using reopen_faults [of "s2\<lparr>netif_running := True\<rparr>" h E'] s2(4) that by (simp add: dev_open_def)
  moreover have "pn_remove E d = None" if d: "netdev d = Some ?s1" for d
  proof -
    let ?f = "?s1\<lparr>tr := FlushWork # tr ?s1\<rparr>"
    have "drv_inv E h ?f"
      using inv g(1) \<open>\<not> lock s\<close> by (intro drv_inv_core [OF inv]) (simp_all add: same_core_def trace_simps)
    moreover have "netif_running ?f" "\<not> napi_scheduled ?f" "tx_nowrap ?f" using g by (simp_all add: tx_nowrap_def)
    ultimately obtain u where "dev_close E ?f = Some u" "task u = task ?f" by (rule dev_close_inv [OF env])
    then have "net_deregister_dev E d = None" by (intro deregister_pending_faults [OF d]) simp_all
    then show ?thesis by (simp add: pn_remove_def)
  qed
  moreover have "pn_remove E d = None" if "netdev d = Some s2" for d
    using that s2(3,4) by (simp add: pn_remove_def net_deregister_dev_def unregister_netdev_def free_netdev_def Let_def)
  moreover have "exec E ResetTask s2 = Some (s2\<lparr>task := False\<rparr>)" using s2(3) by (simp add: rtl8101_reset_task_def)
  ultimately show ?thesis using t s2 by (intro exI [of _ ?s1] exI [of _ s2]) auto
qed

theorem reset_task_outlives_close_witness:
  "\<exists>s1 s2. exec env0 TxTimeout sent0 = Some s1 \<and> exec env0 Close s1 = Some s2 \<and> task s2 \<and> exec env0 Open s2 = None
    \<and> pn_remove env0 (pci0\<lparr>drvdata := DrvNetdev, netdev := Some s2\<rparr>) = None"
proof -
  have "drv_inv env0 [] sent0" "tx_nowrap sent0" "plentiful env0"
    using sent0(2,6) by (auto simp: machine_inv_def tx_nowrap_def NUM_TX_DESC_def plentiful_def skbs_available_def env0_def)
  then show ?thesis
    using reset_task_outlives_close [OF env0_ok(1) _ sent0(8,9), of "[]"] by fastforce
qed

section \<open>Recovery and interrupts\<close>

text \<open>
  C16. After a transmit timeout, unless \<^verbatim>\<open>dirty_tx\<close> is within 1024 of its wrap-around (then C13 applies, and the packets
  in the ring are lost), the reset task empties the transmit ring without losing a packet or
  a mapping and, when receive memory is available, restarts the device: interrupts enabled, queue
  awake, all invariants kept.
\<close>

theorem reset_task_recovers:
  assumes "env_ok E" "run_inv E h s" "\<not> lock s" "netif_running s" "\<not> napi_scheduled s" "tx_nowrap s"
  shows "\<exists>s'. rtl8101_reset_task E s = Some s' \<and> run_inv E h s' \<and> leaks s' = leaks s \<and> \<not> lock s'
    \<and> tx_queue s' = []
    \<and> (skbs_available E \<longrightarrow> irq_mask (tr s') = Some IntrEnMask \<and> \<not> queue_stopped s')"
proof -
  from reset_task_inv [OF assms] obtain s' where "rtl8101_reset_task E s = Some s'" "run_inv E h s'"
    "leaks s' = leaks s" "\<not> lock s'" "tx_queue s' = []"
    "skbs_available E \<longrightarrow> irq_mask (tr s') = Some IntrEnMask \<and> \<not> queue_stopped s'" .
  then show ?thesis by blast
qed

theorem reset_task_recovers_witness:
  "\<exists>s'. rtl8101_reset_task env0 sent0 = Some s' \<and> tx_queue s' = [] \<and> irq_mask (tr s') = Some IntrEnMask"
proof -
  have "tx_nowrap sent0" using sent0(6) by (simp add: tx_nowrap_def NUM_TX_DESC_def)
  from reset_task_recovers [OF env0_ok(1) sent0(4,5,8,9) this] env0_ok(3) show ?thesis by blast
qed



end
