(* ===== verification/Net_Exercise.thy ===== *)
theory Net_Exercise
  imports Pci_Net
begin

text \<open>
  The exercise copy of the Realtek driver, \<^verbatim>\<open>NetworkDriver/Rt8169Drv\<close>: the functions in which it differs
  from the completed driver. A statement that
  is only a TODO comment is not there; variables that are read without having been set, such as \<open>work_done\<close> in \<^verbatim>\<open>rtl8101_poll\<close>, are
  parameters. The rest of the copy is the same text as the completed driver, or works on such pointers
  (\<^verbatim>\<open>rtl8101_open\<close>); since registration always fails, none of it is reached.
\<close>

section \<open>mac.c and net\_stk.c\<close>

definition ex_notify_for_tx :: "trace \<Rightarrow> trace" where "ex_notify_for_tx t = t"

definition ex_init_buffers :: "env \<Rightarrow> DrvPvt \<Rightarrow> (int \<times> DrvPvt) option" where
  "ex_init_buffers E s =
     (if TxDescArray s = None then Some (- ENOMEM, s)
      else if RxDescArray s = None then Some (- ENOMEM, (free_ring TxRing s)\<lparr>TxDescArray := None\<rparr>)
      else init_buffers_fill E
        (s\<lparr>tx_skb := replicate NUM_TX_DESC \<lparr>ri_skb = None, ri_len = 0\<rparr>,
           rx_skbuff := replicate NUM_RX_DESC None,
           TxDescArray := Some (fresh_ring NUM_TX_DESC),
           RxDescArray := Some (fresh_ring NUM_RX_DESC)\<rparr>))"

definition ex_tx_publish :: "env \<Rightarrow> u32 \<Rightarrow> DrvPvt \<Rightarrow> DrvPvt" where
  "ex_tx_publish E dirty s =
     (if dirty_tx s \<noteq> dirty then
        let s = s\<lparr>dirty_tx := dirty\<rparr>;
            s = (if queue_stopped s \<and> TX_BUFFS_AVAIL s \<ge> MAX_SKB_FRAGS E
                 then netif_wake_queue s else s)
        in if cur_tx s \<noteq> dirty then s\<lparr>tr := ex_notify_for_tx (tr s)\<rparr> else s
      else s)"

definition ex_tx_interrupt :: "env \<Rightarrow> DrvPvt \<Rightarrow> DrvPvt option" where
  "ex_tx_interrupt E s = do {
     (dirty, s) \<leftarrow> tx_loop (unat (cur_tx s - dirty_tx s)) (dirty_tx s) s;
     Some (ex_tx_publish E dirty s)
   }"

definition ex_poll :: "env \<Rightarrow> u32 \<Rightarrow> u32 \<Rightarrow> DrvPvt \<Rightarrow> (u32 \<times> DrvPvt) option" where
  "ex_poll E work_done budget s = do {
     s \<leftarrow> spin_lock s;
     s \<leftarrow> ex_tx_interrupt E s;
     let s = spin_unlock s;
     if work_done < budget
     then Some (work_done, s\<lparr>tr := rtl8101_enable_interrupts IntrEnMask (tr s)\<rparr>)
     else Some (work_done, s)
   }"

definition ex_interrupt :: "env \<Rightarrow> DrvPvt \<Rightarrow> irqreturn \<times> DrvPvt" where
  "ex_interrupt E s =
     (let (status, t) = rtl8101_get_intr_status E (tr s);
          s = s\<lparr>tr := t\<rparr>
      in if status = 0xFFFF \<or> status = 0 then (IRQ_NONE, s)
         else if status AND IntrEnMask = 0 then (IRQ_NONE, s)
         else if \<not> netif_running s then (IRQ_NONE, s)
         else (IRQ_HANDLED, s))"

text \<open>
  The transmit routine. \<open>entry\<close> and \<open>txd\<close> are what the variables of these names happen to hold: any index, and a pointer that is
  bad, or leads to a slot of the transmit ring, or to a descriptor elsewhere, whose content is given. The packet is neither
  mapped nor announced to the device.
\<close>

datatype txd_ptr = TxdBad | TxdSlot nat | TxdElsewhere Desc

definition txd_read :: "txd_ptr \<Rightarrow> DrvPvt \<Rightarrow> Desc option" where
  "txd_read p s =
     (case p of
        TxdBad \<Rightarrow> None
      | TxdSlot i \<Rightarrow> do { descs \<leftarrow> TxDescArray s; idx descs i }
      | TxdElsewhere d \<Rightarrow> Some d)"

definition txd_write :: "txd_ptr \<Rightarrow> Desc \<Rightarrow> DrvPvt \<Rightarrow> DrvPvt" where
  "txd_write p d s =
     (case p of
        TxdSlot i \<Rightarrow> s\<lparr>TxDescArray := map_option (\<lambda>descs. descs[i := d]) (TxDescArray s)\<rparr>
      | _ \<Rightarrow> s)"

definition ex_start_xmit :: "env \<Rightarrow> nat \<Rightarrow> txd_ptr \<Rightarrow> sk_buff \<Rightarrow> DrvPvt \<Rightarrow> (netdev_tx \<times> DrvPvt) option" where
  "ex_start_xmit E entry txd skb s = do {
     s \<leftarrow> spin_lock s;
     if TX_BUFFS_AVAIL s < nr_frags skb then Some (tx_err_stop s)
     else do {
       d \<leftarrow> txd_read txd s;
       if opts1 d AND dbit DescOwn \<noteq> 0 then Some (tx_err_stop s)
       else do {
         _ \<leftarrow> idx (tx_skb s) entry;
         let len = skb_len skb;
         let s = s\<lparr>tr := TakeSkb (skb_ptr skb) # tr s,
                   tx_skb := (tx_skb s)[entry := \<lparr>ri_skb = Some (skb_ptr skb), ri_len = len\<rparr>]\<rparr>;
         let s = txd_write txd (d\<lparr>opts2 := 0, opts1 := tx_opts1 len entry\<rparr>) s;
         let s = s\<lparr>trans_start := jiffies E (tr s)\<rparr>;
         let s = s\<lparr>cur_tx := cur_tx s + 1\<rparr>;
         let s = (if TX_BUFFS_AVAIL s < MAX_SKB_FRAGS E then
                    let s = netif_stop_queue s
                    in if TX_BUFFS_AVAIL s \<ge> MAX_SKB_FRAGS E then netif_wake_queue s else s
                  else s);
         Some (NETDEV_TX_OK, spin_unlock s)
       }
     }
   }"

text \<open>\<^verbatim>\<open>dev\<close> is NULL, so that the function ends with its first test.\<close>

definition ex_net_register_dev :: "pci_dev \<Rightarrow> int \<times> pci_dev" where
  "ex_net_register_dev d = (- ENOMEM, d)"

section \<open>pci\_net.c\<close>

definition ex_probe_mapped :: "env \<Rightarrow> pci_dev \<Rightarrow> int \<times> pci_dev" where
  "ex_probe_mapped E d =
     (let (retval, t) = acquire E DmaMask (bus d);
          d = d\<lparr>bus := t\<rparr>
      in if retval \<noteq> 0 then (retval, pci_unwind d)
         else
           let (_, t) = acquire E Msi (bus d);
               d = d\<lparr>bus := t, drvdata := DrvRegBase\<rparr>;
               (retval, d) = ex_net_register_dev d
           in if retval \<noteq> 0 then
                let d = d\<lparr>drvdata := DrvNull\<rparr>;
                    d = pci_disable_msi_if d
                in (retval, pci_unwind d)
              else (0, d))"

definition ex_probe :: "env \<Rightarrow> pci_dev \<Rightarrow> int \<times> pci_dev" where
  "ex_probe E d =
     (let (retval, t) = acquire E PciDevice (bus d); d = d\<lparr>bus := t\<rparr>
      in if retval \<noteq> 0 then (retval, d)
         else
           let (retval, t) = acquire E Mwi (bus d); d = d\<lparr>bus := t\<rparr>
           in if retval \<noteq> 0 then (retval, d\<lparr>bus := release PciDevice (bus d)\<rparr>)
              else
                let (retval, t) = acquire E Regions (bus d); d = d\<lparr>bus := t\<rparr>
                in if retval \<noteq> 0
                   then (retval, d\<lparr>bus := release PciDevice (release Mwi (bus d))\<rparr>)
                   else
                     let d = d\<lparr>bus := SetMaster # bus d\<rparr>;
                         (null, t) = acquire E RegMap (bus d); d = d\<lparr>bus := t\<rparr>
                     in if null \<noteq> 0
                        then (- ENODEV,
                               d\<lparr>bus := release PciDevice (release Mwi (release Regions (bus d)))\<rparr>)
                        else ex_probe_mapped E d)"

text \<open>
  Removal is the same text as in the completed driver, down to \<^verbatim>\<open>rtl8101_close\<close>: it is \<open>pn_remove\<close>.
\<close>

definition ex_drv_init :: "env \<Rightarrow> trace \<Rightarrow> int \<times> trace" where
  "ex_drv_init E t = acquire E PciDriver t"

definition ex_drv_exit :: "trace \<Rightarrow> trace" where
  "ex_drv_exit t = release PciDriver t"

section \<open>It never drives a device\<close>

definition ex_idle :: "res list \<Rightarrow> pci_dev \<Rightarrow> bool" where
  "ex_idle h d \<longleftrightarrow> drvdata d = DrvNull \<and> netdev d = None \<and> held (bus d) = Some h \<and> clean_trace (bus d) \<and> Msi \<notin> set h"

lemma ex_probe_mapped_spec:
  assumes "drvdata d = DrvNull" "netdev d = None" "held (bus d) = Some (pn_res False h)" "clean_trace (bus d)" "Msi \<notin> set h"
  shows "\<exists>r d'. ex_probe_mapped E d = (r, d') \<and> r \<noteq> 0 \<and> ex_idle h d'"
proof (cases "grant E (bus d) DmaMask = 0")
  case False
  then show ?thesis
    using assms by (auto simp: ex_probe_mapped_def acquire_def Let_def pci_unwind_def release_def ex_idle_def pn_res_def)
next
  case True
  let ?t = "Got DmaMask # bus d"
  let ?m = "grant E ?t Msi"
  let ?d = "d\<lparr>bus := (if ?m = 0 then Got Msi else Denied Msi ?m) # ?t, drvdata := DrvNull\<rparr>"
  have run: "ex_probe_mapped E d = (- ENOMEM, pci_unwind (pci_disable_msi_if ?d))"
    using True by (simp add: ex_probe_mapped_def acquire_def Let_def ex_net_register_dev_def ENOMEM_def)
  have "held (bus ?d) = Some (pn_res (?m = 0) h)" "clean_trace (bus ?d)" using assms by (simp_all add: pn_res_def)
  from pn_release_spec [OF this(1) assms(5) this(2)] have "ex_idle h (pci_unwind (pci_disable_msi_if ?d))"
    using assms by (simp add: ex_idle_def)
  with run show ?thesis by (simp add: ENOMEM_def)
qed

lemma ex_probe_spec:
  assumes "ex_idle h d"
  shows "\<exists>r d'. ex_probe E d = (r, d') \<and> r \<noteq> 0 \<and> ex_idle h d'"
proof -
  let ?t1 = "Got PciDevice # bus d"
  let ?t2 = "Got Mwi # ?t1"
  let ?t3 = "SetMaster # Got Regions # ?t2"
  consider "grant E (bus d) PciDevice \<noteq> 0"
    | "grant E (bus d) PciDevice = 0" "grant E ?t1 Mwi \<noteq> 0"
    | "grant E (bus d) PciDevice = 0" "grant E ?t1 Mwi = 0" "grant E ?t2 Regions \<noteq> 0"
    | "grant E (bus d) PciDevice = 0" "grant E ?t1 Mwi = 0" "grant E ?t2 Regions = 0" "grant E ?t3 RegMap \<noteq> 0"
    | (mapped) "grant E (bus d) PciDevice = 0" "grant E ?t1 Mwi = 0" "grant E ?t2 Regions = 0"
        "grant E ?t3 RegMap = 0" by blast
  then show ?thesis
  proof cases
    case mapped
    then have "ex_probe E d = ex_probe_mapped E (d\<lparr>bus := Got RegMap # ?t3\<rparr>)"
      by (simp add: ex_probe_def acquire_def Let_def)
    then show ?thesis
      using assms ex_probe_mapped_spec [of "d\<lparr>bus := Got RegMap # ?t3\<rparr>" h E]
      by (simp add: ex_idle_def pn_res_def)
  qed (use assms in \<open>auto simp: ex_probe_def acquire_def Let_def ex_idle_def release_def ENODEV_def\<close>)
qed

interpretation ex: pci_driver ex_idle "\<lambda>_ _. False" pn_driven "\<lambda>_. True" "Some \<circ> ex_probe E" "pn_remove E"
    "\<lambda>(e :: unit) _. False" "\<lambda>_. Some" for E
proof unfold_locales
  show "\<exists>r d'. (Some \<circ> ex_probe E) d = Some (r, d') \<and> (if r = 0 then False else ex_idle h d')" if "ex_idle h d" for h d
    using ex_probe_spec [OF that, of E] by auto
qed (simp_all add: ex_idle_def pn_driven_def)

text \<open>
  Whatever the PCI core does with it, the exercise driver refuses every device, without a fault and
  without keeping anything.
\<close>

lemma exercise_never_binds:
  assumes "ex_idle h d0"
    and "reach (pci_enabled pn_driven (\<lambda>_. True) (\<lambda>(e :: unit) _. False)) (pci_step (Some \<circ> ex_probe E) (pn_remove E) (\<lambda>_. Some)) d0 d"
  shows "\<not> pn_driven d \<and> netdev d = None \<and> held (bus d) = Some h \<and> clean_trace (bus d) \<and> fst (ex_probe E d) \<noteq> 0"
proof -
  have "ex_idle h d" using ex.life.reach_inv [OF assms(2), of h] assms(1) by simp
  with ex_probe_spec [OF this, of E] show ?thesis by (auto simp: ex_idle_def pn_driven_def)
qed

section \<open>What the missing statements do\<close>

text \<open>
  The rings cannot be set up; the interrupt handler claims the same interrupts as the completed
  one but neither masks nor acknowledges them nor schedules the poll, so that the device
  keeps its interrupt asserted; and a transmit completion never kicks the device.
\<close>

lemma ex_init_buffers_refuses: "rings_down s \<Longrightarrow> ex_init_buffers E s = Some (- ENOMEM, s)"
  by (simp add: rings_down_def ex_init_buffers_def)

lemma ex_interrupt_claims_only:
  "fst (ex_interrupt E s) = fst (rtl8101_interrupt E s)
    \<and> snd (ex_interrupt E s) = s\<lparr>tr := R16 (reg IntrStatus) (ioread16 E (tr s) (reg IntrStatus)) # tr s\<rparr>"
  by (simp add: ex_interrupt_def rtl8101_interrupt_def rtl8101_get_intr_status_def REG_R16_def Let_def)

lemma ex_start_xmit_silent:
  assumes "ex_start_xmit E entry txd skb s = Some (r, s')"
  shows "tr s' = (if r = NETDEV_TX_OK then TakeSkb (skb_ptr skb) # tr s else tr s) \<and> \<not> lock s'"
  using assms
  by (auto simp: ex_start_xmit_def tx_err_stop_def spin_lock_def spin_unlock_def netif_defs txd_write_def Let_def
      split: if_splits bind_splits txd_ptr.splits)

lemma ex_start_xmit_stray:
  assumes "\<not> lock s" "nr_frags skb \<le> TX_BUFFS_AVAIL s" "txd_read txd s = Some d" "opts1 d AND dbit DescOwn = 0"
    and "length (tx_skb s) \<le> entry"
  shows "ex_start_xmit E entry txd skb s = None"
  using assms by (cases txd) (auto simp: ex_start_xmit_def spin_lock_def txd_read_def idx_def TX_BUFFS_AVAIL_def Let_def)

lemma ex_tx_publish_quiet: "tr (ex_tx_publish E dirty s) = tr s"
  by (simp add: ex_tx_publish_def ex_notify_for_tx_def netif_defs Let_def)

lemma ex_tx_publish_same:
  "(ex_tx_publish E dirty s)\<lparr>tr := t\<rparr> = (tx_publish E dirty s)\<lparr>tr := t\<rparr>"
  by (simp add: ex_tx_publish_def tx_publish_def netif_defs Let_def)

end
