(* ===== verification/Driver_Live.thy ===== *)
theory Driver_Live
  imports Rx_Order
begin

text \<open>
  The running driver never goes to sleep for good. Whenever interrupts are masked or the transmit
  queue is stopped, the event that ends this state is pending: the poll, the reset task, the link
  timer, or the completion of a packet in the ring. The invariant \<open>wakeful\<close> is kept by all events,
  and a poll that finds all packets sent empties the ring and leaves the queue awake.
\<close>

definition wakeful :: "env \<Rightarrow> DrvPvt \<Rightarrow> bool" where
  "wakeful E s \<longleftrightarrow> (netif_running s \<longrightarrow>
     link_timer s \<noteq> None
     \<and> (carrier_ok s \<longrightarrow> irq_mask (tr s) = Some IntrEnMask \<or> napi_scheduled s \<or> task s)
     \<and> (carrier_ok s \<and> queue_stopped s \<longrightarrow> task s \<or> TX_BUFFS_AVAIL s < MAX_SKB_FRAGS E))"

lemma wakeful_down: "\<not> netif_running s \<Longrightarrow> wakeful E s"
  by (simp add: wakeful_def)

lemma wakeful_same:
  assumes "same_core s s'" "netif_running s' = netif_running s" "link_timer s' = link_timer s"
    and "task s \<longrightarrow> task s'" "wakeful E s"
    and "irq_mask (tr s') = irq_mask (tr s) \<and> napi_scheduled s' = napi_scheduled s \<or> napi_scheduled s' \<or> task s'"
  shows "wakeful E s'"
  using assms by (auto simp: wakeful_def same_core_def TX_BUFFS_AVAIL_def)

section \<open>Events\<close>

lemma open_wakeful:
  assumes env: "env_ok E" "irq_granted E" and inv: "drv_inv E h s" and dn: "\<not> netif_running s" "\<not> task s"
    and run: "dev_open E s = Some s'"
  shows "wakeful E s'"
proof -
  let ?s = "s\<lparr>netif_running := True\<rparr>"
  from inv dn have d: "down_inv h s" by (simp add: drv_inv_def)
  with dn(2) have "rings_down ?s" "\<not> napi_enabled ?s" "\<not> task ?s" "held (tr ?s) = Some h"
    by (simp_all add: down_inv_def rings_down_def rings_idle_def)
  from env(1) this show ?thesis
  proof (cases rule: open_spec)
    case (up u)
    with d run have "s' = u" "\<not> carrier_ok u" "link_timer u \<noteq> None"
      by (auto simp: dev_open_def down_inv_def open_up_def)
    then show ?thesis by (simp add: wakeful_def)
  next
    case (nomem u)
    with run have "\<not> netif_running s'" by (auto simp: dev_open_def ENOMEM_def)
    then show ?thesis by (rule wakeful_down)
  next
    case (noirq c u ms)
    with env(2) show ?thesis by (auto simp: irq_granted_def)
  qed
qed

lemma poll_wakeful:
  assumes p: "polled E budget s n s'" and w: "wakeful E s" and run: "netif_running s" "napi_scheduled s"
  shows "wakeful E s'"
proof -
  from p have f: "carrier_ok s' = carrier_ok s" "task s' = task s" "link_timer s' = link_timer s"
    "napi_scheduled s' = (napi_scheduled s \<and> \<not> n < budget)"
    "irq_mask (tr s') = (if n < budget then Some IntrEnMask else irq_mask (tr s))"
    "cur_tx s' = cur_tx s" "dirty_tx s' = dirty_tx s + of_nat (tx_done_count s)"
    "queue_stopped s' \<longleftrightarrow> queue_stopped s \<and> (tx_done_count s = 0 \<or> TX_BUFFS_AVAIL s' < MAX_SKB_FRAGS E)"
    unfolding polled_def by blast+
  have "TX_BUFFS_AVAIL s' = TX_BUFFS_AVAIL s" if "tx_done_count s = 0"
    using f(6,7) that by (simp add: TX_BUFFS_AVAIL_def)
  with f w run show ?thesis by (auto simp: wakeful_def)
qed

lemma interrupt_wakeful:
  assumes w: "wakeful E s" and inv: "netif_running s \<longrightarrow> napi_enabled s"
  shows "wakeful E (snd (rtl8101_interrupt E s))"
proof -
  let ?s = "snd (rtl8101_interrupt E s)"
  have fl: "link_timer ?s = link_timer s" "task ?s = task s" by (subst interrupt_state; simp)+
  have "irq_mask (tr ?s) = irq_mask (tr s) \<and> napi_scheduled ?s = napi_scheduled s \<or> napi_scheduled ?s"
    using interrupt_handled_iff [of E s] inv by (auto simp: Let_def split: prod.splits if_splits)
  then show ?thesis
    by (intro wakeful_same [OF interrupt_core(1,3) fl(1) _ w]) (simp_all only: fl(2), blast+)
qed

lemma link_timer_wakeful:
  assumes free: "\<not> lock s" and w: "wakeful E s" and run: "rtl8101_link_timer E s = Some s'"
    and car: "carrier_ok s' = fst (phy_link_status_on E (tr s))" "link_timer s' \<noteq> None"
  shows "wakeful E s'"
proof (cases "fst (phy_link_status_on E (tr s))")
  case False
  with car show ?thesis by (simp add: wakeful_def)
next
  case True
  then obtain t where ph: "phy_link_status_on E (tr s) = (True, t)" by (metis prod.collapse)
  show ?thesis
  proof (cases "carrier_ok s")
    case on: True
    have "irq_mask t = irq_mask (tr s)"
      using ph by (auto simp: phy_link_status_on_def mac_io_defs REG_defs irq_mask_def)
    then show ?thesis
      using run free ph on w
      by (auto simp: rtl8101_link_timer_def spin_lock_def spin_unlock_def link_status_cases Let_def
          wakeful_def TX_BUFFS_AVAIL_def)
  next
    case off: False
    then show ?thesis
      using run free ph
      by (auto simp: rtl8101_link_timer_def spin_lock_def spin_unlock_def link_status_cases Let_def
          wakeful_def trace_simps)
  qed
qed

lemma exec_wakeful_running:
  assumes env: "env_ok E" and drv: "drv_inv E h s" and on: "netif_running s" and en: "enabled E ev s"
    and run: "exec E ev s = Some s'" and w: "wakeful E s"
  shows "wakeful E s'"
proof (cases ev)
  case Open
  with en on show ?thesis by simp
next
  case Close
  with en have "\<not> napi_scheduled s" "tx_nowrap s" by simp_all
  from dev_close_inv [OF env drv on this] run Close have "\<not> netif_running s'" by auto
  then show ?thesis by (rule wakeful_down)
next
  case (Xmit skb)
  from exec_xmit [OF env drv en [unfolded Xmit]] obtain u where u: "exec E (Xmit skb) s = Some u" "tx_queued E skb s u" .
  note q = u(2) [unfolded exec_det [OF u(1) Xmit run]]
  then have "tx_path_frame s' = tx_path_frame s" by (simp add: tx_queued_def)
  with q w show ?thesis by (auto simp: wakeful_def tx_queued_def dest: tx_path_frameD)
next
  case (Poll b)
  from exec_poll [OF env drv on, of b] obtain n u where u: "exec E (Poll b) s = Some u" "polled E b s n u" .
  from poll_wakeful [OF u(2) [unfolded exec_det [OF u(1) Poll run]] w on] en Poll show ?thesis by simp
next
  case Interrupt
  with run interrupt_wakeful [OF w] drv_inv_running [OF drv on] show ?thesis by (auto simp: run_inv_def)
next
  case LinkTimer
  from exec_link_timer [OF env drv on en [unfolded LinkTimer]] obtain u where
    u: "exec E LinkTimer s = Some u" "carrier_ok u = fst (phy_link_status_on E (tr s))" "link_timer u \<noteq> None" .
  from drv_inv_running [OF drv on] have "\<not> lock s" by simp
  from link_timer_wakeful [OF this w, of s'] u(2,3) run LinkTimer show ?thesis
    unfolding exec_det [OF u(1) LinkTimer run] by simp
next
  case ResetTask
  from exec_reset_task [OF env drv on en [unfolded ResetTask]] obtain u where u: "exec E ResetTask s = Some u"
    "link_timer u = link_timer s" "task u \<or> irq_mask (tr u) = Some IntrEnMask \<and> \<not> queue_stopped u" .
  from u(2,3) w on show ?thesis unfolding exec_det [OF u(1) ResetTask run] by (auto simp: wakeful_def)
next
  case TxTimeout
  from exec_tx_timeout [OF drv on] obtain u where u: "exec E TxTimeout s = Some u" "task u" "link_timer u = link_timer s" .
  from u(2,3) w on show ?thesis unfolding exec_det [OF u(1) TxTimeout run] by (auto simp: wakeful_def)
next
  case (NicRx e o1 o2)
  with run obtain descs where "s' = s\<lparr>RxDescArray := Some descs\<rparr>"
    by (auto simp: nic_rx_def bind_eq_Some_conv)
  with w show ?thesis by (simp add: wakeful_def TX_BUFFS_AVAIL_def)
next
  case (NicTx e o1 o2)
  with run obtain descs where "s' = s\<lparr>TxDescArray := Some descs\<rparr>"
    by (auto simp: nic_tx_def bind_eq_Some_conv)
  with w show ?thesis by (simp add: wakeful_def TX_BUFFS_AVAIL_def)
qed

lemma exec_wakeful_down:
  assumes env: "env_ok E" "irq_granted E" and drv: "drv_inv E h s" and dn: "\<not> netif_running s"
    and en: "enabled E ev s" and run: "exec E ev s = Some s'"
  shows "wakeful E s'"
proof -
  from drv dn have "\<not> napi_scheduled s" "link_timer s = None" by (simp_all add: drv_inv_def down_inv_def)
  with en dn consider "ev = Open" | "ev = Interrupt" | "ev = ResetTask" by (cases ev) auto
  then show ?thesis
  proof cases
    case 1
    with open_wakeful [OF env drv dn] en run show ?thesis by simp
  next
    case 2
    with run interrupt_core(3) [where s = s and E = E] dn show ?thesis by (auto intro: wakeful_down)
  next
    case 3
    with run dn show ?thesis by (auto simp: rtl8101_reset_task_def intro: wakeful_down)
  qed
qed

lemma exec_live:
  assumes "machine_inv E h s \<and> wakeful E s" "enabled E ev s"
  shows "\<exists>s'. exec E ev s = Some s' \<and> machine_inv E h s' \<and> wakeful E s'"
proof -
  from assms exec_ok [of E h s ev] obtain s' where s': "exec E ev s = Some s'" "machine_inv E h s'" by blast
  from assms(1) have "env_ok E" "irq_granted E" "drv_inv E h s" "wakeful E s" by (simp_all add: machine_inv_def)
  with exec_wakeful_running exec_wakeful_down assms(2) s'(1) have "wakeful E s'" by blast
  with s' show ?thesis by blast
qed

interpretation live: machine "\<lambda>s. machine_inv E h s \<and> wakeful E s" "enabled E" "exec E" for E h
  by unfold_locales (rule exec_live)

section \<open>Draining the ring\<close>

lemma full_ring_queue:
  assumes "env_ok E" "TX_BUFFS_AVAIL s < MAX_SKB_FRAGS E"
  shows "tx_queue s \<noteq> []"
proof
  assume "tx_queue s = []"
  then have "cur_tx s = dirty_tx s"
    by (simp add: tx_queue_def tx_window_def ring_window_def unat_eq_zero)
  then have "unat (TX_BUFFS_AVAIL s) = NUM_TX_DESC - 1"
    using unat_TX_BUFFS_AVAIL [of s] by (simp add: txr.N_pos)
  with assms show False by (auto simp: env_ok_def word_less_nat_alt)
qed

lemma poll_drains:
  assumes env: "env_ok E" and inv: "run_inv E h s" "\<not> lock s" "wakeful E s"
    and up: "netif_running s" "carrier_ok s" "\<not> task s"
    and sent: "\<forall>e \<in> set (tx_window s). tx_done s e"
  obtains n s' where "rtl8101_poll E budget s = Some (n, s')" "tx_queue s' = []"
    "freed (tr s') = freed (tr s) @ tx_queue s" "\<not> queue_stopped s'" "run_inv E h s'" "\<not> lock s'"
proof -
  from poll_inv [OF env inv(1,2), of budget] obtain n s' where
    p: "rtl8101_poll E budget s = Some (n, s')" "polled E budget s n s'" "run_inv E h s'" "\<not> lock s'" .
  have all: "tx_done_count s = length (tx_queue s)"
    unfolding tx_done_count_def tx_queue_def length_map
    using takeWhile_eq_all_conv [of "tx_done s" "tx_window s"] sent by metis
  with p(2) have q: "tx_queue s' = []" "freed (tr s') = freed (tr s) @ tx_queue s"
    "queue_stopped s' \<longleftrightarrow> queue_stopped s \<and> (tx_queue s = [] \<or> TX_BUFFS_AVAIL s' < MAX_SKB_FRAGS E)"
    by (auto simp: polled_def)
  have "\<not> queue_stopped s'"
    using q(1,3) full_ring_queue [OF env, of s] full_ring_queue [OF env, of s'] inv(3) up
    by (auto simp: wakeful_def)
  with that p q show thesis by blast
qed

end
