(* ===== verification/Live_Props.thy ===== *)
theory Live_Props
  imports Driver_Live Examples
begin

text \<open>
  What keeps the running Realtek driver going, and what a lost link does to frames that have been
  received but not yet passed on.
\<close>

text \<open>
  C9. The driver never goes to sleep for good. In every reachable running state the link timer is
  armed; with the link up, interrupts are unmasked, or the poll or the reset task that unmasks them
  is pending; a stopped transmit queue has the reset task pending or packets in the ring. And once
  the device has sent what is in the ring, a poll frees all of it, in order, and leaves the queue
  awake.
\<close>

theorem driver_never_stuck:
  assumes "env_ok E" "irq_granted E" "drv_inv E h s0" "\<not> netif_running s0"
    and "reach (enabled E) (exec E) s0 s" "netif_running s"
  shows "link_timer s \<noteq> None
    \<and> (carrier_ok s \<longrightarrow> irq_mask (tr s) = Some IntrEnMask \<or> napi_scheduled s \<or> task s)
    \<and> (carrier_ok s \<and> queue_stopped s \<longrightarrow> task s \<or> tx_queue s \<noteq> [])
    \<and> (carrier_ok s \<and> \<not> task s \<and> (\<forall>e \<in> set (tx_window s). \<not> nic_owned (tx_desc_at s e)) \<longrightarrow>
         (\<forall>budget. \<exists>n s'. rtl8101_poll E budget s = Some (n, s') \<and> tx_queue s' = []
            \<and> freed (tr s') = freed (tr s) @ tx_queue s \<and> \<not> queue_stopped s'))"
proof -
  have inv: "machine_inv E h s \<and> wakeful E s"
    by (rule live.reach_inv [OF assms(5)]) (use assms(1-4) wakeful_down in \<open>simp add: machine_inv_def\<close>)
  then have w: "wakeful E s" and r: "run_inv E h s" "\<not> lock s"
    using drv_inv_running [OF _ assms(6)] by (auto simp: machine_inv_def)
  have "\<exists>n s'. rtl8101_poll E budget s = Some (n, s') \<and> tx_queue s' = []
      \<and> freed (tr s') = freed (tr s) @ tx_queue s \<and> \<not> queue_stopped s'"
    if up: "carrier_ok s" "\<not> task s" and sent: "\<forall>e \<in> set (tx_window s). \<not> nic_owned (tx_desc_at s e)" for budget
  proof -
    from sent have "\<forall>e \<in> set (tx_window s). tx_done s e" by (simp add: tx_done_def)
    from poll_drains [OF assms(1) r w assms(6) up this, of budget] show ?thesis by metis
  qed
  moreover have "task s \<or> tx_queue s \<noteq> []" if "carrier_ok s" "queue_stopped s"
    using w that assms(6) full_ring_queue [OF assms(1), of s] by (auto simp: wakeful_def)
  ultimately show ?thesis using w assms(6) by (simp add: wakeful_def)
qed

theorem driver_never_stuck_witness:
  "link_timer link0 \<noteq> None \<and> (irq_mask (tr link0) = Some IntrEnMask \<or> napi_scheduled link0 \<or> task link0)
    \<and> (\<exists>n s'. rtl8101_poll env0 64 link0 = Some (n, s') \<and> tx_queue s' = [] \<and> \<not> queue_stopped s')"
proof -
  have "exec env0 Open dev0 = Some up0" "enabled env0 Open dev0" using open_up0(1) dev0_inv(2) dev0_task by simp_all
  then have "reach (enabled env0) (exec env0) dev0 link0"
    using up0_link_enabled link0(1) by (blast intro: reach_start reach_step)
  moreover have "tx_window link0 = []" using link0(10,11) by (simp add: tx_window_def)
  ultimately show ?thesis
    using driver_never_stuck [OF env0_ok(1,2) dev0_inv, of link0] link0(3,4,15) by fastforce
qed

section \<open>Frames in the ring when the link is lost\<close>

text \<open>A poll that finds the first slot of its window still with the device passes nothing on.\<close>

lemma rx_blocked:
  assumes inv: "rx_inv s" and own: "\<not> rx_done s (ring_slot NUM_RX_DESC (cur_rx s))"
  obtains s' where "rtl8101_rx_interrupt E budget s = Some (0, s')" "received (tr s') = received (tr s)"
proof -
  have none: "rx_ready budget s = []"
  proof (cases "rx_limit budget s = 0")
    case True
    then show ?thesis by (simp add: rx_ready_def)
  next
    case False
    with rxr.window_Cons [of "cur_rx s" "cur_rx s + rx_limit budget s"] own show ?thesis
      by (simp add: rx_ready_def)
  qed
  from rx_interrupt_spec [OF inv, of E budget] obtain n s' where
    "rtl8101_rx_interrupt E budget s = Some (n, s')" "rx_polled E budget s n s'" .
  with none that show thesis by (auto simp: rx_polled_def rx_good_def unat_eq_zero)
qed

text \<open>
  C15. When the link is lost while received frames wait in the ring, and the ring index is not just
  at its first slot, the frames are stranded: the indices start over at slot 0, the buffers and
  their finished descriptors stay, and the next poll, whatever its budget, passes none of them on.
\<close>

theorem link_loss_strands_frames:
  assumes "env_ok E" "run_inv E h s" "\<not> lock s" "tx_nowrap s" "dirty_rx s = cur_rx s"
    and "carrier_ok s" "\<not> fst (phy_link_status_on E (tr s))"
    and "rx_order s" "e \<in> set (rx_run s)" "0 \<notin> set (rx_run s)"
  shows "\<exists>s'. rtl8101_link_timer E s = Some s' \<and> rx_skbuff s' ! e \<noteq> None \<and> \<not> nic_owned (rx_desc_at s' e)
    \<and> (\<forall>E' budget. \<exists>s''. rtl8101_rx_interrupt E' budget s' = Some (0, s'') \<and> received (tr s'') = received (tr s))"
proof -
  have rx: "rx_inv s" and "tx_ring_ok s" using assms(2) by (simp_all add: run_inv_def tx_inv_def)
  from link_drop_state [OF assms(1) this(2) assms(4,3,6,7)] obtain s' where
    s': "rtl8101_link_timer E s = Some s'" "RxDescArray s' = RxDescArray s" "rx_skbuff s' = rx_skbuff s"
      "cur_rx s' = 0" "dirty_rx s' = 0" "received (tr s') = received (tr s)"
      "rx_buf_sz s' = rx_buf_sz s" .
  from link_timer_inv [OF assms(1-5)] s'(1) have rx': "rx_inv s'" by (auto simp: run_inv_def)
  have desc: "rx_desc_at s' x = rx_desc_at s x" for x using s'(2) by (simp add: rx_desc_at_def)
  have "rx_skbuff s ! 0 \<noteq> None" using rx assms(5) rxr.N_pos by (simp add: rx_inv_def rx_window_def)
  then have own: "\<not> rx_done s' 0"
    using assms(8,10) rxr.N_pos by (simp add: rx_order_def rx_done_def desc)
  then have "\<not> rx_done s' (ring_slot NUM_RX_DESC (cur_rx s'))" by (simp add: s'(4) ring_slot_def)
  from rx_blocked [OF rx' this]
  have "\<exists>s''. rtl8101_rx_interrupt E' budget s' = Some (0, s'') \<and> received (tr s'') = received (tr s)" for E' budget
    using s'(6) by metis
  moreover have "rx_skbuff s' ! e \<noteq> None" "\<not> nic_owned (rx_desc_at s' e)"
    using rx_run_slots(2,3) [OF rx assms(9)] s'(3) by (simp_all add: rx_done_def desc)
  ultimately show ?thesis using s'(1) by blast
qed

text \<open>A device that has taken one frame and has a second one, in slot 1, when the link is lost.\<close>

definition late0 :: DrvPvt where
  "late0 = the (nic_rx 1 64 0 (link0\<lparr>cur_rx := 1, dirty_rx := 1\<rparr>))"

definition unplugged :: env where "unplugged = env0\<lparr>ioread8 := \<lambda>_ _. 0\<rparr>"

lemma late0: "run_inv unplugged [] late0" "\<not> lock late0" "tx_nowrap late0" "dirty_rx late0 = cur_rx late0"
  "carrier_ok late0" "rx_order late0" "rx_run late0 = [1]" "cur_rx late0 = 1"
proof -
  let ?s = "link0\<lparr>cur_rx := 1, dirty_rx := 1\<rparr>"
  have tx: "tx_inv unplugged ?s" using link0(6) tx_inv_cong(1) [of ?s link0 env0]
    by (simp add: run_inv_def tx_inv_def unplugged_def env0_def)
  have full: "rx_inv link0" using link0(6) by (simp add: run_inv_def)
  then have rx: "rx_inv ?s" using link0(12,13) rx_ring_ok_cong [of ?s link0]
    by (simp add: rx_inv_def rx_window_def)
  with tx link0(6,11) have r: "run_inv unplugged [] ?s" by (simp add: run_inv_def)
  have own: "\<forall>e < NUM_RX_DESC. nic_owned (rx_desc_at ?s e)" using link0(14) by (simp add: rx_desc_at_def)
  note E = rx_run_empty [OF rx]
  have N: "1 < NUM_RX_DESC" by (simp add: NUM_RX_DESC_def)
  have "1 \<noteq> (1 :: u32) + of_nat NUM_RX_DESC" by (simp add: NUM_RX_DESC_def)
  from rxr.window_Cons [OF this] own E have nxt: "nic_next 1 ?s"
    using N by (simp add: nic_next_def rx_fresh_def ring_slot_def)
  from rx obtain descs where d: "RxDescArray ?s = Some descs" "rx_slot_ok 1 (descs ! 1) (rx_skbuff ?s ! 1)"
    using N by (auto simp: rx_inv_def elim!: rx_ring_okE)
  then have "\<not> ring_end (rx_desc_at ?s 1)" by (simp add: rx_slot_ok_def rx_desc_at_def NUM_RX_DESC_def)
  then have z: "opts1 (rx_desc_at ?s 1) AND dbit RingEnd = 0" unfolding ring_end_def by blast
  have "64 AND dbit RingEnd = opts1 (rx_desc_at ?s 1) AND dbit RingEnd" unfolding z by simp
  then have ok: "nic_rx_ok 1 64 ?s"
    using own N by (simp add: nic_rx_ok_def rx_status_ok_def RX_BUF_SIZE_def)
  from nic_rx_inv [OF r ok, of 0] obtain u where
    u: "nic_rx 1 64 0 ?s = Some u" "run_inv unplugged [] u" .
  then have late: "nic_rx 1 64 0 ?s = Some late0" "run_inv unplugged [] late0" by (simp_all add: late0_def)
  then show "run_inv unplugged [] late0" by simp
  from late(1) have "\<exists>da. late0 = ?s\<lparr>RxDescArray := Some da\<rparr>"
    unfolding nic_rx_def bind_eq_Some_conv by (auto dest: sym)
  then obtain da where "late0 = ?s\<lparr>RxDescArray := Some da\<rparr>" by blast
  note eq = arg_cong [OF this]
  show "\<not> lock late0" "tx_nowrap late0" "dirty_rx late0 = cur_rx late0" "carrier_ok late0"
    "cur_rx late0 = 1"
    using link0(3,7,11) eq [of lock] eq [of dirty_tx] eq [of dirty_rx] eq [of cur_rx] eq [of carrier_ok]
    by (simp_all add: tx_nowrap_def NUM_TX_DESC_def)
  from nic_rx_run [OF rx _ nxt ok late(1)] E own show "rx_order late0" "rx_run late0 = [1]" by auto
qed

theorem link_loss_strands_frames_witness:
  "\<exists>s'. rtl8101_link_timer unplugged late0 = Some s' \<and> rx_skbuff s' ! 1 \<noteq> None \<and> \<not> nic_owned (rx_desc_at s' 1)
    \<and> (\<forall>E' budget. \<exists>s''. rtl8101_rx_interrupt E' budget s' = Some (0, s'')
         \<and> received (tr s'') = received (tr late0))"
proof -
  have "env_ok unplugged" using env0_ok(1) by (simp add: env_ok_def unplugged_def)
  moreover have "\<not> fst (phy_link_status_on unplugged (tr late0))"
    by (simp add: phy_link_status_on_def REG_defs unplugged_def)
  ultimately show ?thesis
    using link_loss_strands_frames [OF _ late0(1-5) _ late0(6), of 1] late0(7) by simp
qed

end
