(* ===== verification/Poll_Race.thy ===== *)
theory Poll_Race
  imports Live_Props
begin

text \<open>
  The receive half of the poll and the link timer. \<^verbatim>\<open>rtl8101_poll\<close> calls
  \<^verbatim>\<open>rtl8101_rx_interrupt\<close> before it takes the lock, and the link timer, which does hold the
  lock, resets the receive indices when the link is lost; on two processors the timer can run while
  the poll is in the receive loop. The routine is split at the point where the loop has ended and
  the index has not been stored yet, and the timer is put in between.
  The test for a missing ring before the loop is the premise of \<open>rx_interrupt_halves\<close>.
\<close>

definition rx_scan :: "u32 \<Rightarrow> DrvPvt \<Rightarrow> (u32 \<times> DrvPvt) option" where
  "rx_scan budget s = rx_loop (unat (min (of_nat NUM_RX_DESC + dirty_rx s - cur_rx s) budget)) (cur_rx s) s"

definition rx_store :: "env \<Rightarrow> u32 \<Rightarrow> DrvPvt \<Rightarrow> (u32 \<times> DrvPvt) option" where
  "rx_store E cur s = do {
     let count = cur - cur_rx s;
     let s = s\<lparr>cur_rx := cur\<rparr>;
     (delta, s) \<leftarrow> rtl8101_rx_fill E (dirty_rx s) (cur_rx s) s;
     Some (count, s\<lparr>dirty_rx := dirty_rx s + delta\<rparr>)
   }"

text \<open>The index at which the loop ends.\<close>

definition rx_end :: "u32 \<Rightarrow> DrvPvt \<Rightarrow> u32" where
  "rx_end budget s = cur_rx s + of_nat (length (rx_ready budget s))"

text \<open>With nothing in between, the two halves are the routine.\<close>

lemma rx_interrupt_halves:
  "RxDescArray s \<noteq> None \<Longrightarrow>
     rtl8101_rx_interrupt E budget s = rx_scan budget s \<bind> (\<lambda>(cur, s). rx_store E cur s)"
  by (clarsimp simp: rtl8101_rx_interrupt_def rx_scan_def rx_store_def Let_def)

lemma rx_scan_spec:
  assumes inv: "rx_inv s"
  obtains s1 where "rx_scan budget s = Some (rx_end budget s, s1)" "rx_taken (rx_ready budget s) s s1"
proof -
  note F = rx_ready_facts [OF inv, of budget]
  from inv have "rx_ring_ok s" by (simp add: rx_inv_def)
  from rx_loop_spec [OF this _ F(1)] F(2) that show thesis
    by (auto simp: rx_ready_def rx_scan_def rx_end_def rx_limit_def [symmetric])
qed

text \<open>
  The second half from indices that were reset to 0: with memory for the buffers, every slot up to
  the stored index is filled and the index itself is reported as the work done.
\<close>

lemma rx_store_reset:
  assumes ring: "rx_ring_ok s" and zero: "cur_rx s = 0" "dirty_rx s = 0" and mem: "skbs_available E"
  obtains s' where "rx_store E c s = Some (c, s')" "rx_ring_ok s'" "cur_rx s' = c" "dirty_rx s' = c"
    "received (tr s') = received (tr s)"
    "\<And>e. rx_skbuff s ! e \<noteq> None \<Longrightarrow> rx_skbuff s' ! e = rx_skbuff s ! e \<and> rx_desc_at s' e = rx_desc_at s e"
    "\<And>j. j < unat c \<Longrightarrow> rx_skbuff s' ! (j mod NUM_RX_DESC) \<noteq> None"
proof -
  have "rx_ring_ok (s\<lparr>cur_rx := c\<rparr>)" using ring by simp
  from rx_fill_spec [OF this, of E 0 c] obtain n u where
    u: "rtl8101_rx_fill E 0 c (s\<lparr>cur_rx := c\<rparr>) = Some (n, u)" "rx_growing (s\<lparr>cur_rx := c\<rparr>) u"
      "\<forall>j < unat n. rx_skbuff u ! ((unat (0 :: u32) + j) mod NUM_RX_DESC) \<noteq> None"
      "skbs_available E \<longrightarrow> n = c - 0" .
  from u(4) mem have n: "n = c" by simp
  from u(2) have fr: "rx_frame u = rx_frame (s\<lparr>cur_rx := c\<rparr>)" "rx_ring_ok u"
    "received (tr u) = received (tr s)" "rx_renewed {} (s\<lparr>cur_rx := c\<rparr>) u"
    by (simp_all add: rx_growing_def)
  note D = rx_frameD(1,2) [OF fr(1)]
  from u(1) D zero have "rx_store E c s = Some (c, u\<lparr>dirty_rx := c\<rparr>)"
    by (simp add: rx_store_def n)
  then show thesis
    by (rule that) (use fr(2-4) D u(3) n in \<open>auto simp: rx_renewed_def rx_desc_at_def\<close>)
qed

text \<open>After the two halves every slot of the ring has a buffer again.\<close>

lemma rx_store_refills:
  assumes inv: "rx_inv s" and eq: "dirty_rx s = cur_rx s" and fit: "unat (cur_rx s) + NUM_RX_DESC < 2 ^ 32"
    and c: "c = rx_end budget s"
    and keep: "\<And>e. e \<notin> set (rx_ready budget s) \<Longrightarrow> rx_skbuff s ! e \<noteq> None \<Longrightarrow> rx_skbuff s' ! e \<noteq> None"
    and fill: "\<And>j. j < unat c \<Longrightarrow> rx_skbuff s' ! (j mod NUM_RX_DESC) \<noteq> None"
    and ring: "rx_ring_ok s'" and idx: "cur_rx s' = c" "dirty_rx s' = c"
  shows "rx_inv s'"
proof -
  note F = rx_ready_facts [OF inv, of budget]
  let ?k = "length (rx_ready budget s)"
  have sum: "unat (cur_rx s) + ?k < 2 ^ 32" using F(5) fit by linarith
  have uc: "unat c = unat (cur_rx s) + ?k"
    unfolding c rx_end_def using sum unat_add_lem [of "cur_rx s" "of_nat ?k"] by (simp add: F(3))
  have "rx_skbuff s' ! e \<noteq> None" if e: "e < NUM_RX_DESC" for e
  proof (cases "e \<in> set (rx_ready budget s)")
    case True
    then have "e \<in> set (ring_window NUM_RX_DESC (cur_rx s) (cur_rx s + of_nat ?k))" by (simp only: F(4))
    then obtain j where "j < ?k" "e = (unat (cur_rx s) + j) mod NUM_RX_DESC"
      by (auto simp: ring_window_def F(3))
    with fill [of "unat (cur_rx s) + j"] uc show ?thesis by simp
  next
    case False
    have "rx_skbuff s ! e \<noteq> None" using inv eq e by (simp add: rx_inv_def rx_window_def)
    with keep False show ?thesis by blast
  qed
  then show ?thesis using ring idx by (simp add: rx_inv_def)
qed

text \<open>A frame that the device writes into a slot away from the driver's index is not passed on.\<close>

lemma rx_misplaced:
  assumes inv: "rx_inv s" and own: "nic_owned (rx_desc_at s (ring_slot NUM_RX_DESC (cur_rx s)))"
    and ne: "e \<noteq> ring_slot NUM_RX_DESC (cur_rx s)" and ok: "nic_rx_ok e o1 s"
  obtains s' where "nic_rx e o1 o2 s = Some s'" "rx_done s' e"
    "\<And>E budget. \<exists>u. rtl8101_rx_interrupt E budget s' = Some (0, u) \<and> received (tr u) = received (tr s)"
proof -
  from nic_rx_ring [OF inv ok, of o2] obtain descs where
    s': "nic_rx e o1 o2 s = Some (s\<lparr>RxDescArray := Some descs\<rparr>)" "rx_inv (s\<lparr>RxDescArray := Some descs\<rparr>)" .
  let ?s = "s\<lparr>RxDescArray := Some descs\<rparr>"
  from inv have "rx_ring_ok s" by (simp add: rx_inv_def)
  from nic_rx_desc(1) [OF this _ s'(1)] ok ne own
  have d: "\<not> rx_done ?s (ring_slot NUM_RX_DESC (cur_rx ?s))" "rx_done ?s e"
    by (simp_all add: nic_rx_ok_def rx_done_def nic_owned_def)
  have "\<exists>u. rtl8101_rx_interrupt E budget ?s = Some (0, u) \<and> received (tr u) = received (tr s)" for E budget
  proof -
    from rx_blocked [OF s'(2) d(1), of E budget] obtain u where
      "rtl8101_rx_interrupt E budget ?s = Some (0, u)" "received (tr u) = received (tr ?s)" .
    then show ?thesis by simp
  qed
  with that s'(1) d(2) show thesis by blast
qed

text \<open>
  The loop, the timer and the second half: the indices end where the loop did, every slot has a
  buffer, and the descriptors of the slots that the loop did not take are as before.
\<close>

lemma overtaken_poll:
  assumes env: "env_ok E" "skbs_available E" "\<forall>t. \<not> fst (phy_link_status_on E t)"
    and run: "run_inv E h s" "\<not> lock s" "tx_nowrap s" "carrier_ok s"
    and rx: "dirty_rx s = cur_rx s" "unat (cur_rx s) + NUM_RX_DESC < 2 ^ 32"
  obtains s1 s2 s3 where "rx_scan budget s = Some (rx_end budget s, s1)" "rx_taken (rx_ready budget s) s s1"
    "rtl8101_link_timer E s1 = Some s2" "cur_rx s2 = 0" "dirty_rx s2 = 0"
    "rx_store E (rx_end budget s) s2 = Some (rx_end budget s, s3)" "rx_inv s3"
    "cur_rx s3 = rx_end budget s" "dirty_rx s3 = rx_end budget s" "received (tr s3) = received (tr s1)"
    "\<And>e. e < NUM_RX_DESC \<Longrightarrow> e \<notin> set (rx_ready budget s) \<Longrightarrow> rx_desc_at s3 e = rx_desc_at s e"
proof -
  have inv: "rx_inv s" and tx: "tx_ring_ok s" using run(1) by (simp_all add: run_inv_def tx_inv_def)
  from rx_scan_spec [OF inv, of budget] obtain s1 where
    s1: "rx_scan budget s = Some (rx_end budget s, s1)" "rx_taken (rx_ready budget s) s s1" .
  from s1(2) have fr: "rx_frame s1 = rx_frame s" and ring: "rx_ring_ok s1" by (simp_all add: rx_taken_def)
  note F = rx_frameD [OF fr]
  have pre: "tx_ring_ok s1" "tx_nowrap s1" "\<not> lock s1" "carrier_ok s1"
    using tx run(2-4) F tx_ring_ok_cong [of s1 s] by (simp_all add: tx_nowrap_def)
  from link_drop_state [OF env(1) pre env(3) [rule_format]] obtain s2 where
    s2: "rtl8101_link_timer E s1 = Some s2" "RxDescArray s2 = RxDescArray s1" "rx_skbuff s2 = rx_skbuff s1"
      "cur_rx s2 = 0" "dirty_rx s2 = 0" "received (tr s2) = received (tr s1)" "rx_buf_sz s2 = rx_buf_sz s1" .
  have "rx_ring_ok s2" using ring s2(2,3,7) rx_ring_ok_cong [of s2 s1] by simp
  from rx_store_reset [OF this s2(4,5) env(2), of "rx_end budget s"] obtain s3 where
    s3: "rx_store E (rx_end budget s) s2 = Some (rx_end budget s, s3)" "rx_ring_ok s3"
      "cur_rx s3 = rx_end budget s" "dirty_rx s3 = rx_end budget s" "received (tr s3) = received (tr s2)"
      "\<And>e. rx_skbuff s2 ! e \<noteq> None \<Longrightarrow> rx_skbuff s3 ! e = rx_skbuff s2 ! e \<and> rx_desc_at s3 e = rx_desc_at s2 e"
      "\<And>j. j < unat (rx_end budget s) \<Longrightarrow> rx_skbuff s3 ! (j mod NUM_RX_DESC) \<noteq> None" by blast
  have keep: "rx_skbuff s3 ! e \<noteq> None \<and> rx_desc_at s3 e = rx_desc_at s e"
    if "e \<notin> set (rx_ready budget s)" "rx_skbuff s ! e \<noteq> None" for e
    using rx_taken_other [OF s1(2) that(1)] s3(6) [of e] that(2) s2(2,3) by (simp add: rx_desc_at_def)
  have "rx_inv s3" using rx_store_refills [OF inv rx refl, of budget s3] keep s3(2-4,7) by simp
  moreover have "rx_skbuff s ! e \<noteq> None" if "e < NUM_RX_DESC" for e
    using inv rx(1) that by (simp add: rx_inv_def rx_window_def)
  ultimately show thesis using that [OF s1 s2(1,4,5) s3(1) _ s3(3,4)] keep s2(6) s3(5) by simp
qed

text \<open>
  C19. A poll that is overtaken by the loss of the link. The poll has passed its frames up and is about
  to store its index when the link timer resets both receive indices to 0. The poll then reports the
  value of the index as its work, whatever its budget and however few frames it handled, and puts the
  old index back. The device, started anew at slot 0 once the link is back, writes its first frame
  there, and no poll of any budget passes this frame on.
\<close>

theorem link_loss_inside_poll:
  assumes env: "env_ok E" "skbs_available E" "\<forall>t. \<not> fst (phy_link_status_on E t)"
    and run: "run_inv E h s" "\<not> lock s" "tx_nowrap s" "carrier_ok s"
    and rx: "dirty_rx s = cur_rx s" "unat (cur_rx s) + NUM_RX_DESC < 2 ^ 32"
    and own: "nic_owned (rx_desc_at s 0)" "nic_owned (rx_desc_at s (ring_slot NUM_RX_DESC (rx_end budget s)))"
    and ne: "ring_slot NUM_RX_DESC (rx_end budget s) \<noteq> 0"
    and frame: "o1 AND dbit DescOwn = 0" "o1 AND dbit RingEnd = 0" "rx_status_ok o1"
  shows "\<exists>s1 s2 s3 s4. rx_scan budget s = Some (rx_end budget s, s1)
    \<and> received (tr s1) = received (tr s) @ map (rx_packet s) (rx_good s (rx_ready budget s))
    \<and> rtl8101_link_timer E s1 = Some s2 \<and> cur_rx s2 = 0 \<and> dirty_rx s2 = 0
    \<and> rx_store E (rx_end budget s) s2 = Some (rx_end budget s, s3)
    \<and> cur_rx s3 = rx_end budget s \<and> dirty_rx s3 = rx_end budget s
    \<and> nic_rx 0 o1 o2 s3 = Some s4 \<and> rx_done s4 0
    \<and> (\<forall>E' b. \<exists>u. rtl8101_rx_interrupt E' b s4 = Some (0, u) \<and> received (tr u) = received (tr s1))"
proof -
  let ?c = "rx_end budget s" and ?slot = "ring_slot NUM_RX_DESC (rx_end budget s)"
  from overtaken_poll [OF env run rx, of budget] obtain s1 s2 s3 where
    poll: "rx_scan budget s = Some (?c, s1)" "rx_taken (rx_ready budget s) s s1"
      "rtl8101_link_timer E s1 = Some s2" "cur_rx s2 = 0" "dirty_rx s2 = 0"
      "rx_store E ?c s2 = Some (?c, s3)" "rx_inv s3" "cur_rx s3 = ?c" "dirty_rx s3 = ?c"
      "received (tr s3) = received (tr s1)"
    and desc: "\<And>e. e < NUM_RX_DESC \<Longrightarrow> e \<notin> set (rx_ready budget s) \<Longrightarrow> rx_desc_at s3 e = rx_desc_at s e"
    by blast
  have still: "nic_owned (rx_desc_at s3 e)" if "nic_owned (rx_desc_at s e)" "e < NUM_RX_DESC" for e
  proof -
    have "e \<notin> set (rx_ready budget s)" using that(1) by (auto simp: rx_ready_def rx_done_def dest: set_takeWhileD)
    with desc [OF that(2)] that(1) show ?thesis by simp
  qed
  from poll(7) have "opts1 (rx_desc_at s3 0) AND dbit RingEnd = 0"
    by (auto elim!: rx_ring_okE simp: rx_inv_def rx_slot_ok_def rx_desc_at_def ring_end_def NUM_RX_DESC_def)
  then have "o1 AND dbit RingEnd = opts1 (rx_desc_at s3 0) AND dbit RingEnd" by (simp only: frame(2))
  then have ok: "nic_rx_ok 0 o1 s3"
    using frame(1,3) still [OF own(1)] rxr.N_pos unfolding nic_rx_ok_def by simp
  have "nic_owned (rx_desc_at s3 (ring_slot NUM_RX_DESC (cur_rx s3)))" "0 \<noteq> ring_slot NUM_RX_DESC (cur_rx s3)"
    using still [OF own(2)] ne poll(8) by simp_all
  from rx_misplaced [OF poll(7) this ok, of o2] obtain s4 where
    "nic_rx 0 o1 o2 s3 = Some s4" "rx_done s4 0"
    "\<And>E' b. \<exists>u. rtl8101_rx_interrupt E' b s4 = Some (0, u) \<and> received (tr u) = received (tr s3)" by blast
  with poll show ?thesis
    by (intro exI [of _ s1] exI [of _ s2] exI [of _ s3] exI [of _ s4]) (simp add: rx_taken_def)
qed

text \<open>
  The device with one frame in slot 1: a poll with a budget of 1 handles this frame and reports 2.
\<close>

theorem link_loss_inside_poll_witness:
  "\<exists>s1 s2 s3 s4. rx_scan 1 late0 = Some (2, s1) \<and> rtl8101_link_timer unplugged s1 = Some s2
    \<and> rx_store unplugged 2 s2 = Some (2, s3) \<and> cur_rx s3 = 2 \<and> nic_rx 0 64 0 s3 = Some s4 \<and> rx_done s4 0
    \<and> (\<forall>E' b. \<exists>u. rtl8101_rx_interrupt E' b s4 = Some (0, u) \<and> received (tr u) = received (tr s1))"
proof -
  have inv: "rx_inv late0" using late0(1) by (simp add: run_inv_def)
  have lim: "unat (rx_limit 1 late0) = 1"
    using unat_rx_limit [of late0 1] late0(4) by (simp add: NUM_RX_DESC_def)
  have two: "rx_end 1 late0 = 2"
    using rx_ready_run [OF inv, of 1] late0(7,8) by (simp add: rx_end_def lim)
  have own: "nic_owned (rx_desc_at late0 e)" if "e < NUM_RX_DESC" "e \<noteq> 1" for e
    using late0(6,7) inv late0(4) that by (simp add: rx_order_def rx_inv_def rx_window_def)
  have env: "env_ok unplugged" "skbs_available unplugged" "\<forall>t. \<not> fst (phy_link_status_on unplugged t)"
    using env0_ok(1,3) by (simp_all add: env_ok_def skbs_available_def unplugged_def phy_link_status_on_def REG_defs)
  have "ring_slot NUM_RX_DESC 2 = 2" by (simp add: ring_slot_def NUM_RX_DESC_def)
  moreover have "nic_owned (rx_desc_at late0 0)" "nic_owned (rx_desc_at late0 2)"
    using own by (simp_all add: NUM_RX_DESC_def)
  moreover have "unat (cur_rx late0) + NUM_RX_DESC < 2 ^ 32" using late0(8) by (simp add: NUM_RX_DESC_def)
  moreover have "64 AND dbit DescOwn = 0" "64 AND dbit RingEnd = 0" "rx_status_ok 64"
    by (simp_all add: rx_status_ok_def RX_BUF_SIZE_def)
  ultimately show ?thesis
    using link_loss_inside_poll [OF env late0(1-3,5,4), of 1 64 0] unfolding two by auto
qed

end
