(* ===== verification/Hw_Props.thy ===== *)
theory Hw_Props
  imports Examples
begin

text \<open>
  What the hardware layer of the Realtek driver (\<^verbatim>\<open>mac.c\<close>, \<^verbatim>\<open>phy.c\<close>) and the ring macros guarantee: the
  order and the values of the register accesses, the bounds of the polling loops, and the
  wrap-around arithmetic of the ring indices.
\<close>

section \<open>The programming of the chip\<close>

text \<open>The registers that a part of a trace writes to.\<close>

fun writes_to :: "trace \<Rightarrow> nat list" where
  "writes_to [] = []"
| "writes_to (W8 r v # t) = r # writes_to t"
| "writes_to (W16 r v # t) = r # writes_to t"
| "writes_to (W32 r v # t) = r # writes_to t"
| "writes_to (_ # t) = writes_to t"

text \<open>
  The two 32-bit halves that \<^verbatim>\<open>rtl8101_desc_addr_fill\<close> writes put together are the 64-bit bus
  address of the ring.
\<close>

lemma halves_64: "push_bit 32 (ucast (ucast (drop_bit 32 a) :: u32)) OR ucast (ucast (a AND mask 32) :: u32) = (a :: u64)"
  by (rule bit_word_eqI)
    (auto simp: bit_or_iff bit_push_bit_iff bit_unsigned_iff bit_drop_bit_eq bit_and_iff bit_mask_iff)

text \<open>The address filter: of what the mode register held before, no filter bit survives.\<close>

lemma rx_mode_filter:
  "(((v AND rxcfg RxConfigMask) OR (rxcfg RxFIFONone OR rxcfg RxDMAUnlimited))
     OR (rxcfg AcceptBroadcast OR rxcfg AcceptMulticast OR rxcfg AcceptMyPhys)) AND mask 6
   = rxcfg AcceptBroadcast OR rxcfg AcceptMulticast OR rxcfg AcceptMyPhys"
  by (simp add: and.assoc bit.conj_disj_distrib2 mask_eq_decr_exp)

text \<open>The reset sequence: what it leaves on the bus, newest access first.\<close>

lemma hw_reset_bus:
  obtains vs v where "rtl8101_hw_reset E t = map (R8 (reg ChipCmd)) vs @ W8 (reg ChipCmd) (cmdbit CmdReset)
      # W32 (reg RxConfig) (rxcfg RxDMAUnlimited) # W16 (reg IntrStatus) v # R16 (reg IntrStatus) v
      # W16 (reg IntrMask) 0 # t"
    "length vs \<le> 100" "\<forall>u \<in> set (tl vs). u AND cmdbit CmdReset \<noteq> 0"
    "length vs < 100 \<longrightarrow> vs \<noteq> [] \<and> hd vs AND cmdbit CmdReset = 0"
proof -
  have "nic_reset_done E u = (ioread8 E u (reg ChipCmd) AND cmdbit CmdReset = 0,
      R8 (reg ChipCmd) (ioread8 E u (reg ChipCmd)) # u)" for u
    by (simp add: nic_reset_done_def REG_defs Let_def)
  from poll_loop_reads [of "nic_reset_done E" "\<lambda>v. v AND cmdbit CmdReset = 0"
      "\<lambda>u. ioread8 E u (reg ChipCmd)" "R8 (reg ChipCmd)" 100, OF this]
  show thesis
    using that
    unfolding rtl8101_hw_reset_def rtl8101_nic_reset_def rtl8101_disable_n_clear_interrupts_def
      REG_defs Let_def prod.case
    by meson
qed

text \<open>
  What stands between the unlocking and the locking of the configuration: no access to the lock,
  the command or the interrupt mask register, the descriptor addresses of both rings when there
  are rings, the sizes, and a receive filter that accepts broadcast, multicast and own frames only.
\<close>

definition chip_programmed :: "DrvPvt \<Rightarrow> trace \<Rightarrow> bool" where
  "chip_programmed s prog \<longleftrightarrow>
     set (writes_to prog) \<inter> {reg Cfg9346, reg ChipCmd, reg IntrMask, reg IntrStatus} = {}
     \<and> last_w8 (reg MTPS) prog = Some 0x3F
     \<and> last_w32 (reg TxConfig) prog = Some (txcfg TxDMAUnlimited OR txcfg TxIFG96)
     \<and> last_w16 (reg RxMaxSize) prog = Some (ucast (rx_buf_sz s))
     \<and> (\<exists>c. last_w32 (reg RxConfig) prog = Some c
          \<and> c AND mask 6 = rxcfg AcceptBroadcast OR rxcfg AcceptMulticast OR rxcfg AcceptMyPhys)
     \<and> last_w32 (reg MAR0) prog = Some (NOT 0) \<and> last_w32 (reg MAR0 + 4) prog = Some (NOT 0)
     \<and> (if TxPhyAddr s = 0 \<or> RxPhyAddr s = 0
        then set (writes_to prog) \<inter> {reg TxDescStartAddrLow, reg TxDescStartAddrHigh,
          reg RxDescAddrLow, reg RxDescAddrHigh} = {}
        else \<exists>tl th rl rh.
          last_w32 (reg TxDescStartAddrLow) prog = Some tl
          \<and> last_w32 (reg TxDescStartAddrHigh) prog = Some th
          \<and> last_w32 (reg RxDescAddrLow) prog = Some rl \<and> last_w32 (reg RxDescAddrHigh) prog = Some rh
          \<and> push_bit 32 (ucast th) OR ucast tl = TxPhyAddr s
          \<and> push_bit 32 (ucast rh) OR ucast rl = RxPhyAddr s)"

lemma hw_init_programs:
  "\<exists>prog. chip_programmed s prog
    \<and> tr (rtl8101_hw_init E s) = W16 (reg IntrMask) IntrEnMask
        # W8 (reg ChipCmd) (cmdbit CmdTxEnb OR cmdbit CmdRxEnb) # W8 (reg Cfg9346) (cfgbit Cfg9346_Lock)
        # prog @ W8 (reg Cfg9346) (cfgbit Cfg9346_Unlock) # rtl8101_hw_reset E (tr s)"
proof -
  let ?u = "W8 (reg Cfg9346) (cfgbit Cfg9346_Unlock) # rtl8101_hw_reset E (tr s)"
  let ?v = "\<lambda>t. ioread32 E t (reg RxConfig)"
  define fill where "fill = (if TxPhyAddr s = 0 \<or> RxPhyAddr s = 0 then [] else
    [W32 (reg RxDescAddrHigh) (ucast (drop_bit 32 (RxPhyAddr s))),
     W32 (reg RxDescAddrLow) (ucast (RxPhyAddr s AND mask 32)),
     W32 (reg TxDescStartAddrHigh) (ucast (drop_bit 32 (TxPhyAddr s))),
     W32 (reg TxDescStartAddrLow) (ucast (TxPhyAddr s AND mask 32))])"
  define conf where "conf = [W16 (reg RxMaxSize) (ucast (rx_buf_sz s)),
    W32 (reg RxConfig) (rxcfg RxDMAUnlimited),
    W32 (reg TxConfig) (txcfg TxDMAUnlimited OR txcfg TxIFG96), W8 (reg MTPS) 0x3F] @ fill"
  define v where "v = ?v (conf @ ?u)"
  define prog where "prog = W32 (reg MAR0 + 4) (NOT 0) # W32 (reg MAR0) (NOT 0)
    # W32 (reg RxConfig) (((v AND rxcfg RxConfigMask) OR (rxcfg RxFIFONone OR rxcfg RxDMAUnlimited))
        OR (rxcfg AcceptBroadcast OR rxcfg AcceptMulticast OR rxcfg AcceptMyPhys))
    # R32 (reg RxConfig) v # conf"
  have "tr (rtl8101_hw_init E s) = W16 (reg IntrMask) IntrEnMask
        # W8 (reg ChipCmd) (cmdbit CmdTxEnb OR cmdbit CmdRxEnb) # W8 (reg Cfg9346) (cfgbit Cfg9346_Lock)
        # prog @ ?u"
    by (simp add: prog_def v_def conf_def fill_def rtl8101_hw_init_def rtl8101_desc_addr_fill_def
        rtl8101_set_rx_mode_def rtl8101_enable_interrupts_def netif_defs REG_defs Let_def
        del: rxcfg.simps txcfg.simps cmdbit.simps cfgbit.simps)
  moreover have "chip_programmed s prog"
    unfolding chip_programmed_def prog_def conf_def fill_def
    by (simp add: rx_mode_filter halves_64 del: rxcfg.simps txcfg.simps)
  ultimately show ?thesis by blast
qed

text \<open>
  C18. \<^verbatim>\<open>rtl8101_hw_init\<close> accesses the chip in this order: it masks and acknowledges the interrupts,
  resets the chip (writing the receive configuration once, before the configuration is unlocked),
  polls the command register, unlocks the configuration, programs it, locks it, only then enables
  transmitter and receiver, and enables the interrupts last. The programming in between touches none of
  the lock, command and interrupt registers; it leaves the receive size limit at the buffer size,
  the filter accepting exactly broadcast, multicast and own frames, and, when both rings have a bus
  address, address register pairs that make up these addresses (otherwise they are not written).
  The queue is started.
\<close>

theorem hw_init_configures:
  "\<exists>prog vs v. chip_programmed s prog
    \<and> tr (rtl8101_hw_init E s) = W16 (reg IntrMask) IntrEnMask
        # W8 (reg ChipCmd) (cmdbit CmdTxEnb OR cmdbit CmdRxEnb) # W8 (reg Cfg9346) (cfgbit Cfg9346_Lock)
        # prog @ W8 (reg Cfg9346) (cfgbit Cfg9346_Unlock)
        # map (R8 (reg ChipCmd)) vs @ W8 (reg ChipCmd) (cmdbit CmdReset)
        # W32 (reg RxConfig) (rxcfg RxDMAUnlimited) # W16 (reg IntrStatus) v # R16 (reg IntrStatus) v
        # W16 (reg IntrMask) 0 # tr s
    \<and> length vs \<le> 100
    \<and> \<not> queue_stopped (rtl8101_hw_init E s)"
proof -
  obtain vs v where r: "rtl8101_hw_reset E (tr s) = map (R8 (reg ChipCmd)) vs @ W8 (reg ChipCmd) (cmdbit CmdReset)
      # W32 (reg RxConfig) (rxcfg RxDMAUnlimited) # W16 (reg IntrStatus) v # R16 (reg IntrStatus) v
      # W16 (reg IntrMask) 0 # tr s" "length vs \<le> 100"
    by (rule hw_reset_bus)
  have q: "\<not> queue_stopped (rtl8101_hw_init E s)" by (simp add: hw_init_state)
  from hw_init_programs [of s E, unfolded r(1)] r(2) q show ?thesis by blast
qed

section \<open>Polling loops\<close>

text \<open>
  C20. \<^verbatim>\<open>phy_reg_write\<close> encodes the register number and the value in one command word from which both
  can be read back (five and sixteen bits), writes it once, and polls the completion flag at most
  ten times, ending early exactly on a read with the flag clear.
\<close>

theorem phy_reg_write_protocol:
  "\<exists>w vs. phy_reg_write E a v t = map (R32 (reg PHYAR)) vs @ W32 (reg PHYAR) w # t
    \<and> drop_bit 16 w AND mask 5 = a AND mask 5 \<and> w AND mask 16 = v AND mask 16 \<and> bit w 31
    \<and> length vs \<le> 10 \<and> (length vs < 10 \<longrightarrow> vs \<noteq> [] \<and> hd vs AND phybit PHYAR_Flag = 0)"
proof -
  from phy_reg_write_bus [of E a v t] obtain vs where
    "phy_reg_write E a v t = map (R32 (reg PHYAR)) vs @ W32 (reg PHYAR) (phyar_cmd a v) # t"
    "length vs \<le> 10" "length vs < 10 \<longrightarrow> vs \<noteq> [] \<and> hd vs AND phybit PHYAR_Flag = 0" by blast
  moreover have "drop_bit 16 (phyar_cmd a v) AND mask 5 = a AND mask 5"
    using phyar_cmd_reg [of a v] unfolding phybit_masks PHYAR_Reg_Shift_def .
  moreover have "phyar_cmd a v AND mask 16 = v AND mask 16"
    using phyar_cmd_data [of a v] unfolding phybit_masks .
  ultimately show ?thesis by (auto simp: bit_phyar_cmd)
qed

theorem phy_reg_write_protocol_witness:
  "\<exists>w vs. phy_power_up env0 [] = map (R32 (reg PHYAR)) vs @ [W32 (reg PHYAR) w]
    \<and> w AND mask 16 = 0x1000 AND mask 16 \<and> length vs \<le> 10"
  using phy_reg_write_protocol [of env0 "MII_BMCR env0" "BMCR_ANENABLE env0" "[]"]
  by (auto simp: phy_power_up_def env0_def)

text \<open>
  C21. The chip reset always ends: after masking and acknowledging the interrupts it writes the reset
  command and reads the command register at most a hundred times, stopping early exactly when the
  reset bit has cleared.
\<close>

theorem hw_reset_bounded:
  "\<exists>vs v. rtl8101_hw_reset E t = map (R8 (reg ChipCmd)) vs @ W8 (reg ChipCmd) (cmdbit CmdReset)
      # W32 (reg RxConfig) (rxcfg RxDMAUnlimited) # W16 (reg IntrStatus) v # R16 (reg IntrStatus) v
      # W16 (reg IntrMask) 0 # t
    \<and> length vs \<le> 100 \<and> (\<forall>u \<in> set (tl vs). u AND cmdbit CmdReset \<noteq> 0)
    \<and> (length vs < 100 \<longrightarrow> vs \<noteq> [] \<and> hd vs AND cmdbit CmdReset = 0)"
proof (rule hw_reset_bus [of E t], goal_cases)
  case (1 vs v)
  then show ?case by blast
qed

theorem hw_reset_bounded_witness:
  "\<exists>vs v. rtl8101_hw_reset env0 [] = map (R8 (reg ChipCmd)) vs @ W8 (reg ChipCmd) (cmdbit CmdReset)
      # W32 (reg RxConfig) (rxcfg RxDMAUnlimited) # W16 (reg IntrStatus) v # R16 (reg IntrStatus) v
      # [W16 (reg IntrMask) 0] \<and> length vs \<le> 100"
  using hw_reset_bounded [of env0 "[]"] by blast

section \<open>The station address\<close>







section \<open>Ring arithmetic\<close>

text \<open>
  C23. \<^verbatim>\<open>TX_BUFFS_AVAIL\<close> is exact across the wrap-around of the indices: it is the number of slots that
  may still be used, one slot being kept free, as long as at most 1023 packets are queued; with all
  1024 slots in use it would wrap to the largest unsigned number.
\<close>

theorem tx_buffs_avail_exact:
  "(unat (cur_tx s - dirty_tx s) < NUM_TX_DESC
      \<longrightarrow> unat (TX_BUFFS_AVAIL s) + unat (cur_tx s - dirty_tx s) = NUM_TX_DESC - 1)
   \<and> (cur_tx s - dirty_tx s = of_nat NUM_TX_DESC \<longrightarrow> TX_BUFFS_AVAIL s = 0xFFFFFFFF)"
proof (intro conjI impI)
  assume "unat (cur_tx s - dirty_tx s) < NUM_TX_DESC"
  then show "unat (TX_BUFFS_AVAIL s) + unat (cur_tx s - dirty_tx s) = NUM_TX_DESC - 1"
    using unat_TX_BUFFS_AVAIL [of s] by simp
next
  assume "cur_tx s - dirty_tx s = of_nat NUM_TX_DESC"
  then have "cur_tx s = dirty_tx s + of_nat NUM_TX_DESC" by (simp add: algebra_simps)
  then show "TX_BUFFS_AVAIL s = 0xFFFFFFFF" by (simp add: TX_BUFFS_AVAIL_def)
qed

theorem tx_buffs_avail_exact_witness:
  "unat (TX_BUFFS_AVAIL (dev0\<lparr>cur_tx := 1, dirty_tx := 0xFFFFFFFF\<rparr>)) + 2 = NUM_TX_DESC - 1"
  using tx_buffs_avail_exact [of "dev0\<lparr>cur_tx := 1, dirty_tx := 0xFFFFFFFF\<rparr>"]
  by (simp add: NUM_TX_DESC_def)

end
