(* ===== verification/Char_Dev.thy ===== *)
theory Char_Dev
  imports Kernel_Env
begin

text \<open>
  Registration of a character device, the sequence of requests that
  \<^verbatim>\<open>char_register_dev\<close> of the PCI character drivers and \<^verbatim>\<open>debug_init\<close> of \<^verbatim>\<open>Debugging/buggy.c\<close> make:
  a device number, the character device, its class and its device node. Each refusal gives back
  what was granted before.
\<close>

definition chrdev_register :: "env \<Rightarrow> trace \<Rightarrow> int \<times> trace" where
  "chrdev_register E t =
     (let (ret, t) = acquire E Chrdev t
      in if ret < 0 then (ret, t)
         else
           let (ret, t) = acquire E Cdev t
           in if ret < 0 then (ret, release Chrdev t)
              else
                let (ret, t) = acquire E Class t
                in if ret \<noteq> 0 then (ret, release Chrdev (release Cdev t))
                   else
                     let (ret, t) = acquire E Device t
                     in if ret \<noteq> 0 then (ret, release Chrdev (release Cdev (release Class t)))
                        else (0, t))"

definition chrdev_unregister :: "trace \<Rightarrow> trace" where
  "chrdev_unregister t = release Chrdev (release Cdev (release Class (release Device t)))"

text \<open>
  The resources of a registered character device, newest first. \<^verbatim>\<open>alloc_chrdev_region\<close> and
  \<^verbatim>\<open>cdev_add\<close> return zero or a negative error number.
\<close>

definition chr_res :: "res list" where "chr_res = [Device, Class, Cdev, Chrdev]"

definition chrdev_codes_ok :: "env \<Rightarrow> bool" where
  "chrdev_codes_ok E \<longleftrightarrow> (\<forall>t. grant E t Chrdev \<le> 0 \<and> grant E t Cdev \<le> 0)"

text \<open>What a trace that only asks for and gives back resources leaves of the DMA and packet ledgers.\<close>

definition buffers_view :: "trace \<Rightarrow> (ptr \<Rightarrow> int) \<times> (dma_map \<Rightarrow> int)" where
  "buffers_view t = (\<lambda>p. skb_bal p t, \<lambda>m. dma_bal m t)"

lemma buffers_view_res [simp]:
  "buffers_view (Got r # t) = buffers_view t" "buffers_view (Denied r c # t) = buffers_view t"
  "buffers_view (Put r # t) = buffers_view t" "buffers_view (SetMaster # t) = buffers_view t"
  by (simp_all add: buffers_view_def)

lemma buffers_view_io [simp]:
  "buffers_view (R8 r v8 # t) = buffers_view t" "buffers_view (R16 r v16 # t) = buffers_view t"
  "buffers_view (R32 r v32 # t) = buffers_view t" "buffers_view (W8 r v8 # t) = buffers_view t"
  "buffers_view (W16 r v16 # t) = buffers_view t" "buffers_view (W32 r v32 # t) = buffers_view t"
  by (simp_all add: buffers_view_def)

lemma ledger_buffers_view: "ledger t = ledger u \<Longrightarrow> buffers_view t = buffers_view u"
  by (simp add: ledger_def buffers_view_def)

lemma clean_trace_view: "clean_trace t \<longleftrightarrow> buffers_view t = (\<lambda>_. 0, \<lambda>_. 0)"
  by (auto simp: clean_trace_def buffers_view_def fun_eq_iff)

lemma chrdev_register_spec:
  assumes "chrdev_codes_ok E" "held t = Some h"
  obtains c u where "chrdev_register E t = (c, u)" "held u = Some (if c = 0 then chr_res @ h else h)"
    "buffers_view u = buffers_view t"
proof -
  let ?t1 = "Got Chrdev # t"
  let ?t2 = "Got Cdev # ?t1"
  let ?t3 = "Got Class # ?t2"
  have le: "grant E t Chrdev < 0 \<or> grant E t Chrdev = 0" "grant E ?t1 Cdev < 0 \<or> grant E ?t1 Cdev = 0"
    using assms(1) by (auto simp: chrdev_codes_ok_def order.order_iff_strict)
  note D = chrdev_register_def acquire_def release_def Let_def chr_res_def
  from le consider "grant E t Chrdev < 0"
    | "grant E t Chrdev = 0" "grant E ?t1 Cdev < 0"
    | "grant E t Chrdev = 0" "grant E ?t1 Cdev = 0" "grant E ?t2 Class \<noteq> 0"
    | "grant E t Chrdev = 0" "grant E ?t1 Cdev = 0" "grant E ?t2 Class = 0" "grant E ?t3 Device \<noteq> 0"
    | "grant E t Chrdev = 0" "grant E ?t1 Cdev = 0" "grant E ?t2 Class = 0" "grant E ?t3 Device = 0"
    by blast
  then have "held (snd (chrdev_register E t)) = Some (if fst (chrdev_register E t) = 0 then chr_res @ h else h)
      \<and> buffers_view (snd (chrdev_register E t)) = buffers_view t"
    by cases (use assms(2) in \<open>simp_all add: D\<close>)
  then show thesis using that [of "fst (chrdev_register E t)" "snd (chrdev_register E t)"] by simp
qed

lemma chrdev_unregister_spec:
  assumes "held t = Some (chr_res @ h)"
  shows "held (chrdev_unregister t) = Some h" "buffers_view (chrdev_unregister t) = buffers_view t"
  using assms by (simp_all add: chrdev_unregister_def release_def chr_res_def)

end
