(* ===== verification/Expt_Dma.thy ===== *)
theory Expt_Dma
  imports Char_Dev
begin

text \<open>
  \<^verbatim>\<open>Solutions/expt_drv_with_dma.c\<close>: the character-device driver for the same chip, with one transmit
  and one receive descriptor. State is the file's \<^verbatim>\<open>struct dev_priv\<close> with the trace of the device. A
  descriptor or buffer pointer that is NULL or has been freed is \<open>None\<close>: using it is a fault of the
  kernel, and so is reading beyond the end of a buffer. The code between
  \<^verbatim>\<open>#ifdef PKT_FLOW_CFG\<close> is not compiled.
\<close>

section \<open>Registers and bits\<close>

datatype expt_reg =
    MAC_ADDR_REG_START | TX_DESC_ADDR_LOW_REG | TX_DESC_ADDR_HIGH_REG | CHIP_CMD_REG | TX_POLL_REG
  | INTR_MASK_REG | INTR_STATUS_REG | TX_CONFIG_REG | RX_CONFIG_REG | CFG9346_REG | PHY_ACCESS_REG
  | PHY_STATUS_REG | RX_MAX_SIZE_REG | RX_DESC_ADDR_LOW_REG | RX_DESC_ADDR_HIGH_REG | MTPS_REG

primrec ereg :: "expt_reg \<Rightarrow> nat" where
  "ereg MAC_ADDR_REG_START = 0"
| "ereg TX_DESC_ADDR_LOW_REG = 0x20"
| "ereg TX_DESC_ADDR_HIGH_REG = 0x24"
| "ereg CHIP_CMD_REG = 0x37"
| "ereg TX_POLL_REG = 0x38"
| "ereg INTR_MASK_REG = 0x3C"
| "ereg INTR_STATUS_REG = 0x3E"
| "ereg TX_CONFIG_REG = 0x40"
| "ereg RX_CONFIG_REG = 0x44"
| "ereg CFG9346_REG = 0x50"
| "ereg PHY_ACCESS_REG = 0x60"
| "ereg PHY_STATUS_REG = 0x6C"
| "ereg RX_MAX_SIZE_REG = 0xDA"
| "ereg RX_DESC_ADDR_LOW_REG = 0xE4"
| "ereg RX_DESC_ADDR_HIGH_REG = 0xE8"
| "ereg MTPS_REG = 0xEC"

datatype expt_intr =
    INTR_TX_DESC_UNAVAIL | INTR_LINK_CHG_BIT | INTR_RX_DESC_UNAVAIL | INTR_TX_ERR
  | INTR_TX_OK_BIT | INTR_RX_ERR | INTR_RX_OK_BIT

primrec eintr :: "expt_intr \<Rightarrow> u16" where
  "eintr INTR_TX_DESC_UNAVAIL = push_bit 7 1"
| "eintr INTR_LINK_CHG_BIT = push_bit 5 1"
| "eintr INTR_RX_DESC_UNAVAIL = push_bit 4 1"
| "eintr INTR_TX_ERR = push_bit 3 1"
| "eintr INTR_TX_OK_BIT = push_bit 2 1"
| "eintr INTR_RX_ERR = push_bit 1 1"
| "eintr INTR_RX_OK_BIT = push_bit 0 1"

definition INTR_MASK :: u16 where
  "INTR_MASK = eintr INTR_LINK_CHG_BIT OR eintr INTR_TX_OK_BIT OR eintr INTR_RX_OK_BIT"

definition INTR_ERR_MASK :: u16 where
  "INTR_ERR_MASK = eintr INTR_TX_DESC_UNAVAIL OR eintr INTR_RX_DESC_UNAVAIL OR eintr INTR_TX_ERR
     OR eintr INTR_RX_ERR"

definition CMD_RESET :: u8 where "CMD_RESET = push_bit 4 1"
definition CMD_RX_ENB :: u8 where "CMD_RX_ENB = push_bit 3 1"
definition CMD_TX_ENB :: u8 where "CMD_TX_ENB = push_bit 2 1"
definition NPQ_BIT :: u8 where "NPQ_BIT = push_bit 6 1"
definition CFG9346_LOCK :: u8 where "CFG9346_LOCK = 0x00"
definition CFG9346_UNLOCK :: u8 where "CFG9346_UNLOCK = 0xC0"
definition PHY_LINK_OK_BIT :: u8 where "PHY_LINK_OK_BIT = push_bit 1 1"

definition PKT_SIZE :: nat where "PKT_SIZE = 256"
abbreviation (input) "TX_PKT_SIZE \<equiv> PKT_SIZE"
abbreviation (input) "RX_PKT_SIZE \<equiv> PKT_SIZE"

section \<open>State\<close>

text \<open>
  The counters are \<^verbatim>\<open>atomic_t\<close>, 32 bits wide. \<open>link_ok\<close> is the static variable of the interrupt handler
  (\<open>None\<close> for its initial value -1), \<open>drv_set\<close> whether the driver data of the PCI device is set.
\<close>

record dev_priv =
  etr :: trace
  desc_tx :: "Desc option"
  desc_rx :: "Desc option"
  phy_desc_tx :: u64
  phy_desc_rx :: u64
  pkt_tx :: "u8 list option"
  pkt_rx :: "u8 list option"
  phy_pkt_tx :: u64
  phy_pkt_rx :: u64
  rx_pkt_size :: nat
  pkt_tx_busy :: u32
  pkt_rx_avail :: u32
  link_ok :: "bool option"
  drv_set :: bool

text \<open>Names of the two packet buffers in DMA events; 0 stands for NULL.\<close>

definition pkt_tx_name :: ptr where "pkt_tx_name = 1"
definition pkt_rx_name :: ptr where "pkt_rx_name = 2"

definition put_res :: "res \<Rightarrow> dev_priv \<Rightarrow> dev_priv" where
  "put_res r s = s\<lparr>etr := release r (etr s)\<rparr>"

section \<open>Buffers\<close>

text \<open>\<^verbatim>\<open>kmalloc\<close> of a packet buffer, and \<^verbatim>\<open>pci_map_single\<close> of it.\<close>

definition kmalloc_pkt :: "env \<Rightarrow> res \<Rightarrow> trace \<Rightarrow> u8 list option \<times> trace" where
  "kmalloc_pkt E r t =
     (let (c, t') = acquire E r t in (if c = 0 then Some (kmalloc_mem E t r) else None, t'))"

definition map_pkt :: "env \<Rightarrow> ptr \<Rightarrow> dma_dir \<Rightarrow> trace \<Rightarrow> u64 \<times> trace" where
  "map_pkt E p dir t =
     (let a = map_addr E t p in (a, MapSingle p a (of_nat PKT_SIZE) dir # t))"

definition free_descs :: "dev_priv \<Rightarrow> dev_priv" where
  "free_descs s = put_res TxRing (put_res RxRing (s\<lparr>desc_rx := None, desc_tx := None\<rparr>))"

text \<open>The writes to the descriptors and to the chip at the end of \<^verbatim>\<open>setup_buffers\<close>.\<close>

definition arm_descs :: "dev_priv \<Rightarrow> dev_priv option" where
  "arm_descs s = do {
     dt \<leftarrow> desc_tx s;
     dr \<leftarrow> desc_rx s;
     let s = s\<lparr>desc_tx := Some (dt\<lparr>opts1 := dbit RingEnd OR dbit FirstFrag OR dbit LastFrag, opts2 := 0,
                                   addr := phy_pkt_tx s\<rparr>),
               desc_rx := Some (dr\<lparr>opts1 := dbit DescOwn OR dbit RingEnd OR of_nat RX_PKT_SIZE, opts2 := 0,
                                   addr := phy_pkt_rx s\<rparr>)\<rparr>;
     let t = REG_W8 CFG9346_UNLOCK (ereg CFG9346_REG) (etr s);
     let t = REG_W32 (ucast (phy_desc_tx s AND mask 32)) (ereg TX_DESC_ADDR_LOW_REG) t;
     let t = REG_W32 (ucast (drop_bit 32 (phy_desc_tx s))) (ereg TX_DESC_ADDR_HIGH_REG) t;
     let t = REG_W32 (ucast (phy_desc_rx s AND mask 32)) (ereg RX_DESC_ADDR_LOW_REG) t;
     let t = REG_W32 (ucast (drop_bit 32 (phy_desc_rx s))) (ereg RX_DESC_ADDR_HIGH_REG) t;
     let t = REG_W8 CFG9346_LOCK (ereg CFG9346_REG) t;
     Some (s\<lparr>etr := t, pkt_tx_busy := 0, pkt_rx_avail := 0\<rparr>)
   }"

text \<open>
  The packet buffers. When an allocation fails, the code frees what it has and then goes on.
\<close>

definition setup_packets :: "env \<Rightarrow> dev_priv \<Rightarrow> dev_priv option" where
  "setup_packets E s =
     (let (b, t) = kmalloc_pkt E PktTx (etr s);
          s = s\<lparr>etr := t, pkt_tx := b\<rparr>;
          s = (if b = None then free_descs s else s);
          (a, t) = map_pkt E (if b = None then 0 else pkt_tx_name) ToDevice (etr s);
          s = s\<lparr>etr := t, phy_pkt_tx := a\<rparr>;
          (b, t) = kmalloc_pkt E PktRx (etr s);
          s = s\<lparr>etr := t, pkt_rx := b\<rparr>;
          s = (if b = None then
                 let s = s\<lparr>etr := UnmapSingle (phy_pkt_tx s) (of_nat TX_PKT_SIZE) ToDevice # etr s\<rparr>;
                     s = (if pkt_tx s = None then s else put_res PktTx (s\<lparr>pkt_tx := None\<rparr>))
                 in free_descs s
               else s);
          (a, t) = map_pkt E (if b = None then 0 else pkt_rx_name) FromDevice (etr s);
          s = s\<lparr>etr := t, phy_pkt_rx := a\<rparr>
      in arm_descs s)"

definition setup_buffers :: "env \<Rightarrow> dev_priv \<Rightarrow> (int \<times> dev_priv) option" where
  "setup_buffers E s =
     (let (d, t) = pci_alloc_consistent E TxRing (etr s);
          s = s\<lparr>etr := t\<rparr>
      in case d of
           None \<Rightarrow> Some (- ENOMEM, s\<lparr>desc_tx := None\<rparr>)
         | Some (m, a) \<Rightarrow>
             let s = s\<lparr>desc_tx := Some (case m of [] \<Rightarrow> zero_desc | x # _ \<Rightarrow> x), phy_desc_tx := a\<rparr>;
                 (d, t) = pci_alloc_consistent E RxRing (etr s);
                 s = s\<lparr>etr := t\<rparr>
             in case d of
                  None \<Rightarrow> Some (- ENOMEM, put_res TxRing (s\<lparr>desc_rx := None, desc_tx := None\<rparr>))
                | Some (m, a) \<Rightarrow>
                    let s = s\<lparr>desc_rx := Some (case m of [] \<Rightarrow> zero_desc | x # _ \<Rightarrow> x), phy_desc_rx := a\<rparr>
                    in map_option (\<lambda>s. (0, s)) (setup_packets E s))"

definition cleanup_buffers :: "dev_priv \<Rightarrow> dev_priv" where
  "cleanup_buffers s =
     (let s = s\<lparr>etr := UnmapSingle (phy_pkt_rx s) (of_nat RX_PKT_SIZE) FromDevice # etr s\<rparr>;
          s = put_res PktRx (s\<lparr>pkt_rx := None\<rparr>);
          s = s\<lparr>etr := UnmapSingle (phy_pkt_tx s) (of_nat TX_PKT_SIZE) ToDevice # etr s\<rparr>;
          s = put_res PktTx (s\<lparr>pkt_tx := None\<rparr>);
          s = put_res RxRing (s\<lparr>desc_rx := None\<rparr>)
      in put_res TxRing (s\<lparr>desc_tx := None\<rparr>))"

section \<open>Hardware access\<close>

definition hw_enable_intr :: "env \<Rightarrow> u16 \<Rightarrow> trace \<Rightarrow> trace" where
  "hw_enable_intr E m t =
     (let (v, t) = REG_R16 E (ereg INTR_MASK_REG) t in REG_W16 (v OR m) (ereg INTR_MASK_REG) t)"

definition hw_disable_intr :: "env \<Rightarrow> u16 \<Rightarrow> trace \<Rightarrow> trace" where
  "hw_disable_intr E m t =
     (let (v, t) = REG_R16 E (ereg INTR_MASK_REG) t in REG_W16 (v AND NOT m) (ereg INTR_MASK_REG) t)"

definition expt_phy_done :: "env \<Rightarrow> bool \<Rightarrow> trace \<Rightarrow> bool \<times> trace" where
  "expt_phy_done E flag t =
     (let (v, t) = REG_R32 E (ereg PHY_ACCESS_REG) t in ((v AND push_bit 31 1 \<noteq> 0) = flag, t))"

definition expt_phy_reg_write :: "env \<Rightarrow> u8 \<Rightarrow> u16 \<Rightarrow> trace \<Rightarrow> trace" where
  "expt_phy_reg_write E reg_addr reg_value t =
     (let w = push_bit 31 1 OR push_bit 16 (ucast reg_addr) OR push_bit 0 (ucast reg_value);
          t = REG_W32 w (ereg PHY_ACCESS_REG) t
      in poll_loop 10 (expt_phy_done E False) t)"

definition expt_phy_reg_read :: "env \<Rightarrow> u8 \<Rightarrow> trace \<Rightarrow> u16 \<times> trace" where
  "expt_phy_reg_read E reg_addr t =
     (let t = REG_W32 (push_bit 31 0 OR push_bit 16 (ucast reg_addr)) (ereg PHY_ACCESS_REG) t;
          t = poll_loop 10 (expt_phy_done E True) t;
          (v, t) = REG_R32 E (ereg PHY_ACCESS_REG) t
      in (ucast (v AND 0xFFFF), t))"

definition phy_init :: "env \<Rightarrow> trace \<Rightarrow> trace" where
  "phy_init E t = expt_phy_reg_write E (ucast (MII_BMCR E)) (ucast (BMCR_ANENABLE E)) t"

definition phy_shut :: "env \<Rightarrow> trace \<Rightarrow> trace" where
  "phy_shut E t = expt_phy_reg_write E (ucast (MII_BMCR E)) (ucast (BMCR_PDOWN E)) t"

definition hw_init :: "env \<Rightarrow> trace \<Rightarrow> trace" where
  "hw_init E t =
     (let t = phy_init E t;
          t = REG_W32 0 (ereg TX_CONFIG_REG) t;
          t = REG_W8 (CMD_TX_ENB OR CMD_RX_ENB) (ereg CHIP_CMD_REG) t
      in hw_enable_intr E (INTR_MASK OR INTR_ERR_MASK) t)"

text \<open>The wait loop of \<^verbatim>\<open>hw_shut\<close> counts down: \<^verbatim>\<open>for (i = 0; i < 100; i--)\<close>.\<close>

definition expt_reset_done :: "env \<Rightarrow> trace \<Rightarrow> bool \<times> trace" where
  "expt_reset_done E t =
     (let (v, t) = REG_R8 E (ereg CHIP_CMD_REG) t in (v AND CMD_RESET = 0, t))"

definition hw_shut :: "env \<Rightarrow> trace \<Rightarrow> trace" where
  "hw_shut E t =
     (let t = hw_disable_intr E (INTR_MASK OR INTR_ERR_MASK) t;
          t = REG_W8 CMD_RESET (ereg CHIP_CMD_REG) t;
          t = down_loop 0 (expt_reset_done E) t
      in phy_shut E t)"

section \<open>Interrupt handler\<close>

definition intr_link :: "env \<Rightarrow> u16 \<Rightarrow> dev_priv \<Rightarrow> dev_priv" where
  "intr_link E st s =
     (if st AND eintr INTR_LINK_CHG_BIT \<noteq> 0 then
        let t = REG_W16 (eintr INTR_LINK_CHG_BIT) (ereg INTR_STATUS_REG) (etr s);
            (v, t) = REG_R8 E (ereg PHY_STATUS_REG) t
        in s\<lparr>etr := t, link_ok := Some (v AND PHY_LINK_OK_BIT \<noteq> 0)\<rparr>
      else s)"

definition intr_tx :: "u16 \<Rightarrow> dev_priv \<Rightarrow> dev_priv" where
  "intr_tx st s =
     (if st AND eintr INTR_TX_OK_BIT \<noteq> 0 then
        s\<lparr>etr := REG_W16 (eintr INTR_TX_OK_BIT) (ereg INTR_STATUS_REG) (etr s),
          pkt_tx_busy := pkt_tx_busy s - 1\<rparr>
      else s)"

definition intr_rx :: "u16 \<Rightarrow> dev_priv \<Rightarrow> dev_priv option" where
  "intr_rx st s =
     (if st AND eintr INTR_RX_OK_BIT \<noteq> 0 then do {
        let s = s\<lparr>etr := REG_W16 (eintr INTR_RX_OK_BIT) (ereg INTR_STATUS_REG) (etr s)\<rparr>;
        d \<leftarrow> desc_rx s;
        Some (s\<lparr>rx_pkt_size := unat (opts1 d AND (push_bit 14 1 - 1)), pkt_rx_avail := pkt_rx_avail s + 1\<rparr>)
      }
      else Some s)"

definition intr_err :: "env \<Rightarrow> u16 \<Rightarrow> dev_priv \<Rightarrow> dev_priv" where
  "intr_err E st s =
     (if st AND INTR_ERR_MASK \<noteq> 0 then
        let t = (if st AND eintr INTR_RX_DESC_UNAVAIL \<noteq> 0
                 then hw_disable_intr E (eintr INTR_RX_DESC_UNAVAIL) (etr s) else etr s)
        in s\<lparr>etr := REG_W16 INTR_ERR_MASK (ereg INTR_STATUS_REG) t\<rparr>
      else s)"

definition expt_pci_intr_handler :: "env \<Rightarrow> dev_priv \<Rightarrow> (bool \<times> dev_priv) option" where
  "expt_pci_intr_handler E s =
     (let (st, t) = REG_R16 E (ereg INTR_STATUS_REG) (etr s);
          s = s\<lparr>etr := t\<rparr>
      in if st AND (INTR_MASK OR INTR_ERR_MASK) = 0 then Some (False, s)
         else do {
           let s = intr_link E st s;
           let s = intr_tx st s;
           s \<leftarrow> intr_rx st s;
           Some (True, intr_err E st s)
         })"

section \<open>File operations\<close>

text \<open>Opening makes the one \<^verbatim>\<open>struct dev_priv\<close> the private data of the file, whatever its state; closing does nothing.\<close>

definition expt_open :: "dev_priv \<Rightarrow> int \<times> dev_priv" where "expt_open s = (0, s)"

definition expt_close :: "dev_priv \<Rightarrow> int \<times> dev_priv" where "expt_close s = (0, s)"

text \<open>
  A read returns the code, the bytes put into the user's buffer, and the new file position; a user
  copy to the user that fails may have transferred some bytes; one from the user also clears the rest of the
  destination.
\<close>

definition expt_read :: "env \<Rightarrow> nat \<Rightarrow> nat \<Rightarrow> dev_priv \<Rightarrow> (int \<times> u8 list \<times> nat \<times> dev_priv) option" where
  "expt_read E len off s =
     (if pkt_rx_avail s = 0 then Some (- EAGAIN, [], off, s)
      else if off \<ge> rx_pkt_size s then do {
        let s = s\<lparr>pkt_rx_avail := 0\<rparr>;
        d \<leftarrow> desc_rx s;
        let s = s\<lparr>desc_rx := Some (d\<lparr>opts1 := opts1 d OR dbit DescOwn OR of_nat RX_PKT_SIZE\<rparr>)\<rparr>;
        Some (0, [], 0, s\<lparr>etr := hw_enable_intr E (eintr INTR_RX_DESC_UNAVAIL) (etr s)\<rparr>)
      }
      else do {
        let to_read = min len (rx_pkt_size s - off);
        buf \<leftarrow> pkt_rx s;
        if off + to_read \<le> length buf then
          let k = user_copied E (etr s) to_read;
              data = take to_read (drop off buf)
          in if k < to_read then Some (- EFAULT, take k data, off, s)
             else Some (int to_read, data, off + to_read, s)
        else None
      })"

definition expt_write :: "env \<Rightarrow> u8 list \<Rightarrow> dev_priv \<Rightarrow> (int \<times> dev_priv) option" where
  "expt_write E data s =
     (let s = s\<lparr>pkt_tx_busy := pkt_tx_busy s + 1\<rparr>
      in if pkt_tx_busy s \<noteq> 1 then Some (- EBUSY, s\<lparr>pkt_tx_busy := pkt_tx_busy s - 1\<rparr>)
         else do {
           let to_write = min (length data) TX_PKT_SIZE;
           let k = min (user_copied E (etr s) to_write) to_write;
           buf \<leftarrow> pkt_tx s;
           let s = s\<lparr>pkt_tx := Some (take k data @ replicate (to_write - k) 0 @ drop to_write buf)\<rparr>;
           if k < to_write then Some (- EFAULT, s)
           else do {
             d \<leftarrow> desc_tx s;
             let s = s\<lparr>desc_tx := Some (d\<lparr>opts1 := opts1 d OR dbit DescOwn OR of_nat to_write\<rparr>)\<rparr>;
             Some (int (length data), s\<lparr>etr := REG_W8 NPQ_BIT (ereg TX_POLL_REG) (etr s)\<rparr>)
           }
         })"

section \<open>Character device\<close>

definition char_register_dev :: "env \<Rightarrow> dev_priv \<Rightarrow> int \<times> dev_priv" where
  "char_register_dev E s = (let (ret, t) = chrdev_register E (etr s) in (ret, s\<lparr>etr := t\<rparr>))"

definition char_deregister_dev :: "dev_priv \<Rightarrow> dev_priv" where
  "char_deregister_dev s = s\<lparr>etr := chrdev_unregister (etr s)\<rparr>"

section \<open>Probe and remove\<close>

text \<open>The tail shared by the error paths and by removal: MSI, driver data, registers, regions, device.\<close>

definition expt_unwind :: "dev_priv \<Rightarrow> dev_priv" where
  "expt_unwind s =
     (let s = (if pci_dev_msi_enabled (etr s) then put_res Msi s else s);
          s = s\<lparr>drv_set := False\<rparr>
      in put_res PciDevice (put_res Regions (put_res RegMap s)))"

text \<open>\<^verbatim>\<open>expt_probe\<close> after the buffers have been set up, and after the registers have been mapped.\<close>

definition expt_probe_buffers :: "env \<Rightarrow> dev_priv \<Rightarrow> int \<times> dev_priv" where
  "expt_probe_buffers E s =
     (let (retval, t) = acquire E Irq (etr s); s = s\<lparr>etr := t\<rparr>
      in if retval \<noteq> 0 then (retval, expt_unwind (cleanup_buffers s))
         else
           let s = s\<lparr>etr := hw_init E (etr s)\<rparr>;
               (retval, s) = char_register_dev E s
           in if retval \<noteq> 0
              then (retval, expt_unwind (cleanup_buffers (put_res Irq (s\<lparr>etr := hw_shut E (etr s)\<rparr>))))
              else (0, s))"

definition expt_probe_mapped :: "env \<Rightarrow> dev_priv \<Rightarrow> (int \<times> dev_priv) option" where
  "expt_probe_mapped E s = do {
     let s = s\<lparr>drv_set := True\<rparr>;
     let (_, t) = acquire E Msi (etr s);
     (retval, s) \<leftarrow> setup_buffers E (s\<lparr>etr := t\<rparr>);
     Some (if retval \<noteq> 0 then (retval, expt_unwind s) else expt_probe_buffers E s)
   }"

definition expt_probe :: "env \<Rightarrow> dev_priv \<Rightarrow> (int \<times> dev_priv) option" where
  "expt_probe E s =
     (let (retval, t) = acquire E PciDevice (etr s); s = s\<lparr>etr := t\<rparr>
      in if retval \<noteq> 0 then Some (retval, s)
         else
           let (retval, t) = acquire E Regions (etr s); s = s\<lparr>etr := t\<rparr>
           in if retval \<noteq> 0 then Some (retval, put_res PciDevice s)
              else
                let s = s\<lparr>etr := SetMaster # etr s\<rparr>;
                    (null, t) = acquire E RegMap (etr s); s = s\<lparr>etr := t\<rparr>
                in if null \<noteq> 0 then Some (- ENODEV, put_res PciDevice (put_res Regions s))
                   else expt_probe_mapped E s)"

definition expt_remove :: "env \<Rightarrow> dev_priv \<Rightarrow> dev_priv option" where
  "expt_remove E s =
     (if \<not> drv_set s then None
      else
        let s = char_deregister_dev s;
            s = s\<lparr>etr := hw_shut E (etr s)\<rparr>;
            s = put_res Irq s;
            s = cleanup_buffers s
        in Some (expt_unwind s))"

definition expt_pci_init :: "env \<Rightarrow> trace \<Rightarrow> int \<times> trace" where
  "expt_pci_init E t = acquire E PciDriver t"

definition expt_pci_exit :: "trace \<Rightarrow> trace" where
  "expt_pci_exit t = release PciDriver t"

end
