(* ===== verification/Expt_Life.thy ===== *)
theory Expt_Life
  imports Expt_Dma Machines
begin

text \<open>
  The life cycle of the DMA character driver: its invariant, that probing establishes it or gives
  everything back, that reading, writing, interrupts and the device keep it, and that removal
  releases everything. The driver is an instance of \<open>pci_driver\<close>.
\<close>

section \<open>Hardware access leaves the ledgers alone\<close>

lemma expt_phy_ledger [trace_simps]:
  "ledger (expt_phy_reg_write E a v t) = ledger t" "ledger (snd (expt_phy_reg_read E a t)) = ledger t"
proof -
  have dn: "ledger (snd (expt_phy_done E f t)) = ledger t" for f t
    by (simp add: expt_phy_done_def REG_defs Let_def trace_simps)
  show "ledger (expt_phy_reg_write E a v t) = ledger t" "ledger (snd (expt_phy_reg_read E a t)) = ledger t"
    by (simp_all add: expt_phy_reg_write_def expt_phy_reg_read_def Let_def REG_defs
        poll_loop_same [of ledger, OF dn] trace_simps)
qed

lemma expt_hw_ledger [trace_simps]:
  "ledger (hw_enable_intr E m t) = ledger t" "ledger (hw_disable_intr E m t) = ledger t"
  "ledger (hw_init E t) = ledger t" "ledger (hw_shut E t) = ledger t"
proof -
  show intr: "ledger (hw_enable_intr E m t) = ledger t" "ledger (hw_disable_intr E m t) = ledger t" for m t
    by (simp_all add: hw_enable_intr_def hw_disable_intr_def REG_defs Let_def trace_simps)
  show "ledger (hw_init E t) = ledger t"
    by (simp add: hw_init_def phy_init_def REG_defs Let_def intr trace_simps)
  have dn: "ledger (snd (expt_reset_done E t)) = ledger t" for t
    by (simp add: expt_reset_done_def REG_defs Let_def trace_simps)
  show "ledger (hw_shut E t) = ledger t"
    by (simp add: hw_shut_def phy_shut_def REG_defs Let_def intr
        down_loop_same [of ledger, OF dn] trace_simps)
qed

lemma ledger_views: "ledger t = ledger u \<Longrightarrow> held t = held u \<and> buffers_view t = buffers_view u"
  using ledger_eqD(3) [of t u] ledger_buffers_view [of t u] by blast

section \<open>The invariant\<close>

definition expt_buffers :: "dev_priv \<Rightarrow> bool" where
  "expt_buffers s \<longleftrightarrow> desc_tx s \<noteq> None \<and> desc_rx s \<noteq> None
     \<and> map_option length (pkt_tx s) = Some PKT_SIZE \<and> map_option length (pkt_rx s) = Some PKT_SIZE"

text \<open>The DMA mappings that exist while the buffers are set up.\<close>

definition expt_maps :: "dev_priv \<Rightarrow> dma_map \<Rightarrow> int" where
  "expt_maps s m = (if m = (phy_pkt_tx s, of_nat PKT_SIZE, ToDevice) then 1 else 0)
     + (if m = (phy_pkt_rx s, of_nat PKT_SIZE, FromDevice) then 1 else 0)"

definition expt_armed :: "res list \<Rightarrow> dev_priv \<Rightarrow> bool" where
  "expt_armed h s \<longleftrightarrow> drv_set s \<and> expt_buffers s
     \<and> held (etr s) = Some h \<and> buffers_view (etr s) = (\<lambda>_. 0, expt_maps s)
     \<and> (pkt_rx_avail s \<noteq> 0 \<longrightarrow> rx_pkt_size s \<le> PKT_SIZE)"

text \<open>
  \<open>kmalloc\<close> returns as many bytes as asked for, if any. That it never refuses a packet buffer is a separate
  condition: the driver does not cope with it.
\<close>

definition expt_env_ok :: "env \<Rightarrow> bool" where
  "expt_env_ok E \<longleftrightarrow> chrdev_codes_ok E \<and> (\<forall>t r. length (kmalloc_mem E t r) = PKT_SIZE)"

definition pkts_granted :: "env \<Rightarrow> bool" where
  "pkts_granted E \<longleftrightarrow> (\<forall>t. grant E t PktTx = 0 \<and> grant E t PktRx = 0)"

text \<open>A packet buffer is refused at some point after the trace \<open>t\<close>.\<close>

definition pkt_refused :: "env \<Rightarrow> trace \<Rightarrow> bool" where
  "pkt_refused E t \<longleftrightarrow> (\<exists>u. grant E (u @ t) PktTx \<noteq> 0 \<or> grant E (u @ t) PktRx \<noteq> 0)"

lemma pkt_refused_Cons: "pkt_refused E (x # t) \<Longrightarrow> pkt_refused E t"
  unfolding pkt_refused_def by (metis append.assoc append_Cons append_Nil)

lemma pkts_granted_not_refused: "pkts_granted E \<Longrightarrow> \<not> pkt_refused E t"
  by (simp add: pkts_granted_def pkt_refused_def)

definition pci_res :: "bool \<Rightarrow> res list \<Rightarrow> res list" where
  "pci_res msi h = (if msi then [Msi] else []) @ RegMap # Regions # PciDevice # h"

definition dma_res :: "res list" where "dma_res = [PktRx, PktTx, RxRing, TxRing]"

definition expt_idle :: "env \<Rightarrow> res list \<Rightarrow> dev_priv \<Rightarrow> bool" where
  "expt_idle E h s \<longleftrightarrow> expt_env_ok E \<and> \<not> drv_set s \<and> Msi \<notin> set h \<and> held (etr s) = Some h \<and> clean_trace (etr s)"

definition expt_bound :: "env \<Rightarrow> res list \<Rightarrow> dev_priv \<Rightarrow> bool" where
  "expt_bound E h s \<longleftrightarrow> expt_env_ok E \<and> Msi \<notin> set h
     \<and> (\<exists>msi. expt_armed (chr_res @ Irq # dma_res @ pci_res msi h) s)"

section \<open>Buffers\<close>

lemma arm_descs_spec:
  assumes "desc_tx s = Some dt" "desc_rx s = Some dr"
  obtains t where "arm_descs s = Some (s\<lparr>
      desc_tx := Some (dt\<lparr>opts1 := dbit RingEnd OR dbit FirstFrag OR dbit LastFrag, opts2 := 0,
                         addr := phy_pkt_tx s\<rparr>),
      desc_rx := Some (dr\<lparr>opts1 := dbit DescOwn OR dbit RingEnd OR of_nat RX_PKT_SIZE, opts2 := 0,
                         addr := phy_pkt_rx s\<rparr>),
      etr := t, pkt_tx_busy := 0, pkt_rx_avail := 0\<rparr>)" "ledger t = ledger (etr s)"
  using assms by (simp add: arm_descs_def Let_def REG_defs trace_simps)

text \<open>A refused packet buffer: the descriptors have been freed when they are written.\<close>

lemma setup_packets_refused:
  assumes "grant E (etr s) PktTx \<noteq> 0 \<or> grant E (MapSingle pkt_tx_name
    (map_addr E (Got PktTx # etr s) pkt_tx_name) (of_nat PKT_SIZE) ToDevice # Got PktTx # etr s) PktRx \<noteq> 0"
  shows "setup_packets E s = None"
  using assms unfolding setup_packets_def kmalloc_pkt_def map_pkt_def acquire_def Let_def
  by (auto simp: free_descs_def put_res_def release_def arm_descs_def bind_eq_None_conv)

lemma setup_packets_spec:
  assumes env: "expt_env_ok E" and d: "desc_tx s = Some dt" "desc_rx s = Some dr" "drv_set s"
    and h: "held (etr s) = Some h" "clean_trace (etr s)"
  shows "case setup_packets E s of None \<Rightarrow> pkt_refused E (etr s) | Some s' \<Rightarrow> expt_armed (PktRx # PktTx # h) s'"
proof (cases "setup_packets E s")
  case None
  moreover have "pkt_refused E (etr s)"
  proof (rule ccontr)
    assume "\<not> pkt_refused E (etr s)"
    then have g: "grant E (u @ etr s) PktTx = 0" "grant E (u @ etr s) PktRx = 0" for u by (auto simp: pkt_refused_def)
    from g(1) [of "[]"] g(2) [of "[MapSingle pkt_tx_name (map_addr E (Got PktTx # etr s) pkt_tx_name) (of_nat PKT_SIZE) ToDevice, Got PktTx]"]
    have "setup_packets E s \<noteq> None"
      using d unfolding setup_packets_def kmalloc_pkt_def map_pkt_def acquire_def Let_def
      by (simp add: arm_descs_def Let_def)
    with None show False by simp
  qed
  ultimately show ?thesis by simp
next
  case (Some s')
  let ?b1 = "kmalloc_mem E (etr s) PktTx"
  let ?a1 = "map_addr E (Got PktTx # etr s) pkt_tx_name"
  let ?t1 = "MapSingle pkt_tx_name ?a1 (of_nat PKT_SIZE) ToDevice # Got PktTx # etr s"
  let ?b2 = "kmalloc_mem E ?t1 PktRx"
  let ?a2 = "map_addr E (Got PktRx # ?t1) pkt_rx_name"
  let ?t2 = "MapSingle pkt_rx_name ?a2 (of_nat PKT_SIZE) FromDevice # Got PktRx # ?t1"
  let ?s = "s\<lparr>pkt_tx := Some ?b1, phy_pkt_tx := ?a1, pkt_rx := Some ?b2, etr := ?t2, phy_pkt_rx := ?a2\<rparr>"
  from env have len: "length (kmalloc_mem E t r) = PKT_SIZE" for t r by (simp add: expt_env_ok_def)
  from setup_packets_refused [of E s] Some have g: "grant E (etr s) PktTx = 0" "grant E ?t1 PktRx = 0" by auto
  have run: "setup_packets E s = arm_descs ?s"
    unfolding setup_packets_def kmalloc_pkt_def map_pkt_def acquire_def Let_def by (simp add: g)
  have "desc_tx ?s = Some dt" "desc_rx ?s = Some dr" using d by simp_all
  from arm_descs_spec [OF this] obtain t where
    t: "arm_descs ?s = Some (?s\<lparr>
      desc_tx := Some (dt\<lparr>opts1 := dbit RingEnd OR dbit FirstFrag OR dbit LastFrag, opts2 := 0,
                         addr := phy_pkt_tx ?s\<rparr>),
      desc_rx := Some (dr\<lparr>opts1 := dbit DescOwn OR dbit RingEnd OR of_nat RX_PKT_SIZE, opts2 := 0,
                         addr := phy_pkt_rx ?s\<rparr>),
      etr := t, pkt_tx_busy := 0, pkt_rx_avail := 0\<rparr>)" "ledger t = ledger (etr ?s)" .
  have "held t = Some (PktRx # PktTx # h)" using ledger_views [OF t(2)] h by simp
  moreover have "buffers_view t = (\<lambda>_. 0, expt_maps ?s)"
    using ledger_views [OF t(2)] h(2)
    by (auto simp: buffers_view_def clean_trace_def expt_maps_def fun_eq_iff)
  ultimately show ?thesis
    using run t(1) d(3) by (simp add: expt_armed_def expt_buffers_def expt_maps_def [abs_def] len)
qed

lemma setup_buffers_spec:
  assumes env: "expt_env_ok E" and s: "drv_set s" "held (etr s) = Some h" "clean_trace (etr s)"
  shows "case setup_buffers E s of None \<Rightarrow> pkt_refused E (etr s)
    | Some (r, s') \<Rightarrow> if r = 0 then expt_armed (dma_res @ h) s'
        else drv_set s' \<and> held (etr s') = Some h \<and> clean_trace (etr s')"
proof -
  let ?t1 = "Got TxRing # etr s"
  consider (tx) "grant E (etr s) TxRing \<noteq> 0" | (rx) "grant E (etr s) TxRing = 0" "grant E ?t1 RxRing \<noteq> 0"
    | (both) "grant E (etr s) TxRing = 0" "grant E ?t1 RxRing = 0" by blast
  then show ?thesis
  proof cases
    case both
    obtain m1 a1 where c1: "coherent E (etr s) TxRing = (m1, a1)" by fastforce
    obtain m2 a2 where c2: "coherent E ?t1 RxRing = (m2, a2)" by fastforce
    let ?s = "s\<lparr>desc_tx := Some (case m1 of [] \<Rightarrow> zero_desc | x # _ \<Rightarrow> x), phy_desc_tx := a1,
      etr := Got RxRing # ?t1, desc_rx := Some (case m2 of [] \<Rightarrow> zero_desc | x # _ \<Rightarrow> x), phy_desc_rx := a2\<rparr>"
    have "setup_buffers E s = map_option (\<lambda>s. (0, s)) (setup_packets E ?s)"
      using both c1 c2 by (simp add: setup_buffers_def pci_alloc_consistent_def acquire_def Let_def)
    moreover have "case setup_packets E ?s of None \<Rightarrow> pkt_refused E (etr ?s)
        | Some s' \<Rightarrow> expt_armed (PktRx # PktTx # RxRing # TxRing # h) s'"
      by (rule setup_packets_spec [OF env]) (use s in \<open>simp_all\<close>)
    ultimately show ?thesis by (auto simp: dma_res_def split: option.splits dest!: pkt_refused_Cons)
  next
    case tx
    then have "setup_buffers E s = Some (- ENOMEM, s\<lparr>etr := Denied TxRing (grant E (etr s) TxRing) # etr s, desc_tx := None\<rparr>)"
      by (simp add: setup_buffers_def pci_alloc_consistent_def acquire_def Let_def)
    then show ?thesis using s by (simp add: ENOMEM_def)
  next
    case rx
    obtain m1 a1 where c1: "coherent E (etr s) TxRing = (m1, a1)" by fastforce
    let ?s = "s\<lparr>phy_desc_tx := a1, desc_rx := None, desc_tx := None,
      etr := Put TxRing # Denied RxRing (grant E ?t1 RxRing) # ?t1\<rparr>"
    have "setup_buffers E s = Some (- ENOMEM, ?s)"
      using rx c1 by (simp add: setup_buffers_def pci_alloc_consistent_def acquire_def Let_def put_res_def release_def)
    then show ?thesis using s by (simp add: ENOMEM_def)
  qed
qed

lemma cleanup_buffers_spec:
  assumes "expt_armed (dma_res @ h) s"
  shows "drv_set (cleanup_buffers s)" "held (etr (cleanup_buffers s)) = Some h" "clean_trace (etr (cleanup_buffers s))"
proof -
  from assms have s: "drv_set s" "held (etr s) = Some (dma_res @ h)" "buffers_view (etr s) = (\<lambda>_. 0, expt_maps s)"
    by (simp_all add: expt_armed_def)
  show "drv_set (cleanup_buffers s)" "held (etr (cleanup_buffers s)) = Some h"
    using s by (simp_all add: cleanup_buffers_def Let_def put_res_def release_def dma_res_def)
  have "skb_bal p (etr s) = 0" "dma_bal m (etr s) = expt_maps s m" for p m
    using s(3) unfolding buffers_view_def prod.inject by (simp_all only: fun_eq_iff)
  then show "clean_trace (etr (cleanup_buffers s))"
    by (auto simp: cleanup_buffers_def Let_def put_res_def release_def clean_trace_def expt_maps_def)
qed

lemma expt_armed_trace:
  assumes "expt_armed h s" "held t = Some h'" "buffers_view t = buffers_view (etr s)"
  shows "expt_armed h' (s\<lparr>etr := t\<rparr>)"
  using assms by (simp add: expt_armed_def expt_buffers_def expt_maps_def [abs_def])

section \<open>Probe and remove\<close>

lemma expt_unwind_spec:
  assumes "expt_env_ok E" "held (etr s) = Some (pci_res msi h)" "Msi \<notin> set h" "clean_trace (etr s)"
  shows "expt_idle E h (expt_unwind s)"
  using assms held_msi [OF assms(2)]
  by (auto simp: expt_unwind_def expt_idle_def pci_res_def put_res_def release_def Let_def split: if_splits)

lemma expt_probe_buffers_spec:
  assumes env: "expt_env_ok E" "Msi \<notin> set h" and s: "expt_armed (dma_res @ pci_res msi h) s"
  shows "\<exists>r s'. expt_probe_buffers E s = (r, s') \<and> (if r = 0 then expt_bound E h s' else expt_idle E h s')"
proof (cases "grant E (etr s) Irq = 0")
  case False
  let ?s = "s\<lparr>etr := Denied Irq (grant E (etr s) Irq) # etr s\<rparr>"
  have "expt_armed (dma_res @ pci_res msi h) ?s"
    by (rule expt_armed_trace [OF s]) (use s in \<open>simp_all add: expt_armed_def\<close>)
  note c = cleanup_buffers_spec [OF this]
  from expt_unwind_spec [OF env(1) c(2) env(2) c(3)] False show ?thesis
    by (simp add: expt_probe_buffers_def acquire_def Let_def)
next
  case True
  let ?t = "hw_init E (Got Irq # etr s)"
  have hv: "held ?t = Some (Irq # dma_res @ pci_res msi h)" "buffers_view ?t = buffers_view (etr s)"
    using ledger_views [of ?t "Got Irq # etr s"] s by (simp_all add: trace_simps expt_armed_def)
  from env have "chrdev_codes_ok E" by (simp add: expt_env_ok_def)
  from chrdev_register_spec [OF this hv(1)] obtain c u where
    u: "chrdev_register E ?t = (c, u)" "held u = Some (if c = 0 then chr_res @ Irq # dma_res @ pci_res msi h
        else Irq # dma_res @ pci_res msi h)" "buffers_view u = buffers_view ?t" .
  show ?thesis
  proof (cases "c = 0")
    case c: True
    from expt_armed_trace [OF s, of u] u(2,3) c hv(2)
    have "expt_armed (chr_res @ Irq # dma_res @ pci_res msi h) (s\<lparr>etr := u\<rparr>)" by simp
    then have "expt_bound E h (s\<lparr>etr := u\<rparr>)" using env by (auto simp: expt_bound_def)
    then show ?thesis using True u(1) c
      by (simp add: expt_probe_buffers_def acquire_def char_register_dev_def Let_def)
  next
    case c: False
    let ?s = "s\<lparr>etr := Put Irq # hw_shut E u\<rparr>"
    have "expt_armed (dma_res @ pci_res msi h) ?s"
      using ledger_views [of "hw_shut E u" u] u(2,3) c hv(2)
      by (intro expt_armed_trace [OF s]) (simp_all add: trace_simps)
    note cs = cleanup_buffers_spec [OF this]
    from expt_unwind_spec [OF env(1) cs(2) env(2) cs(3)] show ?thesis using True u(1) c
      by (simp add: expt_probe_buffers_def acquire_def char_register_dev_def Let_def put_res_def release_def)
  qed
qed

lemma expt_probe_mapped_spec:
  assumes env: "expt_env_ok E" "Msi \<notin> set h"
    and s: "held (etr s) = Some (pci_res False h)" "clean_trace (etr s)"
  shows "case expt_probe_mapped E s of None \<Rightarrow> pkt_refused E (etr s)
    | Some (r, s') \<Rightarrow> if r = 0 then expt_bound E h s' else expt_idle E h s'"
proof -
  let ?m = "grant E (etr s) Msi"
  let ?s = "s\<lparr>drv_set := True, etr := (if ?m = 0 then Got Msi else Denied Msi ?m) # etr s\<rparr>"
  have "drv_set ?s" "held (etr ?s) = Some (pci_res (?m = 0) h)" "clean_trace (etr ?s)"
    using s by (simp_all add: pci_res_def)
  note spec = setup_buffers_spec [OF env(1) this]
  have run: "expt_probe_mapped E s = do { (r, s) \<leftarrow> setup_buffers E ?s;
      Some (if r \<noteq> 0 then (r, expt_unwind s) else expt_probe_buffers E s) }"
    by (cases "?m = 0") (simp_all add: expt_probe_mapped_def acquire_def Let_def)
  show ?thesis
  proof (cases "setup_buffers E ?s")
    case None
    with spec run show ?thesis by (auto dest!: pkt_refused_Cons)
  next
    case (Some p)
    obtain r s' where p: "p = (r, s')" by fastforce
    show ?thesis
    proof (cases "r = 0")
      case True
      with spec Some p have "expt_armed (dma_res @ pci_res (?m = 0) h) s'" by simp
      from expt_probe_buffers_spec [OF env this] run Some p True show ?thesis by auto
    next
      case False
      with spec Some p have "held (etr s') = Some (pci_res (?m = 0) h)" "clean_trace (etr s')" by simp_all
      from expt_unwind_spec [OF env(1) this(1) env(2) this(2)] run Some p False show ?thesis by simp
    qed
  qed
qed

lemma expt_probe_spec:
  assumes "expt_idle E h s"
  shows "case expt_probe E s of None \<Rightarrow> pkt_refused E (etr s)
    | Some (r, s') \<Rightarrow> if r = 0 then expt_bound E h s' else expt_idle E h s'"
proof -
  let ?t1 = "Got PciDevice # etr s"
  let ?t2 = "SetMaster # Got Regions # ?t1"
  consider "grant E (etr s) PciDevice \<noteq> 0"
    | "grant E (etr s) PciDevice = 0" "grant E ?t1 Regions \<noteq> 0"
    | "grant E (etr s) PciDevice = 0" "grant E ?t1 Regions = 0" "grant E ?t2 RegMap \<noteq> 0"
    | (mapped) "grant E (etr s) PciDevice = 0" "grant E ?t1 Regions = 0" "grant E ?t2 RegMap = 0" by blast
  then show ?thesis
  proof cases
    case mapped
    then have "expt_probe E s = expt_probe_mapped E (s\<lparr>etr := Got RegMap # ?t2\<rparr>)"
      by (simp add: expt_probe_def acquire_def Let_def)
    moreover have "case expt_probe_mapped E (s\<lparr>etr := Got RegMap # ?t2\<rparr>) of
          None \<Rightarrow> pkt_refused E (etr (s\<lparr>etr := Got RegMap # ?t2\<rparr>))
        | Some (r, s') \<Rightarrow> if r = 0 then expt_bound E h s' else expt_idle E h s'"
      by (rule expt_probe_mapped_spec) (use assms in \<open>simp_all add: expt_idle_def pci_res_def\<close>)
    ultimately show ?thesis by (auto split: option.splits dest!: pkt_refused_Cons)
  qed (use assms in \<open>auto simp: expt_probe_def acquire_def Let_def expt_idle_def put_res_def release_def ENODEV_def\<close>)
qed

lemma expt_remove_spec:
  assumes "expt_bound E h s"
  shows "\<exists>s'. expt_remove E s = Some s' \<and> expt_idle E h s'"
proof -
  from assms obtain msi where env: "expt_env_ok E" "Msi \<notin> set h"
    and s: "expt_armed (chr_res @ Irq # dma_res @ pci_res msi h) s" by (auto simp: expt_bound_def)
  from s have "held (etr s) = Some (chr_res @ Irq # dma_res @ pci_res msi h)" by (simp add: expt_armed_def)
  note u = chrdev_unregister_spec [OF this]
  let ?t = "Put Irq # hw_shut E (chrdev_unregister (etr s))"
  have "expt_armed (dma_res @ pci_res msi h) (s\<lparr>etr := ?t\<rparr>)"
    using ledger_views [of "hw_shut E (chrdev_unregister (etr s))" "chrdev_unregister (etr s)"] u
    by (intro expt_armed_trace [OF s]) (simp_all add: trace_simps)
  note c = cleanup_buffers_spec [OF this]
  from expt_unwind_spec [OF env(1) c(2) env(2) c(3)] s show ?thesis
    by (simp add: expt_remove_def char_deregister_dev_def put_res_def release_def Let_def expt_armed_def)
qed

section \<open>Events of a bound device\<close>

text \<open>
  The kernel calls the interrupt handler and the file operations; the device writes a received frame
  to the buffer with its length to the descriptor, and gives a transmitted descriptor back by
  clearing its ownership bit. The receive guards say that frames fit the buffer: the driver does
  not check.
\<close>

datatype expt_event = EOpen | EClose | EIrq | ERead nat nat | EWrite "u8 list" | EDevRx "u8 list" u32 | EDevTx

definition frame_size :: "Desc \<Rightarrow> nat" where
  "frame_size d = unat (opts1 d AND (push_bit 14 1 - 1))"

definition dev_rx :: "u8 list \<Rightarrow> u32 \<Rightarrow> dev_priv \<Rightarrow> dev_priv option" where
  "dev_rx frame o1 s = do {
     d \<leftarrow> desc_rx s;
     buf \<leftarrow> pkt_rx s;
     Some (s\<lparr>desc_rx := Some (d\<lparr>opts1 := o1\<rparr>), pkt_rx := Some (frame @ drop (length frame) buf)\<rparr>)
   }"

definition dev_tx :: "dev_priv \<Rightarrow> dev_priv option" where
  "dev_tx s = do {
     d \<leftarrow> desc_tx s;
     Some (s\<lparr>desc_tx := Some (d\<lparr>opts1 := opts1 d AND NOT (dbit DescOwn)\<rparr>)\<rparr>)
   }"

fun expt_enabled :: "env \<Rightarrow> expt_event \<Rightarrow> dev_priv \<Rightarrow> bool" where
  "expt_enabled E EIrq s \<longleftrightarrow>
     ioread16 E (etr s) (ereg INTR_STATUS_REG) AND eintr INTR_RX_OK_BIT = 0
     \<or> (case desc_rx s of None \<Rightarrow> False | Some d \<Rightarrow> frame_size d \<le> PKT_SIZE)"
| "expt_enabled E (ERead len off) s \<longleftrightarrow> True"
| "expt_enabled E (EWrite data) s \<longleftrightarrow> True"
| "expt_enabled E EOpen s \<longleftrightarrow> True"
| "expt_enabled E EClose s \<longleftrightarrow> True"
| "expt_enabled E (EDevRx frame o1) s \<longleftrightarrow>
     (case desc_rx s of None \<Rightarrow> False | Some d \<Rightarrow> nic_owned d) \<and> length frame \<le> PKT_SIZE
     \<and> o1 AND (push_bit 14 1 - 1) = of_nat (length frame)"
| "expt_enabled E EDevTx s \<longleftrightarrow> (case desc_tx s of None \<Rightarrow> False | Some d \<Rightarrow> nic_owned d)"

fun expt_work :: "env \<Rightarrow> expt_event \<Rightarrow> dev_priv \<Rightarrow> dev_priv option" where
  "expt_work E EIrq s = map_option snd (expt_pci_intr_handler E s)"
| "expt_work E (ERead len off) s = map_option (\<lambda>(_, _, _, s). s) (expt_read E len off s)"
| "expt_work E (EWrite data) s = map_option snd (expt_write E data s)"
| "expt_work E (EDevRx frame o1) s = dev_rx frame o1 s"
| "expt_work E EDevTx s = dev_tx s"
| "expt_work E EOpen s = Some (snd (expt_open s))"
| "expt_work E EClose s = Some (snd (expt_close s))"

text \<open>Changes that keep the invariant: everything but the resources, mappings and buffer sizes.\<close>

lemma expt_armed_same:
  assumes "expt_armed h s" "drv_set s' = drv_set s" "ledger (etr s') = ledger (etr s)"
    "phy_pkt_tx s' = phy_pkt_tx s" "phy_pkt_rx s' = phy_pkt_rx s" "expt_buffers s'"
    "pkt_rx_avail s' \<noteq> 0 \<longrightarrow> rx_pkt_size s' \<le> PKT_SIZE"
  shows "expt_armed h s'"
  using assms ledger_views [OF assms(3)] by (simp add: expt_armed_def expt_maps_def [abs_def])

lemma expt_armedD:
  assumes "expt_armed h s"
  obtains dt dr bt br where "desc_tx s = Some dt" "desc_rx s = Some dr" "pkt_tx s = Some bt" "pkt_rx s = Some br"
    "length bt = PKT_SIZE" "length br = PKT_SIZE" "pkt_rx_avail s \<noteq> 0 \<longrightarrow> rx_pkt_size s \<le> PKT_SIZE"
  using assms by (auto simp: expt_armed_def expt_buffers_def)

lemma intr_rx_armed:
  assumes "expt_armed h s" "st AND eintr INTR_RX_OK_BIT = 0 \<or> (case desc_rx s of None \<Rightarrow> False | Some d \<Rightarrow> frame_size d \<le> PKT_SIZE)"
  shows "\<exists>s'. intr_rx st s = Some s' \<and> expt_armed h s'"
proof -
  from assms(1) obtain dt dr bt br where s: "desc_tx s = Some dt" "desc_rx s = Some dr" "pkt_tx s = Some bt"
    "pkt_rx s = Some br" "length bt = PKT_SIZE" "length br = PKT_SIZE"
    "pkt_rx_avail s \<noteq> 0 \<longrightarrow> rx_pkt_size s \<le> PKT_SIZE" by (rule expt_armedD)
  show ?thesis
  proof (cases "st AND eintr INTR_RX_OK_BIT = 0")
    case True
    then show ?thesis using assms(1) by (simp add: intr_rx_def)
  next
    case False
    let ?s = "s\<lparr>etr := REG_W16 (eintr INTR_RX_OK_BIT) (ereg INTR_STATUS_REG) (etr s),
      rx_pkt_size := frame_size dr, pkt_rx_avail := pkt_rx_avail s + 1\<rparr>"
    have "frame_size dr \<le> PKT_SIZE" using assms(2) False s(2) by simp
    then have "expt_armed h ?s"
      by (intro expt_armed_same [OF assms(1)]) (use s in \<open>simp_all add: expt_buffers_def REG_defs trace_simps\<close>)
    moreover have "intr_rx st s = Some ?s" using False s(2) by (simp add: intr_rx_def frame_size_def Let_def)
    ultimately show ?thesis by blast
  qed
qed

lemma intr_steps_armed:
  assumes "expt_armed h s"
  shows "expt_armed h (intr_link E st s)" "expt_armed h (intr_tx st s)" "expt_armed h (intr_err E st s)"
    "desc_rx (intr_link E st s) = desc_rx s" "desc_rx (intr_tx st s) = desc_rx s"
proof -
  show "desc_rx (intr_link E st s) = desc_rx s" "desc_rx (intr_tx st s) = desc_rx s"
    by (simp_all add: intr_link_def intr_tx_def REG_defs Let_def)
  from assms have "expt_buffers s" "pkt_rx_avail s \<noteq> 0 \<longrightarrow> rx_pkt_size s \<le> PKT_SIZE" by (simp_all add: expt_armed_def)
  then show "expt_armed h (intr_link E st s)" "expt_armed h (intr_tx st s)" "expt_armed h (intr_err E st s)"
    by (auto intro!: expt_armed_same [OF assms]
        simp: intr_link_def intr_tx_def intr_err_def expt_buffers_def REG_defs Let_def trace_simps)
qed

lemma expt_irq_armed:
  assumes "expt_armed h s" "expt_enabled E EIrq s"
  shows "\<exists>r s'. expt_pci_intr_handler E s = Some (r, s') \<and> expt_armed h s'"
proof -
  define st where "st = ioread16 E (etr s) (ereg INTR_STATUS_REG)"
  let ?s = "s\<lparr>etr := R16 (ereg INTR_STATUS_REG) st # etr s\<rparr>"
  have a: "expt_armed h ?s"
    by (rule expt_armed_trace [OF assms(1)]) (use assms(1) in \<open>simp_all add: expt_armed_def\<close>)
  let ?u = "intr_tx st (intr_link E st ?s)"
  note L = intr_steps_armed(1) [OF a, of E st]
  have u: "expt_armed h ?u" "desc_rx ?u = desc_rx s"
    using intr_steps_armed(2,5) [OF L, of st] intr_steps_armed(4) [OF a, of E st] by simp_all
  from assms(2) u(2) have "st AND eintr INTR_RX_OK_BIT = 0 \<or> (case desc_rx ?u of None \<Rightarrow> False | Some d \<Rightarrow> frame_size d \<le> PKT_SIZE)"
    by (simp add: st_def)
  from intr_rx_armed [OF u(1) this] obtain v where v: "intr_rx st ?u = Some v" "expt_armed h v" by blast
  have "expt_pci_intr_handler E s = (if st AND (INTR_MASK OR INTR_ERR_MASK) = 0 then Some (False, ?s)
      else Some (True, intr_err E st v))"
    using v(1) by (simp add: expt_pci_intr_handler_def REG_R16_def Let_def st_def)
  then show ?thesis using a intr_steps_armed(3) [OF v(2), of E st]
    by (cases "st AND (INTR_MASK OR INTR_ERR_MASK) = 0") auto
qed

text \<open>The branches of a read.\<close>

lemma expt_read_rearm:
  assumes "pkt_rx_avail s \<noteq> 0" "rx_pkt_size s \<le> off" "desc_rx s = Some d"
  shows "expt_read E len off s = Some (0, [], 0, s\<lparr>pkt_rx_avail := 0,
    desc_rx := Some (d\<lparr>opts1 := opts1 d OR dbit DescOwn OR of_nat PKT_SIZE\<rparr>),
    etr := hw_enable_intr E (eintr INTR_RX_DESC_UNAVAIL) (etr s)\<rparr>)"
  using assms by (simp add: expt_read_def Let_def)

lemma expt_read_chunk:
  assumes "pkt_rx_avail s \<noteq> 0" "off < rx_pkt_size s" "pkt_rx s = Some buf" "rx_pkt_size s \<le> length buf"
    and n: "n = min len (rx_pkt_size s - off)" "k = user_copied E (etr s) n"
  shows "expt_read E len off s = Some (if k < n then (- EFAULT, take k (take n (drop off buf)), off, s)
    else (int n, take n (drop off buf), off + n, s))"
proof -
  have "off + n \<le> length buf" using assms(2,4) n(1) by simp
  then show ?thesis using assms(1-3) by (simp add: expt_read_def Let_def n [symmetric])
qed

lemma expt_read_armed:
  assumes "expt_armed h s"
  shows "\<exists>r. expt_read E len off s = Some r \<and> expt_armed h (snd (snd (snd r)))"
proof -
  from assms obtain dt dr bt br where s: "desc_tx s = Some dt" "desc_rx s = Some dr" "pkt_tx s = Some bt"
    "pkt_rx s = Some br" "length bt = PKT_SIZE" "length br = PKT_SIZE"
    "pkt_rx_avail s \<noteq> 0 \<longrightarrow> rx_pkt_size s \<le> PKT_SIZE" by (rule expt_armedD)
  consider "pkt_rx_avail s = 0" | (rearm) "pkt_rx_avail s \<noteq> 0" "rx_pkt_size s \<le> off"
    | (chunk) "pkt_rx_avail s \<noteq> 0" "off < rx_pkt_size s" by linarith
  then show ?thesis
  proof cases
    case 1
    then show ?thesis using assms by (simp add: expt_read_def)
  next
    case rearm
    have "expt_armed h (s\<lparr>pkt_rx_avail := 0, desc_rx := Some (dr\<lparr>opts1 := opts1 dr OR dbit DescOwn OR of_nat PKT_SIZE\<rparr>),
        etr := hw_enable_intr E (eintr INTR_RX_DESC_UNAVAIL) (etr s)\<rparr>)"
      by (rule expt_armed_same [OF assms]) (use s in \<open>simp_all add: expt_buffers_def trace_simps\<close>)
    then show ?thesis using expt_read_rearm [OF rearm s(2)] by simp
  next
    case chunk
    with s show ?thesis using expt_read_chunk [OF chunk s(4) _ refl refl] assms by simp
  qed
qed

text \<open>The branches of a write.\<close>

lemma expt_write_busy:
  "pkt_tx_busy s \<noteq> 0 \<Longrightarrow> expt_write E data s = Some (- EBUSY, s)"
  by (simp add: expt_write_def)

definition tx_sent_state :: "u8 list \<Rightarrow> u8 list \<Rightarrow> Desc \<Rightarrow> dev_priv \<Rightarrow> dev_priv" where
  "tx_sent_state data buf d s = s\<lparr>pkt_tx_busy := 1,
     pkt_tx := Some (take PKT_SIZE data @ drop (min (length data) PKT_SIZE) buf),
     desc_tx := Some (d\<lparr>opts1 := opts1 d OR dbit DescOwn OR of_nat (min (length data) PKT_SIZE)\<rparr>),
     etr := W8 (ereg TX_POLL_REG) NPQ_BIT # etr s\<rparr>"

lemma expt_write_free:
  assumes "pkt_tx_busy s = 0" "pkt_tx s = Some buf" "desc_tx s = Some d"
    and n: "n = min (length data) PKT_SIZE" "k = user_copied E (etr s) n"
  shows "expt_write E data s = Some (if k < n
    then (- EFAULT, s\<lparr>pkt_tx_busy := 1, pkt_tx := Some (take k data @ replicate (n - k) 0 @ drop n buf)\<rparr>)
    else (int (length data), tx_sent_state data buf d s))"
proof (cases "k < n")
  case True
  then show ?thesis using assms(1,2) by (simp add: expt_write_def Let_def n [symmetric])
next
  case False
  then have "min k n = n" by simp
  moreover have "take PKT_SIZE data = take n data" using n by (simp add: min_def)
  ultimately show ?thesis using False assms(1-3)
    by (simp add: expt_write_def tx_sent_state_def Let_def REG_defs n [symmetric])
qed

lemma expt_write_armed:
  assumes "expt_armed h s"
  shows "\<exists>r. expt_write E data s = Some r \<and> expt_armed h (snd r)"
proof (cases "pkt_tx_busy s = 0")
  case False
  then show ?thesis using assms expt_write_busy by simp
next
  case True
  from assms obtain dt dr bt br where s: "desc_tx s = Some dt" "desc_rx s = Some dr" "pkt_tx s = Some bt"
    "pkt_rx s = Some br" "length bt = PKT_SIZE" "length br = PKT_SIZE"
    "pkt_rx_avail s \<noteq> 0 \<longrightarrow> rx_pkt_size s \<le> PKT_SIZE" by (rule expt_armedD)
  have "expt_armed h (tx_sent_state data bt dt s)"
    by (rule expt_armed_same [OF assms])
      (use s in \<open>simp_all add: tx_sent_state_def expt_buffers_def trace_simps min_def\<close>)
  moreover have "expt_armed h (s\<lparr>pkt_tx_busy := 1, pkt_tx := Some (take k data @ replicate (min (length data) PKT_SIZE - k) 0
      @ drop (min (length data) PKT_SIZE) bt)\<rparr>)"
    if "k < min (length data) PKT_SIZE" for k
    by (rule expt_armed_same [OF assms])
      (use s that in \<open>simp_all add: expt_buffers_def\<close>)
  ultimately show ?thesis using expt_write_free [OF True s(3,1) refl refl, of E data] by simp
qed

lemma dev_armed:
  assumes "expt_armed h s"
  shows "length frame \<le> PKT_SIZE \<Longrightarrow> \<exists>s'. dev_rx frame o1 s = Some s' \<and> expt_armed h s'"
    "\<exists>s'. dev_tx s = Some s' \<and> expt_armed h s'"
proof -
  from assms obtain dt dr bt br where s: "desc_tx s = Some dt" "desc_rx s = Some dr" "pkt_tx s = Some bt"
    "pkt_rx s = Some br" "length bt = PKT_SIZE" "length br = PKT_SIZE"
    "pkt_rx_avail s \<noteq> 0 \<longrightarrow> rx_pkt_size s \<le> PKT_SIZE" by (rule expt_armedD)
  show "\<exists>s'. dev_rx frame o1 s = Some s' \<and> expt_armed h s'" if "length frame \<le> PKT_SIZE"
    using s that by (auto intro!: expt_armed_same [OF assms] simp: dev_rx_def expt_buffers_def)
  show "\<exists>s'. dev_tx s = Some s' \<and> expt_armed h s'"
    using s by (auto intro!: expt_armed_same [OF assms] simp: dev_tx_def expt_buffers_def)
qed

lemma expt_work_armed:
  assumes "expt_armed h s" "expt_enabled E e s"
  shows "\<exists>s'. expt_work E e s = Some s' \<and> expt_armed h s'"
proof (cases e)
  case EIrq
  with expt_irq_armed [OF assms(1), of E] assms(2) show ?thesis by auto
next
  case (ERead len off)
  with expt_read_armed [OF assms(1), of E len off] show ?thesis by (auto split: prod.splits)
next
  case (EWrite data)
  with expt_write_armed [OF assms(1), of E data] show ?thesis by auto
next
  case (EDevRx frame o1)
  with dev_armed(1) [OF assms(1), of frame o1] assms(2) show ?thesis by auto
next
  case EDevTx
  with dev_armed(2) [OF assms(1)] show ?thesis by simp
qed (use assms(1) in \<open>simp_all add: expt_open_def expt_close_def\<close>)

lemma expt_work_spec:
  assumes "expt_bound E h s" "expt_enabled E e s"
  shows "\<exists>s'. expt_work E e s = Some s' \<and> expt_bound E h s'"
proof -
  from assms(1) obtain msi where "expt_env_ok E" "Msi \<notin> set h"
    "expt_armed (chr_res @ Irq # dma_res @ pci_res msi h) s" by (auto simp: expt_bound_def)
  with expt_work_armed [OF this(3) assms(2)] show ?thesis by (auto simp: expt_bound_def)
qed

text \<open>Removal needs no quiet device: \<^verbatim>\<open>hw_shut\<close> resets the chip first.\<close>

interpretation ex: pci_driver "\<lambda>h s. pkts_granted E \<and> expt_idle E h s" "\<lambda>h s. pkts_granted E \<and> expt_bound E h s" drv_set "\<lambda>_. True" "expt_probe E" "expt_remove E"
    "expt_enabled E" "expt_work E" for E
proof unfold_locales
  show "\<exists>r s'. expt_probe E s = Some (r, s')
      \<and> (if r = 0 then pkts_granted E \<and> expt_bound E h s' else pkts_granted E \<and> expt_idle E h s')"
    if "pkts_granted E \<and> expt_idle E h s" for h s
    using expt_probe_spec [of E h s] that pkts_granted_not_refused [of E "etr s"]
    by (cases "expt_probe E s") (auto split: if_splits)
  show "\<exists>s'. expt_remove E s = Some s' \<and> pkts_granted E \<and> expt_idle E h s'" if "pkts_granted E \<and> expt_bound E h s" for h s
    using expt_remove_spec [of E h s] that by blast
  show "\<exists>s'. expt_work E e s = Some s' \<and> pkts_granted E \<and> expt_bound E h s'"
    if "pkts_granted E \<and> expt_bound E h s" "expt_enabled E e s" for h s e
    using expt_work_spec [of E h s e] that by blast
qed (auto simp: expt_idle_def expt_bound_def expt_armed_def)

end
