(* ===== verification/Expt_Props.thy ===== *)
theory Expt_Props
  imports Expt_Life Example_Env
begin

text \<open>
  What the DMA character driver (\<^verbatim>\<open>Solutions/expt_drv_with_dma.c\<close>) guarantees to the PCI core and to
  the programs that read and write its device file, and what goes wrong in the situations it does
  not handle.
\<close>

section \<open>A device to apply the theorems at\<close>

lemma env0_expt: "expt_env_ok env0"
  by (simp add: expt_env_ok_def chrdev_codes_ok_def env0_def PKT_SIZE_def)

definition edev0 :: dev_priv where
  "edev0 = \<lparr>etr = [], desc_tx = None, desc_rx = None, phy_desc_tx = 0, phy_desc_rx = 0, pkt_tx = None,
     pkt_rx = None, phy_pkt_tx = 0, phy_pkt_rx = 0, rx_pkt_size = 0, pkt_tx_busy = 0, pkt_rx_avail = 0,
     link_ok = None, drv_set = False\<rparr>"

lemma edev0_idle: "expt_env_ok E \<Longrightarrow> expt_idle E [] edev0"
  by (simp add: expt_idle_def edev0_def clean_trace_def)

text \<open>A bound device that has received the four bytes 1, 2, 3, 4 and not yet been read.\<close>

definition erx0 :: dev_priv where
  "erx0 = edev0\<lparr>desc_tx := Some (zero_desc\<lparr>opts1 := dbit RingEnd OR dbit FirstFrag OR dbit LastFrag\<rparr>),
     desc_rx := Some (zero_desc\<lparr>opts1 := dbit RingEnd OR 4\<rparr>),
     pkt_tx := Some (replicate 256 0), pkt_rx := Some ([1, 2, 3, 4] @ replicate 252 0),
     rx_pkt_size := 4, pkt_rx_avail := 1, drv_set := True\<rparr>"

section \<open>Life cycle\<close>

text \<open>
  C24. Provided that \<^verbatim>\<open>kmalloc\<close> never refuses a packet buffer (C26), under any sequence of probing, of reads, writes, interrupts
  and device activity while the device is bound, and of removal, in which the frames that the device
  writes and the length that a receive interrupt finds do not exceed the 256-byte buffer, the DMA
  character driver does not fault; whenever the device is not driven, the driver holds exactly the
  resources held at the beginning and no DMA mapping; while it is driven, both descriptors and both
  256-byte buffers exist, exactly the two buffers are mapped, and a packet offered to readers fits its buffer.
\<close>

theorem expt_life_cycle:
  assumes "pkts_granted E" "expt_idle E h s0"
    and "reach (pci_enabled drv_set (\<lambda>_. True) (expt_enabled E))
      (pci_step (expt_probe E) (expt_remove E) (expt_work E)) s0 s"
  shows "(if drv_set s then expt_buffers s \<and> (\<forall>m. dma_bal m (etr s) = expt_maps s m)
        \<and> (pkt_rx_avail s \<noteq> 0 \<longrightarrow> rx_pkt_size s \<le> PKT_SIZE)
      else held (etr s) = Some h \<and> clean_trace (etr s))
    \<and> (\<forall>ev. pci_enabled drv_set (\<lambda>_. True) (expt_enabled E) ev s
         \<longrightarrow> pci_step (expt_probe E) (expt_remove E) (expt_work E) ev s \<noteq> None)"
proof -
  have inv: "expt_idle E h s \<or> expt_bound E h s"
    using ex.life.reach_inv [OF assms(3), where h = h] assms(1,2) by blast
  have no_fault: "\<forall>ev. pci_enabled drv_set (\<lambda>_. True) (expt_enabled E) ev s
      \<longrightarrow> pci_step (expt_probe E) (expt_remove E) (expt_work E) ev s \<noteq> None"
    using ex.life.reach_no_fault [OF assms(3), where h = h] assms(1,2) by blast
  have "dma_bal m (etr s) = expt_maps s m" if "expt_bound E h s" for m
    using that unfolding expt_bound_def expt_armed_def buffers_view_def prod.inject fun_eq_iff by blast
  then have "if drv_set s then expt_buffers s \<and> (\<forall>m. dma_bal m (etr s) = expt_maps s m)
        \<and> (pkt_rx_avail s \<noteq> 0 \<longrightarrow> rx_pkt_size s \<le> PKT_SIZE)
      else held (etr s) = Some h \<and> clean_trace (etr s)"
    using inv by (metis (no_types, lifting) expt_armed_def expt_bound_def expt_idle_def)
  with no_fault show ?thesis by blast
qed

definition efail0 :: dev_priv where
  "efail0 = edev0\<lparr>etr := [Put PciDevice, Denied Regions (- 16), Got PciDevice]\<rparr>"

lemma refusing_expt: "expt_env_ok (refusing r)" "r \<noteq> PktTx \<Longrightarrow> r \<noteq> PktRx \<Longrightarrow> pkts_granted (refusing r)"
  by (simp_all add: expt_env_ok_def pkts_granted_def chrdev_codes_ok_def refusing_def env0_def PKT_SIZE_def)

lemma efail0: "expt_probe (refusing Regions) edev0 = Some (- 16, efail0)"
  by (simp add: expt_probe_def acquire_def release_def put_res_def efail0_def edev0_def refusing_def env0_def)

theorem expt_life_cycle_witness:
  "held (etr efail0) = Some [] \<and> clean_trace (etr efail0)
    \<and> pci_step (expt_probe (refusing Regions)) (expt_remove (refusing Regions)) (expt_work (refusing Regions)) Probe efail0
      \<noteq> None"
proof -
  let ?E = "refusing Regions"
  have "expt_idle ?E [] edev0" "pkts_granted ?E" by (simp_all add: edev0_idle refusing_expt)
  moreover have "reach (pci_enabled drv_set (\<lambda>_. True) (expt_enabled ?E))
      (pci_step (expt_probe ?E) (expt_remove ?E) (expt_work ?E)) edev0 efail0"
    by (rule reach_step [OF reach_start, where e = Probe]) (simp_all add: efail0, simp add: edev0_def)
  moreover have nd: "\<not> drv_set efail0" "pci_enabled drv_set (\<lambda>_. True) (expt_enabled ?E) Probe efail0"
    by (simp_all add: efail0_def edev0_def)
  ultimately show ?thesis using expt_life_cycle [of ?E "[]" edev0 efail0] by (metis (no_types, lifting))
qed

text \<open>
  C25. \<^verbatim>\<open>expt_probe\<close> is all or nothing whenever it returns: on success the buffers, the interrupt and the
  character device are held on top of the PCI resources and the driver data is set; on an error, whichever
  request was refused, everything is given back in the reverse order of acquisition, no DMA mapping
  remains and the driver data is cleared. The only requests whose refusal can keep it from
  returning, in a fault, are those for the two packet buffers (C26).
\<close>

theorem expt_probe_all_or_nothing:
  assumes "expt_idle E h s"
  shows "case expt_probe E s of
      None \<Rightarrow> \<exists>u. grant E (u @ etr s) PktTx \<noteq> 0 \<or> grant E (u @ etr s) PktRx \<noteq> 0
    | Some (r, s') \<Rightarrow>
        if r = 0 then drv_set s' \<and> expt_buffers s'
          \<and> (\<exists>msi. held (etr s') = Some (chr_res @ Irq # dma_res @ pci_res msi h))
        else \<not> drv_set s' \<and> held (etr s') = Some h \<and> clean_trace (etr s')"
  using expt_probe_spec [OF assms]
  by (auto simp: pkt_refused_def expt_bound_def expt_armed_def expt_idle_def split: option.splits if_splits)

theorem expt_probe_all_or_nothing_witness:
  "\<exists>r s'. expt_probe (refusing Class) edev0 = Some (r, s') \<and>
    (if r = 0 then drv_set s' \<and> expt_buffers s'
       \<and> (\<exists>msi. held (etr s') = Some (chr_res @ Irq # dma_res @ pci_res msi []))
     else \<not> drv_set s' \<and> held (etr s') = Some [] \<and> clean_trace (etr s'))"
proof -
  have "grant (refusing Class) t PktTx = 0" "grant (refusing Class) t PktRx = 0" for t
    by (simp_all add: refusing_def env0_def)
  with expt_probe_all_or_nothing [OF edev0_idle, OF refusing_expt(1), of Class] show ?thesis
    by (cases "expt_probe (refusing Class) edev0") (auto split: if_splits)
qed

text \<open>
  C26. \<^verbatim>\<open>setup_buffers\<close> does not survive a refused packet buffer: it frees the descriptors and then
  goes on to write them, so the call never returns.
\<close>

theorem setup_buffers_oom_faults:
  assumes "grant E (etr s) TxRing = 0" "grant E (Got TxRing # etr s) RxRing = 0"
    and "(\<forall>t. grant E t PktTx \<noteq> 0) \<or> (\<forall>t. grant E t PktRx \<noteq> 0)"
  shows "setup_buffers E s = None"
proof -
  have "setup_packets E u = None" for u using assms(3) setup_packets_refused [of E u] by blast
  with assms(1,2) show ?thesis
    by (simp add: setup_buffers_def pci_alloc_consistent_def acquire_def Let_def split: prod.splits)
qed

theorem setup_buffers_oom_faults_witness: "setup_buffers (refusing PktRx) edev0 = None"
  by (rule setup_buffers_oom_faults) (simp_all add: refusing_def env0_def)

text \<open>
  Removal does not wait for programs that have the device file open. Afterwards the buffers are gone
  while the counters are as before: a write with the transmitter free faults, and so does a read of
  a frame that had arrived.
\<close>

lemma files_outlive_removal:
  assumes "expt_remove E s = Some s'"
  shows "pkt_tx_busy s = 0 \<Longrightarrow> expt_write E' data s' = None"
    and "pkt_rx_avail s \<noteq> 0 \<Longrightarrow> off < rx_pkt_size s \<Longrightarrow> expt_read E' len off s' = None"
proof -
  have "pkt_tx s' = None" "pkt_rx s' = None" "pkt_tx_busy s' = pkt_tx_busy s" "pkt_rx_avail s' = pkt_rx_avail s"
    "rx_pkt_size s' = rx_pkt_size s"
    using assms by (auto simp: expt_remove_def char_deregister_dev_def cleanup_buffers_def expt_unwind_def put_res_def
        Let_def split: if_splits)
  then show "pkt_tx_busy s = 0 \<Longrightarrow> expt_write E' data s' = None"
    "pkt_rx_avail s \<noteq> 0 \<Longrightarrow> off < rx_pkt_size s \<Longrightarrow> expt_read E' len off s' = None"
    by (simp_all add: expt_write_def expt_read_def Let_def)
qed

section \<open>Reading\<close>

text \<open>
  A program that reads the device file with the given buffer sizes until it sees the end of the
  packet or an error, as \<^verbatim>\<open>cat\<close> does.
\<close>

primrec read_all :: "env \<Rightarrow> nat list \<Rightarrow> nat \<Rightarrow> dev_priv \<Rightarrow> (u8 list \<times> dev_priv) option" where
  "read_all E [] off s = Some ([], s)"
| "read_all E (len # lens) off s = do {
     (r, bytes, off, s) \<leftarrow> expt_read E len off s;
     if r \<le> 0 then Some ([], s)
     else do { (rest, s) \<leftarrow> read_all E lens off s; Some (bytes @ rest, s) }
   }"

lemma read_all_from:
  assumes s: "pkt_rx_avail s \<noteq> 0" "pkt_rx s = Some buf" "rx_pkt_size s \<le> length buf" "desc_rx s = Some d"
    and ok: "\<And>t n. n \<le> user_copied E t n" and lens: "\<forall>n \<in> set lens. 0 < n"
    and enough: "rx_pkt_size s - off < length lens"
  shows "read_all E lens off s = Some (take (rx_pkt_size s - off) (drop off buf),
    s\<lparr>pkt_rx_avail := 0, desc_rx := Some (d\<lparr>opts1 := opts1 d OR dbit DescOwn OR of_nat PKT_SIZE\<rparr>),
      etr := hw_enable_intr E (eintr INTR_RX_DESC_UNAVAIL) (etr s)\<rparr>)"
  using lens enough
proof (induction lens arbitrary: off)
  case Nil
  then show ?case by simp
next
  case (Cons len lens)
  show ?case
  proof (cases "rx_pkt_size s \<le> off")
    case True
    then show ?thesis using expt_read_rearm [OF s(1) True s(4)] by simp
  next
    case False
    define n where "n = min len (rx_pkt_size s - off)"
    have n: "0 < n" "n \<le> rx_pkt_size s - off" using Cons.prems(1) False by (simp_all add: n_def)
    have "expt_read E len off s = Some (int n, take n (drop off buf), off + n, s)"
      using expt_read_chunk [OF s(1) _ s(2,3) n_def refl] False ok [of n] by (simp add: not_less [symmetric])
    moreover have "read_all E lens (off + n) s = Some (take (rx_pkt_size s - (off + n)) (drop (off + n) buf),
        s\<lparr>pkt_rx_avail := 0, desc_rx := Some (d\<lparr>opts1 := opts1 d OR dbit DescOwn OR of_nat PKT_SIZE\<rparr>),
          etr := hw_enable_intr E (eintr INTR_RX_DESC_UNAVAIL) (etr s)\<rparr>)"
      using Cons.prems n by (intro Cons.IH) auto
    moreover have "take n (drop off buf) @ take (rx_pkt_size s - (off + n)) (drop (off + n) buf)
        = take (rx_pkt_size s - off) (drop off buf)"
    proof -
      have "rx_pkt_size s - off = n + (rx_pkt_size s - (off + n))" using n(2) by simp
      then show ?thesis by (simp only: take_add drop_drop add.commute)
    qed
    ultimately show ?thesis using n(1) by simp
  qed
qed

lemma frame_size_or:
  assumes "unat n < 2 ^ 14"
  shows "frame_size (d\<lparr>opts1 := opts1 d OR dbit DescOwn OR n\<rparr>) = (frame_size d OR unat n)"
proof -
  have m: "x AND (push_bit 14 1 - 1) = take_bit 14 x" for x :: u32
    by (simp add: take_bit_eq_mask mask_eq_decr_exp)
  have "take_bit 14 (dbit DescOwn) = 0" by (intro bit_word_eqI) (simp add: bit_take_bit_iff)
  moreover have "take_bit 14 (unat n) = unat n" using assms by (simp add: take_bit_nat_eq_self)
  ultimately show ?thesis
    unfolding frame_size_def m by (simp add: unsigned_or_eq unsigned_take_bit_eq)
qed

lemma frame_size_rearm:
  assumes "frame_size d < PKT_SIZE"
  shows "frame_size (d\<lparr>opts1 := opts1 d OR dbit DescOwn OR of_nat PKT_SIZE\<rparr>) = PKT_SIZE + frame_size d"
proof -
  have p: "unat (of_nat PKT_SIZE :: u32) = 2 ^ 8" by (simp add: PKT_SIZE_def)
  have "\<not> bit (frame_size d) 8" using assms by (simp add: bit_iff_odd PKT_SIZE_def)
  then have "frame_size d AND 2 ^ 8 = 0"
    by (intro bit_eqI) (auto simp only: bit_and_iff bit_exp_iff bit_0_eq)
  then have "frame_size d OR 2 ^ 8 = frame_size d + 2 ^ 8" by (rule disjunctive_add_eq_or [symmetric])
  then show ?thesis using frame_size_or [of "of_nat PKT_SIZE" d] by (simp add: p PKT_SIZE_def)
qed

lemma erx0_frame: "frame_size (zero_desc\<lparr>opts1 := dbit RingEnd OR 4\<rparr>) = 4"
proof -
  have "dbit RingEnd AND 16383 = 0" by (intro bit_word_eqI) (simp add: bit_simps)
  then show ?thesis by (simp add: frame_size_def bit.conj_disj_distrib2)
qed

text \<open>
  C27. Whatever the sizes of its read buffers, a program that reads from the start of the file gets
  exactly the received frame, byte for byte; at the end of the packet the driver gives the
  descriptor back to the device and unmasks the receive interrupt, and a further read finds nothing.
  But the descriptor announces too much: after a frame shorter than the 256-byte buffer its length
  field is 256 plus the length of that frame, and the device may write that many bytes.
\<close>

theorem read_returns_frame:
  assumes "pkt_rx_avail s \<noteq> 0" "pkt_rx s = Some (frame @ rest)" "rx_pkt_size s = length frame" "desc_rx s = Some d"
    and "\<And>t n. n \<le> user_copied E t n" "\<forall>n \<in> set lens. 0 < n" "length frame < length lens"
  shows "\<exists>s' d'. read_all E lens 0 s = Some (frame, s') \<and> desc_rx s' = Some d' \<and> nic_owned d'
    \<and> (frame_size d = length frame \<and> length frame < PKT_SIZE \<longrightarrow> frame_size d' = PKT_SIZE + length frame)
    \<and> (\<forall>len off. expt_read E len off s' = Some (- EAGAIN, [], off, s'))"
proof -
  let ?d = "d\<lparr>opts1 := opts1 d OR dbit DescOwn OR of_nat PKT_SIZE\<rparr>"
  let ?s = "s\<lparr>pkt_rx_avail := 0, desc_rx := Some ?d,
      etr := hw_enable_intr E (eintr INTR_RX_DESC_UNAVAIL) (etr s)\<rparr>"
  have "read_all E lens 0 s = Some (frame, ?s)"
    using read_all_from [OF assms(1,2) _ assms(4,5,6), of 0] assms(3,7) by simp
  moreover have "nic_owned ?d" by (simp add: nic_owned_bit bit_simps)
  moreover have "frame_size ?d = PKT_SIZE + length frame" if "frame_size d = length frame \<and> length frame < PKT_SIZE"
    using frame_size_rearm [of d] that by simp
  moreover have "expt_read E len off ?s = Some (- EAGAIN, [], off, ?s)" for len off
    by (simp add: expt_read_def)
  moreover have "desc_rx ?s = Some ?d" by simp
  ultimately show ?thesis by blast
qed

theorem read_returns_frame_witness:
  "\<exists>s' d'. read_all env0 [3, 3, 3, 3, 3] 0 erx0 = Some ([1, 2, 3, 4], s') \<and> desc_rx s' = Some d'
    \<and> nic_owned d' \<and> frame_size d' = 260
    \<and> (\<forall>len off. expt_read env0 len off s' = Some (- EAGAIN, [], off, s'))"
proof -
  have "desc_rx erx0 = Some (zero_desc\<lparr>opts1 := dbit RingEnd OR 4\<rparr>)" by (simp add: erx0_def)
  from read_returns_frame [of erx0 "[1, 2, 3, 4]" _ _ env0 "[3, 3, 3, 3, 3]", OF _ _ _ this] show ?thesis
    using erx0_frame by (simp add: erx0_def env0_def PKT_SIZE_def)
qed

section \<open>Writing\<close>

text \<open>
  C28. Writing with the transmitter free puts the data, cut to 256 bytes, at the start of the buffer,
  hands the descriptor to the device, rings its doorbell, marks the transmitter busy and returns the
  full length; with the transmitter busy nothing changes and the write is refused. When the data
  cannot be read from the user, nothing is sent but the transmitter stays marked busy: it is jammed,
  and every later write is refused.
\<close>

theorem write_sends_or_refuses:
  assumes "pkt_tx s = Some buf" "length buf = PKT_SIZE" "desc_tx s = Some d"
  shows "if pkt_tx_busy s \<noteq> 0 then expt_write E data s = Some (- EBUSY, s)
    else if user_copied E (etr s) (min (length data) PKT_SIZE) < min (length data) PKT_SIZE
    then \<exists>s'. expt_write E data s = Some (- EFAULT, s') \<and> etr s' = etr s \<and> desc_tx s' = desc_tx s
      \<and> (\<forall>E' more. expt_write E' more s' = Some (- EBUSY, s'))
    else \<exists>s' sent d'. expt_write E data s = Some (int (length data), s') \<and> pkt_tx_busy s' = 1
      \<and> pkt_tx s' = Some sent \<and> length sent = PKT_SIZE \<and> take (length data) sent = take PKT_SIZE data
      \<and> desc_tx s' = Some d' \<and> nic_owned d' \<and> etr s' = W8 (ereg TX_POLL_REG) NPQ_BIT # etr s"
proof (cases "pkt_tx_busy s = 0")
  case True
  note run = expt_write_free [OF True assms(1,3) refl refl, of E data]
  have "take (length data) (take PKT_SIZE data @ drop (min (length data) PKT_SIZE) buf) = take PKT_SIZE data"
    using assms(2) by (cases "length data \<le> PKT_SIZE") simp_all
  moreover have "length (take PKT_SIZE data @ drop (min (length data) PKT_SIZE) buf) = PKT_SIZE"
    using assms(2) by (simp add: min_def)
  ultimately show ?thesis
    using True run by (simp add: tx_sent_state_def nic_owned_bit bit_simps expt_write_busy)
next
  case False
  then show ?thesis by (simp add: expt_write_busy)
qed

theorem write_sends_or_refuses_witness:
  "(\<exists>s' sent d'. expt_write env0 [5, 6] erx0 = Some (2, s') \<and> pkt_tx_busy s' = 1
      \<and> pkt_tx s' = Some sent \<and> length sent = PKT_SIZE \<and> take 2 sent = [5, 6]
      \<and> desc_tx s' = Some d' \<and> nic_owned d' \<and> etr s' = W8 (ereg TX_POLL_REG) NPQ_BIT # etr erx0)
    \<and> (\<exists>s'. expt_write (env0\<lparr>user_copied := \<lambda>_ _. 1\<rparr>) [5, 6] erx0 = Some (- EFAULT, s') \<and> etr s' = etr erx0
      \<and> desc_tx s' = desc_tx erx0 \<and> (\<forall>E' more. expt_write E' more s' = Some (- EBUSY, s')))"
proof -
  have e: "pkt_tx erx0 = Some (replicate 256 0)" "length (replicate 256 0 :: u8 list) = PKT_SIZE"
    "desc_tx erx0 = Some (zero_desc\<lparr>opts1 := dbit RingEnd OR dbit FirstFrag OR dbit LastFrag\<rparr>)"
    "pkt_tx_busy erx0 = 0" "\<And>t n. user_copied env0 t n = n"
    by (simp_all add: erx0_def edev0_def env0_def PKT_SIZE_def)
  note W = write_sends_or_refuses [OF e(1-3), where data = "[5, 6]"]
  from W [of env0] W [of "env0\<lparr>user_copied := \<lambda>_ _. 1\<rparr>"] e(4,5) show ?thesis
    by (simp add: PKT_SIZE_def numeral_2_eq_2)
qed

section \<open>Length fields\<close>

text \<open>
  The transmit length accumulates: the driver adds the new length to the length field of the
  descriptor bit by bit and never clears it, and the device clears only the ownership bit. After a
  packet of \<open>n\<close> bytes has been sent, a packet of \<open>m\<close> bytes is sent with length \<open>n OR m\<close>.
\<close>

lemma tx_length_accumulates:
  assumes "pkt_tx_busy s = 0" "pkt_tx s = Some buf" "desc_tx s = Some d" "frame_size d = 0"
    and "\<And>t n. n \<le> user_copied E t n"
    and "length first \<le> PKT_SIZE" "length second \<le> PKT_SIZE"
  shows "\<exists>s1 s2 s3 d'. expt_write E first s = Some (int (length first), s1) \<and> dev_tx s1 = Some s2
    \<and> expt_write E second (s2\<lparr>pkt_tx_busy := 0\<rparr>) = Some (int (length second), s3)
    \<and> desc_tx s3 = Some d' \<and> frame_size d' = (length first OR length second)"
proof -
  have len: "unat (of_nat (length xs) :: u32) = length xs" "length xs < 2 ^ 14" if "length xs \<le> PKT_SIZE" for xs :: "u8 list"
    using that by (simp_all add: PKT_SIZE_def unat_of_nat)
  have sent: "expt_write E xs u = Some (int (length xs), tx_sent_state xs b c u)
      \<and> frame_size (c\<lparr>opts1 := opts1 c OR dbit DescOwn OR of_nat (min (length xs) PKT_SIZE)\<rparr>) = (frame_size c OR length xs)"
    if "pkt_tx_busy u = 0" "pkt_tx u = Some b" "desc_tx u = Some c" "length xs \<le> PKT_SIZE" for xs u b c
    using expt_write_free [OF that(1-3) refl refl, of E xs] assms(5) [of "length xs" "etr u"] that(4)
      frame_size_or [of "of_nat (length xs)" c] len [OF that(4)] by (simp add: min_absorb1)
  note s1 = sent [OF assms(1-3,6)]
  define c where "c = d\<lparr>opts1 := (opts1 d OR dbit DescOwn OR of_nat (min (length first) PKT_SIZE)) AND NOT (dbit DescOwn)\<rparr>"
  let ?u = "(tx_sent_state first buf d s)\<lparr>desc_tx := Some c, pkt_tx_busy := 0\<rparr>"
  have "frame_size c = frame_size (d\<lparr>opts1 := opts1 d OR dbit DescOwn OR of_nat (min (length first) PKT_SIZE)\<rparr>)"
    unfolding frame_size_def c_def
    by (intro arg_cong [where f = unat] bit_word_eqI) (auto simp: bit_simps)
  with s1 assms(4) have c: "frame_size c = length first" by simp
  have "pkt_tx_busy ?u = 0" "pkt_tx ?u = Some (take PKT_SIZE first @ drop (min (length first) PKT_SIZE) buf)"
    "desc_tx ?u = Some c" by (simp_all add: tx_sent_state_def)
  note s3 = sent [OF this assms(7)]
  have "dev_tx (tx_sent_state first buf d s) = Some ((tx_sent_state first buf d s)\<lparr>desc_tx := Some c\<rparr>)"
    by (simp add: dev_tx_def tx_sent_state_def c_def)
  with s1 s3 c show ?thesis by (auto simp: tx_sent_state_def)
qed

section \<open>Waiting for the reset\<close>

text \<open>How often a byte register has been read.\<close>

fun count_r8 :: "nat \<Rightarrow> trace \<Rightarrow> nat" where
  "count_r8 r [] = 0"
| "count_r8 r (R8 q v # t) = (if q = r then 1 else 0) + count_r8 r t"
| "count_r8 r (_ # t) = count_r8 r t"

lemma count_r8_phy: "count_r8 r (expt_phy_reg_write E a v t) = count_r8 r t"
proof -
  have dn: "count_r8 r (snd (expt_phy_done E f u)) = count_r8 r u" for f u
    by (simp add: expt_phy_done_def REG_defs Let_def)
  show ?thesis
    using poll_loop_same [of "count_r8 r" "expt_phy_done E False", OF dn]
    by (simp add: expt_phy_reg_write_def REG_defs Let_def)
qed

lemma reset_poll_spins:
  assumes "\<And>t. ioread8 E t (ereg CHIP_CMD_REG) AND CMD_RESET \<noteq> 0"
  shows "count_r8 (ereg CHIP_CMD_REG) (poll_loop n (expt_reset_done E) t) = count_r8 (ereg CHIP_CMD_REG) t + n"
  using assms by (induction n arbitrary: t) (simp_all add: expt_reset_done_def REG_defs Let_def)

text \<open>
  C32. The wait of \<^verbatim>\<open>hw_shut\<close> is not bounded by a hundred polls: its counter runs downwards, and passes the bound only when the
  32-bit integer wraps around. When the
  reset bit has cleared at the first look it reads the command register once; when the bit stays
  set it reads the register two thousand million times, 100 microseconds apart, before it gives up.
\<close>

theorem hw_shut_spins:
  assumes "\<And>t. ioread8 E t (ereg CHIP_CMD_REG) AND CMD_RESET = (if stuck then CMD_RESET else 0)"
  shows "count_r8 (ereg CHIP_CMD_REG) (hw_shut E t)
    = count_r8 (ereg CHIP_CMD_REG) t + (if stuck then 2 ^ 31 + 1 else 1)"
proof -
  let ?u = "REG_W8 CMD_RESET (ereg CHIP_CMD_REG) (hw_disable_intr E (INTR_MASK OR INTR_ERR_MASK) t)"
  have u: "count_r8 (ereg CHIP_CMD_REG) ?u = count_r8 (ereg CHIP_CMD_REG) t"
    by (simp add: hw_disable_intr_def REG_defs Let_def)
  have run: "count_r8 r (hw_shut E t) = count_r8 r (poll_loop (nat 2147483649) (expt_reset_done E) ?u)" for r
  proof -
    have "down_loop 0 test u = poll_loop (nat 2147483649) test u" for test and u :: trace
      using down_loop_poll [of 0 test u] by (simp only: sint_0 add_0 if_True zero_less_numeral)
    then show ?thesis by (simp only: hw_shut_def phy_shut_def count_r8_phy Let_def)
  qed
  show ?thesis
  proof (cases stuck)
    case True
    with assms have "\<And>t. ioread8 E t (ereg CHIP_CMD_REG) AND CMD_RESET \<noteq> 0" by (simp add: CMD_RESET_def)
    from reset_poll_spins [OF this, of "nat 2147483649" ?u] True u run show ?thesis by simp
  next
    case False
    obtain k where k: "nat 2147483649 = Suc k" by (metis not0_implies_Suc zero_less_nat_eq less_irrefl zero_less_numeral)
    have "poll_loop (nat 2147483649) (expt_reset_done E) ?u
        = R8 (ereg CHIP_CMD_REG) (ioread8 E ?u (ereg CHIP_CMD_REG)) # ?u"
      unfolding k using False assms by (simp add: expt_reset_done_def REG_defs Let_def)
    then show ?thesis using False u run by (simp only: count_r8.simps if_False) simp
  qed
qed

theorem hw_shut_spins_witness:
  "count_r8 (ereg CHIP_CMD_REG) (hw_shut (env0\<lparr>ioread8 := \<lambda>_ _. 0x10\<rparr>) []) = 2147483649"
  using hw_shut_spins [of "env0\<lparr>ioread8 := \<lambda>_ _. 0x10\<rparr>" True "[]"] by (simp add: CMD_RESET_def)

section \<open>Interrupts\<close>

text \<open>The bits acknowledged by writes to the status register.\<close>

fun acks :: "trace \<Rightarrow> u16" where
  "acks [] = 0"
| "acks (W16 r v # t) = (if r = ereg INTR_STATUS_REG then v OR acks t else acks t)"
| "acks (_ # t) = acks t"

lemma eintr_seen: "st AND eintr b \<noteq> 0 \<Longrightarrow> st AND eintr b = eintr b"
proof -
  assume st: "st AND eintr b \<noteq> 0"
  have "\<exists>k. eintr b = push_bit k 1" by (cases b; simp only: eintr.simps; blast)
  then obtain k where k: "eintr b = push_bit k 1" ..
  from st have "bit st k" unfolding k by (simp only: and_single_bit not_not)
  then show ?thesis unfolding k by (intro bit_word_eqI) (auto simp only: bit_and_iff bit_single_bit)
qed

lemma acks_steps:
  "acks (etr (intr_link E st s)) = (st AND eintr INTR_LINK_CHG_BIT) OR acks (etr s)"
  "acks (etr (intr_tx st s)) = (st AND eintr INTR_TX_OK_BIT) OR acks (etr s)"
  "acks (etr (intr_err E st s)) = (if st AND INTR_ERR_MASK = 0 then 0 else INTR_ERR_MASK) OR acks (etr s)"
proof -
  show "acks (etr (intr_link E st s)) = (st AND eintr INTR_LINK_CHG_BIT) OR acks (etr s)"
    "acks (etr (intr_tx st s)) = (st AND eintr INTR_TX_OK_BIT) OR acks (etr s)"
    using eintr_seen [of st INTR_LINK_CHG_BIT] eintr_seen [of st INTR_TX_OK_BIT]
    by (auto simp: intr_link_def intr_tx_def REG_defs Let_def simp del: eintr.simps)
  show "acks (etr (intr_err E st s)) = (if st AND INTR_ERR_MASK = 0 then 0 else INTR_ERR_MASK) OR acks (etr s)"
    by (simp add: intr_err_def hw_disable_intr_def REG_defs Let_def)
qed

lemma acks_rx:
  assumes "intr_rx st s = Some s'"
  shows "acks (etr s') = (st AND eintr INTR_RX_OK_BIT) OR acks (etr s)"
  using assms eintr_seen [of st INTR_RX_OK_BIT]
  by (auto simp: intr_rx_def REG_defs Let_def simp del: eintr.simps split: if_splits bind_splits)

text \<open>
  C33. The interrupt handler refuses an interrupt in which no bit it knows is set, and changes nothing.
  Otherwise it acknowledges exactly the link, transmit and receive bits it saw, and all error bits
  when it saw one of them; it takes one packet off the transmitter for a transmit interrupt, and
  offers the received length to the readers for a receive interrupt.
\<close>

theorem intr_handler_acknowledges:
  assumes "desc_rx s = Some d" "st = ioread16 E (etr s) (ereg INTR_STATUS_REG)"
  shows "if st AND (INTR_MASK OR INTR_ERR_MASK) = 0
    then expt_pci_intr_handler E s = Some (False, s\<lparr>etr := R16 (ereg INTR_STATUS_REG) st # etr s\<rparr>)
    else \<exists>s'. expt_pci_intr_handler E s = Some (True, s')
      \<and> acks (etr s') = (st AND INTR_MASK) OR (if st AND INTR_ERR_MASK = 0 then 0 else INTR_ERR_MASK) OR acks (etr s)
      \<and> pkt_tx_busy s' = pkt_tx_busy s - (if st AND eintr INTR_TX_OK_BIT = 0 then 0 else 1)
      \<and> pkt_rx_avail s' = pkt_rx_avail s + (if st AND eintr INTR_RX_OK_BIT = 0 then 0 else 1)
      \<and> rx_pkt_size s' = (if st AND eintr INTR_RX_OK_BIT = 0 then rx_pkt_size s else frame_size d)"
proof (cases "st AND (INTR_MASK OR INTR_ERR_MASK) = 0")
  case True
  then show ?thesis using assms(2) by (simp add: expt_pci_intr_handler_def REG_R16_def Let_def)
next
  case False
  let ?s = "s\<lparr>etr := R16 (ereg INTR_STATUS_REG) st # etr s\<rparr>"
  let ?u = "intr_tx st (intr_link E st ?s)"
  have u: "desc_rx ?u = Some d" "rx_pkt_size ?u = rx_pkt_size s" "pkt_rx_avail ?u = pkt_rx_avail s"
    "pkt_tx_busy ?u = pkt_tx_busy s - (if st AND eintr INTR_TX_OK_BIT = 0 then 0 else 1)"
    using assms(1) by (simp_all add: intr_tx_def intr_link_def REG_defs Let_def)
  then obtain v where v: "intr_rx st ?u = Some v" "pkt_tx_busy v = pkt_tx_busy ?u"
    "pkt_rx_avail v = pkt_rx_avail ?u + (if st AND eintr INTR_RX_OK_BIT = 0 then 0 else 1)"
    "rx_pkt_size v = (if st AND eintr INTR_RX_OK_BIT = 0 then rx_pkt_size ?u else frame_size d)"
    by (cases "st AND eintr INTR_RX_OK_BIT = 0") (simp_all add: intr_rx_def frame_size_def Let_def)
  have "acks (etr (intr_err E st v)) = (st AND INTR_MASK) OR (if st AND INTR_ERR_MASK = 0 then 0 else INTR_ERR_MASK) OR acks (etr s)"
    by (simp add: acks_steps acks_rx [OF v(1)] INTR_MASK_def bit.conj_disj_distrib or.assoc or.left_commute
        del: eintr.simps)
  moreover have "expt_pci_intr_handler E s = Some (True, intr_err E st v)"
    using False v(1) assms(2) by (simp add: expt_pci_intr_handler_def REG_R16_def Let_def)
  moreover have "pkt_tx_busy (intr_err E st v) = pkt_tx_busy v" "pkt_rx_avail (intr_err E st v) = pkt_rx_avail v"
    "rx_pkt_size (intr_err E st v) = rx_pkt_size v"
    by (simp_all add: intr_err_def Let_def)
  ultimately show ?thesis using False u v by simp
qed

theorem intr_handler_acknowledges_witness:
  "\<exists>s'. expt_pci_intr_handler (env0\<lparr>ioread16 := \<lambda>_ _. 5\<rparr>) erx0 = Some (True, s')
      \<and> acks (etr s') = 5 \<and> pkt_tx_busy s' = - 1 \<and> pkt_rx_avail s' = 2 \<and> rx_pkt_size s' = 4"
proof -
  have "desc_rx erx0 = Some (zero_desc\<lparr>opts1 := dbit RingEnd OR 4\<rparr>)" by (simp add: erx0_def)
  from intr_handler_acknowledges [OF this refl, of "env0\<lparr>ioread16 := \<lambda>_ _. 5\<rparr>"] erx0_frame show ?thesis
    by (simp add: erx0_def edev0_def INTR_MASK_def INTR_ERR_MASK_def)
qed

end
