(* ===== verification/Pci_Assn.thy ===== *)
theory Pci_Assn
  imports Char_Dev Net_Types
begin

text \<open>
  The PCI driver exercises \<^verbatim>\<open>PCIDriverAssn/expt_drv_init_char.c\<close>, \<^verbatim>\<open>expt_drv_intr.c\<close> and \<^verbatim>\<open>expt_drv_dma.c\<close>, as
  they stand in the repository: a statement that is only described by a TODO comment is not there,
  and the constants that a TODO comment asks for are zero. Names start with \<open>ac_\<close>, \<open>ai_\<close> and \<open>ad_\<close>.
  A local variable that is read without having been set is a parameter of the definition.
\<close>

section \<open>State\<close>

text \<open>
  The trace of the device and whether its driver data is set. The DMA exercise has the fields of
  its \<^verbatim>\<open>struct dev_priv\<close> in addition; a pointer that is NULL is \<open>None\<close>, a descriptor is an empty structure.
\<close>

record as_dev =
  atr :: trace
  as_drvdata :: bool

record ad_dev = as_dev +
  ad_desc_tx :: "unit option"
  ad_desc_rx :: "unit option"
  ad_phy_desc_rx :: u64
  ad_pkt_tx :: "u8 list option"
  ad_phy_pkt_tx :: u64
  ad_pkt_rx :: "u8 list option"
  ad_pkt_tx_busy :: u32

definition as_put :: "res \<Rightarrow> 'a as_dev_scheme \<Rightarrow> 'a as_dev_scheme" where
  "as_put r s = s\<lparr>atr := release r (atr s)\<rparr>"

text \<open>
  The beginning that the probe functions share: enable the device, request its regions, map the
  registers, each with its error path; \<open>master\<close> says whether \<^verbatim>\<open>pci_set_master\<close> is called. The rest is
  entered with \<^verbatim>\<open>retval\<close> as \<^verbatim>\<open>pci_request_regions\<close> left it.
\<close>

definition as_map_device :: "bool \<Rightarrow> env \<Rightarrow> (int \<Rightarrow> 'a as_dev_scheme \<Rightarrow> int \<times> 'a as_dev_scheme)
    \<Rightarrow> 'a as_dev_scheme \<Rightarrow> int \<times> 'a as_dev_scheme" where
  "as_map_device master E rest s =
     (let (retval, t) = acquire E PciDevice (atr s); s = s\<lparr>atr := t\<rparr>
      in if retval \<noteq> 0 then (retval, s)
         else
           let (retval, t) = acquire E Regions (atr s); s = s\<lparr>atr := t\<rparr>
           in if retval \<noteq> 0 then (retval, as_put PciDevice s)
              else
                let s = (if master then s\<lparr>atr := SetMaster # atr s\<rparr> else s);
                    (null, t) = acquire E RegMap (atr s); s = s\<lparr>atr := t\<rparr>
                in if null \<noteq> 0 then (- ENODEV, as_put PciDevice (as_put Regions s))
                   else rest retval s)"

text \<open>The end that the remove functions share.\<close>

definition as_unmap_device :: "'a as_dev_scheme \<Rightarrow> 'a as_dev_scheme" where
  "as_unmap_device s = as_put PciDevice (as_put Regions (as_put RegMap s))"

text \<open>The loop that prints the station address.\<close>

definition print_mac :: "env \<Rightarrow> trace \<Rightarrow> trace" where
  "print_mac E t = foldl (\<lambda>t i. snd (REG_R8 E (0 + i) t)) t [0..<6]"

section \<open>The character device exercise: expt\_drv\_init\_char.c\<close>

definition ac_open :: "as_dev \<Rightarrow> int \<times> as_dev" where "ac_open s = (0, s)"

definition ac_close :: "as_dev \<Rightarrow> int \<times> as_dev" where "ac_close s = (0, s)"

definition ac_read :: "nat \<Rightarrow> nat \<Rightarrow> int \<times> nat" where
  "ac_read len off = (if off \<ge> 6 then (0, off) else (int (min len (6 - off)), off))"

definition ac_char_register_dev :: "env \<Rightarrow> as_dev \<Rightarrow> int \<times> as_dev" where
  "ac_char_register_dev E s = (let (ret, t) = chrdev_register E (atr s) in (ret, s\<lparr>atr := t\<rparr>))"

definition ac_char_deregister_dev :: "as_dev \<Rightarrow> as_dev" where
  "ac_char_deregister_dev s = s\<lparr>atr := chrdev_unregister (atr s)\<rparr>"

definition ac_probe :: "env \<Rightarrow> as_dev \<Rightarrow> int \<times> as_dev" where
  "ac_probe E = as_map_device False E (\<lambda>retval s.
     let s = s\<lparr>as_drvdata := True\<rparr>;
         s = s\<lparr>atr := print_mac E (atr s)\<rparr>
     in if retval \<noteq> 0 then (retval, as_unmap_device (s\<lparr>as_drvdata := False\<rparr>))
        else (0, s))"

definition ac_remove :: "as_dev \<Rightarrow> as_dev option" where
  "ac_remove s = (if \<not> as_drvdata s then None else Some (as_unmap_device (s\<lparr>as_drvdata := False\<rparr>)))"

definition ac_pci_init :: "env \<Rightarrow> trace \<Rightarrow> int \<times> trace" where
  "ac_pci_init E t = acquire E PciDriver t"

definition ac_pci_exit :: "trace \<Rightarrow> trace" where
  "ac_pci_exit t = release PciDriver t"

section \<open>The interrupt exercise: expt\_drv\_intr.c\<close>

text \<open>
  The test for a foreign interrupt is \<^verbatim>\<open>if (0)\<close>, so that every interrupt is claimed; whatever
  \<^verbatim>\<open>cur_state\<close> holds is only printed.
\<close>

definition ai_intr_handler :: "as_dev \<Rightarrow> irqreturn \<times> as_dev" where
  "ai_intr_handler s = (IRQ_HANDLED, s)"

definition ai_probe :: "env \<Rightarrow> as_dev \<Rightarrow> int \<times> as_dev" where
  "ai_probe E = as_map_device False E (\<lambda>retval s.
     let s = s\<lparr>as_drvdata := True\<rparr>;
         s = s\<lparr>atr := print_mac E (atr s)\<rparr>
     in if retval \<noteq> 0 then
          let s = (if pci_dev_msi_enabled (atr s) then as_put Msi s else s)
          in (retval, as_unmap_device s)
        else (0, s))"

definition ai_remove :: "as_dev \<Rightarrow> as_dev option" where
  "ai_remove s = (if \<not> as_drvdata s then None else Some (as_unmap_device (s\<lparr>as_drvdata := False\<rparr>)))"

definition ai_pci_init :: "env \<Rightarrow> trace \<Rightarrow> int \<times> trace" where
  "ai_pci_init E t = acquire E PciDriver t"

definition ai_pci_exit :: "trace \<Rightarrow> trace" where
  "ai_pci_exit t = release PciDriver t"

section \<open>The DMA exercise: expt\_drv\_dma.c\<close>

text \<open>Register offsets and bits, as far as the code uses them; those left to the exercise are zero.\<close>

definition ad_INTR_MASK_REG :: nat where "ad_INTR_MASK_REG = 0x3C"
definition ad_INTR_STATUS_REG :: nat where "ad_INTR_STATUS_REG = 0x3E"
definition ad_PHY_STATUS_REG :: nat where "ad_PHY_STATUS_REG = 0x6C"
definition ad_INTR_LINK_CHG_BIT :: u16 where "ad_INTR_LINK_CHG_BIT = push_bit 5 1"
definition ad_CHIP_CMD_REG :: nat where "ad_CHIP_CMD_REG = 0"
definition ad_CFG9346_REG :: nat where "ad_CFG9346_REG = 0"
definition ad_RX_DESC_ADDR_LOW_REG :: nat where "ad_RX_DESC_ADDR_LOW_REG = 0"
definition ad_RX_DESC_ADDR_HIGH_REG :: nat where "ad_RX_DESC_ADDR_HIGH_REG = 0"
definition ad_INTR_RX_DESC_UNAVAIL :: u16 where "ad_INTR_RX_DESC_UNAVAIL = 0"
definition ad_INTR_MASK :: u16 where "ad_INTR_MASK = 0"
definition ad_INTR_ERR_MASK :: u16 where "ad_INTR_ERR_MASK = 0 OR ad_INTR_RX_DESC_UNAVAIL OR 0 OR 0"
definition ad_CMD_RESET :: u8 where "ad_CMD_RESET = 0"
definition ad_PKT_SIZE :: nat where "ad_PKT_SIZE = 256"

subsection \<open>File operations\<close>

definition ad_open :: "ad_dev \<Rightarrow> int \<times> ad_dev" where "ad_open s = (0, s)"

definition ad_close :: "ad_dev \<Rightarrow> int \<times> ad_dev" where "ad_close s = (0, s)"

text \<open>
  The loop of \<^verbatim>\<open>expt_read\<close> for \<open>n\<close> more octets from register \<open>a\<close> on: whether all copies succeeded, and
  the octets that reached the user.
\<close>

primrec ad_read_loop :: "env \<Rightarrow> nat \<Rightarrow> nat \<Rightarrow> trace \<Rightarrow> bool \<times> u8 list \<times> trace" where
  "ad_read_loop E 0 a t = (True, [], t)"
| "ad_read_loop E (Suc n) a t =
     (let (v, t) = REG_R8 E a t
      in if user_copied E t 1 < 1 then (False, [], t)
         else let (ok, vs, t) = ad_read_loop E n (a + 1) t in (ok, v # vs, t))"

definition ad_read :: "env \<Rightarrow> nat \<Rightarrow> nat \<Rightarrow> ad_dev \<Rightarrow> int \<times> u8 list \<times> nat \<times> ad_dev" where
  "ad_read E len off s =
     (if off \<ge> 6 then (0, [], off, s)
      else
        let to_read = min len (6 - off);
            (ok, vs, t) = ad_read_loop E to_read (0 + off) (atr s);
            s = s\<lparr>atr := t\<rparr>
        in if \<not> ok then (- EFAULT, vs, off, s) else (int to_read, vs, off + to_read, s))"

text \<open>
  The counter is tested but nothing increments it. A copy into the buffer faults when there is none.
\<close>

definition ad_write :: "env \<Rightarrow> u8 list \<Rightarrow> ad_dev \<Rightarrow> (int \<times> ad_dev) option" where
  "ad_write E data s =
     (if ad_pkt_tx_busy s \<noteq> 1 then Some (- EBUSY, s\<lparr>ad_pkt_tx_busy := ad_pkt_tx_busy s - 1\<rparr>)
      else
        let to_write = min (length data) ad_PKT_SIZE;
            k = min (user_copied E (atr s) to_write) to_write
        in if to_write = 0 then Some (int (length data), s)
           else do {
             buf \<leftarrow> ad_pkt_tx s;
             let s = s\<lparr>ad_pkt_tx := Some (take k data @ replicate (to_write - k) 0 @ drop to_write buf)\<rparr>;
             Some (if k < to_write then - EFAULT else int (length data), s)
           })"

definition ad_char_register_dev :: "env \<Rightarrow> ad_dev \<Rightarrow> int \<times> ad_dev" where
  "ad_char_register_dev E s = (let (ret, t) = chrdev_register E (atr s) in (ret, s\<lparr>atr := t\<rparr>))"

definition ad_char_deregister_dev :: "ad_dev \<Rightarrow> ad_dev" where
  "ad_char_deregister_dev s = s\<lparr>atr := chrdev_unregister (atr s)\<rparr>"

subsection \<open>Buffers and hardware\<close>

text \<open>\<^verbatim>\<open>setup_buffers\<close>, which the file does not call.\<close>

definition ad_setup_buffers :: "ad_dev \<Rightarrow> int \<times> ad_dev" where
  "ad_setup_buffers s =
     (if ad_desc_tx s = None then (- ENOMEM, s)
      else if ad_desc_rx s = None then (- ENOMEM, as_put TxRing s)
      else
        let s = (if ad_pkt_tx s = None then as_put TxRing (as_put RxRing s) else s);
            s = (if ad_pkt_rx s = None then
                   let s = s\<lparr>atr := UnmapSingle (ad_phy_pkt_tx s) (of_nat ad_PKT_SIZE) ToDevice # atr s\<rparr>;
                       s = (if ad_pkt_tx s = None then s else as_put PktTx s)
                   in as_put TxRing (as_put RxRing s)
                 else s);
            t = REG_W8 0xC0 ad_CFG9346_REG (atr s);
            t = REG_W32 (ucast (ad_phy_desc_rx s AND mask 32)) ad_RX_DESC_ADDR_LOW_REG t;
            t = REG_W32 (ucast (drop_bit 32 (ad_phy_desc_rx s))) ad_RX_DESC_ADDR_HIGH_REG t;
            t = REG_W8 0x00 ad_CFG9346_REG t
        in (0, s\<lparr>atr := t\<rparr>))"

definition ad_cleanup_buffers :: "ad_dev \<Rightarrow> ad_dev" where
  "ad_cleanup_buffers s = (if ad_pkt_tx s = None then s else as_put PktTx s)"

definition ad_hw_enable_intr :: "env \<Rightarrow> u16 \<Rightarrow> trace \<Rightarrow> trace" where
  "ad_hw_enable_intr E m t =
     (let (v, t) = REG_R16 E ad_INTR_MASK_REG t in REG_W16 (v OR m) ad_INTR_MASK_REG t)"

definition ad_hw_disable_intr :: "env \<Rightarrow> u16 \<Rightarrow> trace \<Rightarrow> trace" where
  "ad_hw_disable_intr E m t =
     (let (v, t) = REG_R16 E ad_INTR_MASK_REG t in REG_W16 (v AND NOT m) ad_INTR_MASK_REG t)"

definition ad_hw_init :: "env \<Rightarrow> trace \<Rightarrow> trace" where
  "ad_hw_init E t = ad_hw_enable_intr E (ad_INTR_MASK OR ad_INTR_ERR_MASK) t"

text \<open>The loop counts down, as in the completed driver.\<close>

definition ad_hw_shut :: "env \<Rightarrow> trace \<Rightarrow> trace" where
  "ad_hw_shut E t =
     down_loop 0 (\<lambda>t. let (v, t) = REG_R8 E ad_CHIP_CMD_REG t in (v AND ad_CMD_RESET = 0, t)) t"

text \<open>\<open>intr_status\<close> is what the variable of that name happens to hold.\<close>

definition ad_intr_handler :: "env \<Rightarrow> u16 \<Rightarrow> ad_dev \<Rightarrow> irqreturn \<times> ad_dev" where
  "ad_intr_handler E intr_status s =
     (if intr_status \<noteq> 0 then (IRQ_NONE, s)
      else
        let t = (if intr_status AND ad_INTR_LINK_CHG_BIT \<noteq> 0
                 then snd (REG_R8 E ad_PHY_STATUS_REG (REG_W16 ad_INTR_LINK_CHG_BIT ad_INTR_STATUS_REG (atr s)))
                 else atr s);
            t = (if intr_status AND ad_INTR_ERR_MASK \<noteq> 0 then
                   REG_W16 ad_INTR_ERR_MASK ad_INTR_STATUS_REG
                     (if intr_status AND ad_INTR_RX_DESC_UNAVAIL \<noteq> 0
                      then ad_hw_disable_intr E ad_INTR_RX_DESC_UNAVAIL t else t)
                 else t)
        in (IRQ_HANDLED, s\<lparr>atr := t\<rparr>))"

subsection \<open>Probe and remove\<close>

definition ad_unwind :: "ad_dev \<Rightarrow> ad_dev" where
  "ad_unwind s =
     (let s = (if pci_dev_msi_enabled (atr s) then as_put Msi s else s)
      in as_unmap_device (s\<lparr>as_drvdata := False\<rparr>))"

definition ad_probe_irq :: "env \<Rightarrow> ad_dev \<Rightarrow> int \<times> ad_dev" where
  "ad_probe_irq E s =
     (let (retval, t) = acquire E Irq (atr s); s = s\<lparr>atr := t\<rparr>
      in if retval \<noteq> 0 then (retval, ad_unwind (ad_cleanup_buffers s))
         else
           let (retval, s) = ad_char_register_dev E s
           in if retval \<noteq> 0
              then (retval, ad_unwind (ad_cleanup_buffers (as_put Irq (s\<lparr>atr := ad_hw_shut E (atr s)\<rparr>))))
              else (0, s))"

definition ad_probe :: "env \<Rightarrow> ad_dev \<Rightarrow> int \<times> ad_dev" where
  "ad_probe E = as_map_device True E (\<lambda>_ s.
     let s = s\<lparr>as_drvdata := True\<rparr>;
         (retval, t) = acquire E Msi (atr s);
         s = s\<lparr>atr := t\<rparr>
     in if retval \<noteq> 0 then (retval, ad_unwind s) else ad_probe_irq E s)"

definition ad_remove :: "ad_dev \<Rightarrow> ad_dev option" where
  "ad_remove s =
     (if \<not> as_drvdata s then None
      else
        let s = as_put Irq (ad_char_deregister_dev (s\<lparr>as_drvdata := False\<rparr>));
            s = (if pci_dev_msi_enabled (atr s) then as_put Msi s else s)
        in Some (as_unmap_device s))"

definition ad_pci_init :: "env \<Rightarrow> trace \<Rightarrow> int \<times> trace" where
  "ad_pci_init E t = acquire E PciDriver t"

definition ad_pci_exit :: "trace \<Rightarrow> trace" where
  "ad_pci_exit t = release PciDriver t"

end
