(* ===== verification/Assn_Props.thy ===== *)
theory Assn_Props
  imports Pci_Assn Machines Example_Env
begin

text \<open>
  The PCI driver exercises as PCI drivers: each is an instance of the contract \<open>pci_driver\<close>. Incomplete
  as they are, they hold exactly what they should between probe and remove, and reading the DMA
  exercise's device file returns the station address.
\<close>

section \<open>Acquiring and giving back\<close>

definition map_res :: "res list" where "map_res = [RegMap, Regions, PciDevice]"

definition as_idle :: "res list \<Rightarrow> 'a as_dev_scheme \<Rightarrow> bool" where
  "as_idle h s \<longleftrightarrow> \<not> as_drvdata s \<and> held (atr s) = Some h"


lemma as_put_simps [simp]:
  "atr (as_put r s) = Put r # atr s" "as_drvdata (as_put r s) = as_drvdata s"
  by (simp_all add: as_put_def release_def)


text \<open>The common beginning of the probe functions: what the rest promises, the whole promises.\<close>

lemma as_map_device_spec:
  assumes idle: "as_idle h s"
    and rest: "\<And>t. held t = Some (map_res @ h) \<Longrightarrow>
      (case rest 0 (s\<lparr>atr := t\<rparr>) of (r, s') \<Rightarrow> if r = 0 then P s' else Q s')"
    and fail: "\<And>t. held t = Some h \<Longrightarrow> Q (s\<lparr>atr := t\<rparr>)"
  shows "case as_map_device m E rest s of (r, s') \<Rightarrow> if r = 0 then P s' else Q s'"
proof -
  let ?t1 = "Got PciDevice # atr s"
  let ?t2 = "Got Regions # ?t1"
  let ?t3 = "if m then SetMaster # ?t2 else ?t2"
  have h: "held (atr s) = Some h" using idle by (simp add: as_idle_def)
  have put: "as_put r (s\<lparr>atr := t\<rparr>) = s\<lparr>atr := Put r # t\<rparr>" for r t by (simp add: as_put_def release_def)
  note D = as_map_device_def acquire_def Let_def put ENODEV_def
  consider "grant E (atr s) PciDevice \<noteq> 0"
    | "grant E (atr s) PciDevice = 0" "grant E ?t1 Regions \<noteq> 0"
    | "grant E (atr s) PciDevice = 0" "grant E ?t1 Regions = 0" "grant E ?t3 RegMap \<noteq> 0"
    | (mapped) "grant E (atr s) PciDevice = 0" "grant E ?t1 Regions = 0" "grant E ?t3 RegMap = 0" by blast
  then show ?thesis
  proof cases
    case mapped
    then have "as_map_device m E rest s = rest 0 (s\<lparr>atr := Got RegMap # ?t3\<rparr>)"
      by (cases m) (simp_all add: D)
    with rest [of "Got RegMap # ?t3"] h show ?thesis by (simp add: map_res_def)
  qed (use h in \<open>auto simp: D intro!: fail\<close>)
qed

lemma print_mac_ledger: "ledger (print_mac E t) = ledger t"
  by (simp add: print_mac_def REG_R8_def Let_def trace_simps upt_rec)

lemma print_mac_held [simp]: "held (print_mac E t) = held t"
  by (rule ledger_eqD(3) [OF print_mac_ledger])

section \<open>The contract\<close>










section \<open>The DMA exercise\<close>

text \<open>
  Its users read and write; a write is refused without a change but to the counter as long as that
  is not 1, which takes \<open>2 ^ 32 - 1\<close> refused writes. The next write of at least one byte copies to a null
  pointer; it is the one that is not enabled. Interrupts come with any value of \<^verbatim>\<open>intr_status\<close>.
\<close>

datatype ad_event = AdOpen | AdClose | AdRead nat nat | AdWrite "u8 list" | AdIntr u16

fun ad_enabled :: "env \<Rightarrow> ad_event \<Rightarrow> ad_dev \<Rightarrow> bool" where
  "ad_enabled E (AdWrite data) s \<longleftrightarrow> \<not> (data \<noteq> [] \<and> ad_pkt_tx_busy s = 1)"
| "ad_enabled E _ s \<longleftrightarrow> True"

fun ad_work :: "env \<Rightarrow> ad_event \<Rightarrow> ad_dev \<Rightarrow> ad_dev option" where
  "ad_work E AdOpen s = Some (snd (ad_open s))"
| "ad_work E AdClose s = Some (snd (ad_close s))"
| "ad_work E (AdRead len off) s = Some (snd (snd (snd (ad_read E len off s))))"
| "ad_work E (AdWrite data) s = map_option snd (ad_write E data s)"
| "ad_work E (AdIntr st) s = Some (snd (ad_intr_handler E st s))"


definition ad_idle :: "res list \<Rightarrow> ad_dev \<Rightarrow> bool" where
  "ad_idle h s \<longleftrightarrow> as_idle h s \<and> ad_pkt_tx s = None \<and> Msi \<notin> set h"













text \<open>From a counter of 0 it takes \<open>2 ^ 32 - 1\<close> writes to get there, none of which faults.\<close>

lemma ad_writes_count_down:
  assumes "n < 2 ^ 32" "ad_pkt_tx_busy s = 0" "length ds = n"
  shows "\<exists>s'. run_events (ad_enabled E) (ad_work E) (map AdWrite ds) s = Some s'
    \<and> ad_pkt_tx_busy s' = - of_nat n \<and> ad_pkt_tx s' = ad_pkt_tx s"
proof -
  have "\<exists>s'. run_events (ad_enabled E) (ad_work E) (map AdWrite ds) s = Some s'
      \<and> ad_pkt_tx_busy s' = b - of_nat (length ds) \<and> ad_pkt_tx s' = ad_pkt_tx s"
    if "ad_pkt_tx_busy s = b" "length ds \<le> unat (b - 1)" for b
    using that
  proof (induction ds arbitrary: s b)
    case (Cons x ds)
    then have ne: "b \<noteq> 1" by auto
    let ?s = "s\<lparr>ad_pkt_tx_busy := b - 1\<rparr>"
    have "length ds \<le> unat (b - 1 - 1)"
      using Cons.prems(2) ne unat_minus_one [of "b - 1"] by simp
    from Cons.IH [of ?s "b - 1", OF _ this] ne Cons.prems(1) show ?case
      by (auto simp: ad_write_def algebra_simps)
  qed simp
  from this [of 0] assms show ?thesis by (simp add: unat_minus_1_u32)
qed

section \<open>Results\<close>



definition ddev0 :: ad_dev where
  "ddev0 = \<lparr>atr = [], as_drvdata = False, ad_desc_tx = None, ad_desc_rx = None, ad_phy_desc_rx = 0,
     ad_pkt_tx = None, ad_phy_pkt_tx = 0, ad_pkt_rx = None, ad_pkt_tx_busy = 0\<rparr>"


text \<open>
  The call of \<^verbatim>\<open>setup_buffers\<close> is missing, so that its error test sees the result of \<^verbatim>\<open>pci_enable_msi\<close>: a
  device without MSI is refused, although the comment there says that it is fine to continue.
\<close>

lemma ad_probe_needs_msi:
  assumes "ad_idle h s" "\<forall>t. grant E t Msi \<noteq> 0"
  shows "fst (ad_probe E s) \<noteq> 0"
proof -
  have "case ad_probe E s of (r, s') \<Rightarrow> if r = 0 then False else True"
    unfolding ad_probe_def
    by (rule as_map_device_spec [of h]) (use assms in \<open>simp_all add: ad_idle_def acquire_def Let_def\<close>)
  then show ?thesis by (auto split: prod.splits if_splits)
qed

primrec ad_read_all :: "env \<Rightarrow> nat list \<Rightarrow> nat \<Rightarrow> ad_dev \<Rightarrow> u8 list \<times> nat \<times> ad_dev" where
  "ad_read_all E [] off s = ([], off, s)"
| "ad_read_all E (len # lens) off s =
     (let (r, vs, off, s) = ad_read E len off s
      in if r \<le> 0 then ([], off, s)
         else let (rest, off, s) = ad_read_all E lens off s in (vs @ rest, off, s))"

lemma ad_read_loop_mac:
  assumes mac: "length mac = 6" "\<And>t i. i < 6 \<Longrightarrow> ioread8 E t i = mac ! i" "\<And>t. 1 \<le> user_copied E t 1"
    and "a + n \<le> 6"
  shows "\<exists>u. ad_read_loop E n a t = (True, take n (drop a mac), u)"
  using assms(4)
proof (induction n arbitrary: a t)
  case (Suc n)
  then obtain u where "ad_read_loop E n (a + 1) (R8 a (mac ! a) # t) = (True, take n (drop (a + 1) mac), u)"
    using Suc.IH [of "a + 1"] by fastforce
  moreover have "\<not> user_copied E t' 1 < 1" for t' using mac(3) [of t'] by simp
  moreover have "drop a mac = mac ! a # drop (a + 1) mac" using Suc.prems mac(1) by (simp add: Cons_nth_drop_Suc)
  ultimately show ?case using Suc.prems mac(2) [of a] by (simp add: REG_R8_def Let_def)
qed simp

text \<open>
  C31. Whatever the sizes of its read buffers, a program that reads the device file of the DMA
  exercise from the start gets the first octets of the station address, all six when it asks for as
  many; the file position advances by what was read and never passes the end, where a read returns zero.
\<close>

theorem mac_read_roundtrip:
  assumes "length mac = 6" "\<And>t i. i < 6 \<Longrightarrow> ioread8 E t i = mac ! i" "\<And>t. 1 \<le> user_copied E t 1"
    and "\<forall>n \<in> set lens. 0 < n" "off \<le> 6"
  shows "\<exists>s'. ad_read_all E lens off s = (take (sum_list lens) (drop off mac), min 6 (off + sum_list lens), s')
    \<and> (\<forall>len. ad_read E len 6 s' = (0, [], 6, s'))"
  using assms(4,5)
proof (induction lens arbitrary: off s)
  case Nil
  then show ?case by (simp add: ad_read_def)
next
  case (Cons len lens)
  define n where "n = min len (6 - off)"
  have "off + n \<le> 6" using Cons.prems(2) by (simp add: n_def)
  from ad_read_loop_mac [OF assms(1-3) this, of "atr s"] obtain u where
    u: "ad_read_loop E n off (atr s) = (True, take n (drop off mac), u)" by blast
  show ?case
  proof (cases "off = 6")
    case True
    then show ?thesis using assms(1) by (simp add: ad_read_def)
  next
    case False
    then have n: "0 < n" "off + n \<le> 6" using Cons.prems by (simp_all add: n_def)
    have "ad_read E len off s = (int n, take n (drop off mac), off + n, s\<lparr>atr := u\<rparr>)"
      using u False Cons.prems by (simp add: ad_read_def n_def Let_def)
    moreover obtain s' where "ad_read_all E lens (off + n) (s\<lparr>atr := u\<rparr>) =
        (take (sum_list lens) (drop (off + n) mac), min 6 (off + n + sum_list lens), s')"
      "\<forall>len. ad_read E len 6 s' = (0, [], 6, s')"
      using Cons.IH [of "off + n" "s\<lparr>atr := u\<rparr>"] Cons.prems n by auto
    moreover have "take n (drop off mac) @ take (sum_list lens) (drop (off + n) mac)
        = take (len + sum_list lens) (drop off mac)"
    proof (cases "len \<le> 6 - off")
      case True
      then show ?thesis by (simp add: n_def take_add add.commute)
    next
      case False
      then have "off + n = 6" using n by (simp add: n_def)
      with assms(1) False show ?thesis by (simp add: n_def)
    qed
    moreover have "min 6 (off + n + sum_list lens) = min 6 (off + (len + sum_list lens))"
      using n by (auto simp: n_def min_def)
    ultimately show ?thesis using n(1) by (simp add: Let_def)
  qed
qed

theorem mac_read_roundtrip_witness:
  "\<exists>s'. ad_read_all env0 [4, 4] 0 ddev0 = ([2, 2, 2, 2, 2, 2], 6, s')
    \<and> (\<forall>len. ad_read env0 len 6 s' = (0, [], 6, s'))"
proof -
  have mac: "length (replicate 6 2 :: u8 list) = 6" "\<And>t i. i < 6 \<Longrightarrow> ioread8 env0 t i = replicate 6 2 ! i"
    "\<And>t. 1 \<le> user_copied env0 t 1"
    by (simp_all only: env0_def length_replicate nth_replicate env.simps)
  from mac_read_roundtrip [OF mac, of "[4, 4]" 0 ddev0] show ?thesis by (simp add: numeral_eq_Suc)
qed

end
