(* ===== verification/Pci_Skel.thy ===== *)
theory Pci_Skel
  imports Assn_Props
begin

text \<open>
  The first three PCI driver exercises, \<^verbatim>\<open>PCIDriverAssn/expt_drv_probe.c\<close>, \<^verbatim>\<open>expt_drv_config.c\<close> and \<^verbatim>\<open>expt_drv_init.c\<close>, as
  they stand: almost every statement is a TODO comment. Names start with \<open>ap_\<close>, \<open>ag_\<close> and \<open>an_\<close>. A local variable that is read
  without having been set is a parameter of the definition.
\<close>

section \<open>expt\_drv\_probe.c\<close>

definition ap_probe :: "as_dev \<Rightarrow> int \<times> as_dev" where "ap_probe s = (0, s)"

definition ap_remove :: "as_dev \<Rightarrow> as_dev" where "ap_remove s = s"

text \<open>Nothing is registered; \<open>result\<close> is what the variable of that name happens to hold.\<close>

definition ap_pci_init :: "int \<Rightarrow> trace \<Rightarrow> int \<times> trace" where "ap_pci_init result t = (result, t)"

definition ap_pci_exit :: "trace \<Rightarrow> trace" where "ap_pci_exit t = t"

section \<open>expt\_drv\_config.c\<close>

text \<open>
  The only effect of \<^verbatim>\<open>display_pci_config_space\<close> is its output, a list of lines here. The four numbers of a
  line on a base address register are all the loop counter, and the two words are what the juxtaposed literals of the source
  concatenate to.
\<close>

datatype log_line = Line string | Bar nat nat nat nat string string

definition ag_display_pci_config_space :: "log_line list" where
  "ag_display_pci_config_space =
     [Line ''Config invoked'']
     @ map (\<lambda>i. Bar i i i i ('' IO'' @ ''/MEM'') (''PREFETCH'' @ ''NON-PREFETCH'')) [0..<6]
     @ [Line ''PCI Configuration Space:'']"

definition ag_probe :: "as_dev \<Rightarrow> int \<times> log_line list \<times> as_dev" where
  "ag_probe s = (0, Line ''PCI device registered'' # ag_display_pci_config_space, s)"

definition ag_remove :: "as_dev \<Rightarrow> as_dev" where "ag_remove s = s"

definition ag_pci_init :: "env \<Rightarrow> trace \<Rightarrow> int \<times> trace" where
  "ag_pci_init E t = acquire E PciDriver t"

definition ag_pci_exit :: "trace \<Rightarrow> trace" where
  "ag_pci_exit t = release PciDriver t"

section \<open>expt\_drv\_init.c\<close>

text \<open>
  \<open>retval\<close> and \<open>dpv\<close> are what the variables of these names happen to hold. The pointer \<open>dpv\<close> leads nowhere (\<open>None\<close>: the
  kernel faults) or to memory whose first field, \<^verbatim>\<open>reg_base\<close>, is NULL or an address.
\<close>

definition an_probe :: "int \<Rightarrow> ptr option option \<Rightarrow> as_dev \<Rightarrow> (int \<times> as_dev) option" where
  "an_probe retval dpv s =
     (if retval \<noteq> 0 then Some (retval, s)
      else if retval \<noteq> 0 then Some (retval, as_put PciDevice s)
      else do {
        reg_base \<leftarrow> dpv;
        if reg_base = None then Some (- ENODEV, as_put PciDevice (as_put Regions s))
        else Some (0, s)
      })"

definition an_remove :: "as_dev \<Rightarrow> as_dev" where "an_remove s = s"

definition an_pci_init :: "env \<Rightarrow> trace \<Rightarrow> int \<times> trace" where
  "an_pci_init E t = acquire E PciDriver t"

definition an_pci_exit :: "trace \<Rightarrow> trace" where
  "an_pci_exit t = release PciDriver t"

section \<open>What they do\<close>

text \<open>
  The configuration exercise shows the same lines for every device: the range and the flags of each
  of the six base address registers are its number.
\<close>

lemma ag_display_bars: "i < 6 \<Longrightarrow> \<exists>u v. ag_display_pci_config_space ! (i + 1) = Bar i i i i u v"
  by (simp add: ag_display_pci_config_space_def nth_append)

text \<open>Registering the driver and unregistering it leaves no trace among the resources.\<close>

lemma pci_register_unregister:
  assumes "held t = Some h" "init = ag_pci_init E \<or> init = an_pci_init E" "exit = ag_pci_exit \<or> exit = an_pci_exit"
  shows "case init t of (r, u) \<Rightarrow> if r = 0 then held (exit u) = Some h else held u = Some h"
  using assms
  by (auto simp: ag_pci_init_def an_pci_init_def ag_pci_exit_def an_pci_exit_def acquire_def release_def Let_def)

text \<open>
  The functions of the skeletons do not record that the device is bound; the PCI core does, by the value
  that \<^verbatim>\<open>probe\<close> returns. The state is therefore that of the device with this mark.
\<close>

definition core_probe :: "('d \<Rightarrow> (int \<times> 'd) option) \<Rightarrow> bool \<times> 'd \<Rightarrow> (int \<times> bool \<times> 'd) option" where
  "core_probe probe bd = map_option (\<lambda>(r, d). (r, r = 0, d)) (probe (snd bd))"

definition core_remove :: "('d \<Rightarrow> 'd) \<Rightarrow> bool \<times> 'd \<Rightarrow> (bool \<times> 'd) option" where
  "core_remove remove bd = Some (False, remove (snd bd))"

definition skel_state :: "bool \<Rightarrow> res list \<Rightarrow> bool \<times> as_dev \<Rightarrow> bool" where
  "skel_state b h bd \<longleftrightarrow> fst bd = b \<and> held (atr (snd bd)) = Some h"

interpretation ap: pci_driver "skel_state False" "skel_state True" fst "\<lambda>_. True" "core_probe (Some \<circ> ap_probe)"
    "core_remove ap_remove" "\<lambda>(_ :: unit) _. False" "\<lambda>_. Some"
  by unfold_locales (auto simp: skel_state_def core_probe_def core_remove_def ap_probe_def ap_remove_def)

interpretation ag: pci_driver "skel_state False" "skel_state True" fst "\<lambda>_. True"
    "core_probe (\<lambda>s. case ag_probe s of (r, log, s') \<Rightarrow> Some (r, s'))" "core_remove ag_remove" "\<lambda>(_ :: unit) _. False" "\<lambda>_. Some"
  by unfold_locales (auto simp: skel_state_def core_probe_def core_remove_def ag_probe_def ag_remove_def)

text \<open>The initialisation exercise meets the contract as long as the uninitialised pointer leads to something like a private structure.\<close>

interpretation an: pci_driver "skel_state False" "skel_state True" fst "\<lambda>_. True"
    "core_probe (an_probe retval (Some (Some reg_base)))" "core_remove an_remove" "\<lambda>(_ :: unit) _. False" "\<lambda>_. Some"
    for retval reg_base
  by unfold_locales (auto simp: skel_state_def core_probe_def core_remove_def an_probe_def an_remove_def)

lemma skeletons_hold_nothing:
  assumes "held (atr (snd d0)) = Some h" "\<not> fst d0"
    and "probe = Some \<circ> ap_probe \<and> remove = ap_remove
      \<or> probe = an_probe retval (Some (Some reg_base)) \<and> remove = an_remove"
    and "reach (pci_enabled fst (\<lambda>_. True) (\<lambda>(_ :: unit) _. False)) (pci_step (core_probe probe) (core_remove remove) (\<lambda>_. Some)) d0 d"
  shows "held (atr (snd d)) = Some h"
  using assms ap.life.reach_inv [of d0 d h] an.life.reach_inv [of retval reg_base d0 d h]
  by (auto simp: skel_state_def)

text \<open>
  Otherwise its error path gives back regions and device that it never asked for, or the kernel faults, depending on what
  the stack holds.
\<close>

lemma an_probe_null:
  assumes "held (atr s) = Some h" "hd h \<noteq> Regions \<or> h = []"
  shows "\<exists>s'. an_probe 0 (Some None) s = Some (- ENODEV, s') \<and> held (atr s') = None"
  using assms by (cases h) (auto simp: an_probe_def)

lemma an_probe_faults_iff: "an_probe retval dpv s = None \<longleftrightarrow> retval = 0 \<and> dpv = None"
  by (cases dpv) (auto simp: an_probe_def)

text \<open>The test after the missing request of the regions repeats the first one and never succeeds.\<close>

lemma an_probe_never_acquires:
  assumes "an_probe retval dpv s = Some (r, s')"
  shows "s' = s \<or> r = - ENODEV \<and> atr s' = Put PciDevice # Put Regions # atr s"
  using assms by (cases dpv) (auto simp: an_probe_def split: if_splits)

end
