(* ===== verification/Ether_Dev.thy ===== *)
theory Ether_Dev
  imports Kernel_Env
begin

text \<open>
  Setting up an Ethernet interface: the fields of \<^verbatim>\<open>struct net_device\<close> that the setup functions of
  \<^verbatim>\<open>NetworkDriver/dummy.c\<close> and \<^verbatim>\<open>snull.c\<close> write. The bits are those of the kernel headers and differ
  between kernel versions: they are a parameter, as are \<^verbatim>\<open>ether_setup\<close> and \<^verbatim>\<open>eth_hw_addr_random\<close>.
\<close>

record ether_dev =
  flags :: u32
  priv_flags :: u32
  features :: u64
  hw_features :: u64
  hw_enc_features :: u64
  needs_free_netdev :: bool
  min_mtu :: u32
  max_mtu :: u32
  ether_addr :: "u8 list"

record net_consts =
  IFF_NOARP :: u32
  IFF_MULTICAST :: u32
  IFF_LIVE_ADDR_CHANGE :: u32
  IFF_NO_QUEUE :: u32
  NETIF_F_SG :: u64
  NETIF_F_FRAGLIST :: u64
  NETIF_F_ALL_TSO :: u64
  NETIF_F_HW_CSUM :: u64
  NETIF_F_HIGHDMA :: u64
  NETIF_F_LLTX :: u64
  NETIF_F_GSO_ENCAP_ALL :: u64

definition dummy_setup :: "net_consts \<Rightarrow> (ether_dev \<Rightarrow> ether_dev) \<Rightarrow> (ether_dev \<Rightarrow> ether_dev) \<Rightarrow> ether_dev \<Rightarrow> ether_dev" where
  "dummy_setup K ether_setup eth_hw_addr_random d =
     (let d = ether_setup d;
          d = d\<lparr>needs_free_netdev := True\<rparr>;
          d = d\<lparr>flags := flags d OR IFF_NOARP K\<rparr>;
          d = d\<lparr>flags := flags d AND NOT (IFF_MULTICAST K)\<rparr>;
          d = d\<lparr>priv_flags := priv_flags d OR (IFF_LIVE_ADDR_CHANGE K OR IFF_NO_QUEUE K)\<rparr>;
          d = d\<lparr>features := features d OR (NETIF_F_SG K OR NETIF_F_FRAGLIST K)\<rparr>;
          d = d\<lparr>features := features d OR NETIF_F_ALL_TSO K\<rparr>;
          d = d\<lparr>features := features d OR (NETIF_F_HW_CSUM K OR NETIF_F_HIGHDMA K OR NETIF_F_LLTX K)\<rparr>;
          d = d\<lparr>features := features d OR NETIF_F_GSO_ENCAP_ALL K\<rparr>;
          d = d\<lparr>hw_features := hw_features d OR features d\<rparr>;
          d = d\<lparr>hw_enc_features := hw_enc_features d OR features d\<rparr>;
          d = eth_hw_addr_random d
      in d\<lparr>min_mtu := 0, max_mtu := 0\<rparr>)"

text \<open>
  What the setup promises, when the bits for ARP and multicast differ and the random address changes
  nothing but the address: no ARP, no multicast, every offload both active and switchable, also for
  encapsulated packets, and no bound on the packet size.
\<close>

definition addr_only :: "(ether_dev \<Rightarrow> ether_dev) \<Rightarrow> bool" where
  "addr_only f \<longleftrightarrow> (\<forall>d. \<exists>a. f d = d\<lparr>ether_addr := a\<rparr>)"

lemma addr_only_keeps:
  assumes "addr_only f"
  shows "flags (f d) = flags d" "priv_flags (f d) = priv_flags d" "features (f d) = features d"
    "hw_features (f d) = hw_features d" "hw_enc_features (f d) = hw_enc_features d"
    "needs_free_netdev (f d) = needs_free_netdev d"
proof -
  obtain a where "f d = d\<lparr>ether_addr := a\<rparr>" using assms unfolding addr_only_def by blast
  then show "flags (f d) = flags d" "priv_flags (f d) = priv_flags d" "features (f d) = features d"
    "hw_features (f d) = hw_features d" "hw_enc_features (f d) = hw_enc_features d"
    "needs_free_netdev (f d) = needs_free_netdev d" by simp_all
qed

lemma set_then_clear:
  fixes w a b :: "'a :: len word"
  assumes "a AND b = 0"
  shows "((w OR a) AND NOT b) AND a = a" "((w OR a) AND NOT b) AND b = 0"
proof -
  have "\<not> (bit a n \<and> bit b n)" for n using assms by (metis bit_and_iff bit_0_eq bot_apply bot_bool_def)
  then show "((w OR a) AND NOT b) AND a = a" "((w OR a) AND NOT b) AND b = 0"
    by (auto intro!: bit_word_eqI simp: bit_simps)
qed

lemma dummy_setup_flags:
  assumes "addr_only rnd" "IFF_NOARP K AND IFF_MULTICAST K = 0" "d' = dummy_setup K ether_setup rnd d"
  shows "flags d' AND IFF_NOARP K = IFF_NOARP K" "flags d' AND IFF_MULTICAST K = 0"
    "needs_free_netdev d'" "max_mtu d' = 0"
  using set_then_clear [OF assms(2)]
  by (simp_all add: assms(3) dummy_setup_def Let_def addr_only_keeps [OF assms(1)])

lemma dummy_setup_offloads:
  assumes "addr_only rnd"
    and "F \<in> {NETIF_F_SG K, NETIF_F_FRAGLIST K, NETIF_F_ALL_TSO K, NETIF_F_HW_CSUM K, NETIF_F_HIGHDMA K, NETIF_F_LLTX K,
      NETIF_F_GSO_ENCAP_ALL K}" "d' = dummy_setup K ether_setup rnd d"
  shows "features d' AND F = F" "hw_features d' AND features d' = features d'"
    "hw_enc_features d' AND features d' = features d'"
  using assms(2)
  by (auto intro!: bit_word_eqI simp: assms(3) dummy_setup_def Let_def addr_only_keeps [OF assms(1)] bit_simps)

end
