(* ===== verification/Snull.thy ===== *)
theory Snull
  imports Ether_Dev
begin

text \<open>
  The pair of loop-back interfaces of \<^verbatim>\<open>NetworkDriver/snull.c\<close>: the packet pool, the receive queue,
  the transmit routine, the interrupt handlers and the header builder, with the handlers of \<^verbatim>\<open>snull_napi.c\<close>, as far as the
  files have them (they are exercises; the statements behind their TODO comments are not there, so neither are they here). Packets are cells
  of a heap, linked by their \<open>next\<close> pointers. Following a pointer to no cell, taking a spinlock that is held
  and writing outside an array have no result (\<open>None\<close>): the kernel faults or the processor spins.
\<close>

section \<open>State\<close>

datatype sn = Sn0 | Sn1    \<comment> \<open>\<^verbatim>\<open>snull_devs[0]\<close> and \<^verbatim>\<open>snull_devs[1]\<close>\<close>

type_synonym addr = nat

definition ETH_DATA_LEN :: nat where "ETH_DATA_LEN = 1500"
definition ETH_HLEN :: nat where "ETH_HLEN = 14"
definition SNULL_RX_INTR :: u32 where "SNULL_RX_INTR = 1"
definition SNULL_TX_INTR :: u32 where "SNULL_TX_INTR = 2"

record snull_packet =
  pnext :: "addr option"
  pdev :: sn
  datalen :: nat
  pdata :: "u8 list"

text \<open>The counters of \<^verbatim>\<open>struct net_device_stats\<close> that the file uses; \<^verbatim>\<open>unsigned long\<close> has 64 bits.\<close>

record sn_stats =
  sn_rx_packets :: u64
  sn_tx_packets :: u64
  sn_rx_bytes :: u64
  sn_tx_bytes :: u64
  sn_rx_dropped :: u64

record snull_priv =
  pstats :: sn_stats
  status :: u32
  ppool :: "addr option"
  rx_queue :: "addr option"
  tx_packetlen :: nat
  tx_packetdata :: "u8 list"
  pskb :: "nat option"
  plock :: bool
  pnetdev :: "sn option"

text \<open>All packets in memory, and the private data of the two interfaces.\<close>

record snull =
  heap :: "addr \<rightharpoonup> snull_packet"
  priv :: "sn \<Rightarrow> snull_priv"

definition upd_priv :: "sn \<Rightarrow> (snull_priv \<Rightarrow> snull_priv) \<Rightarrow> snull \<Rightarrow> snull" where
  "upd_priv d f s = s\<lparr>priv := (priv s)(d := f (priv s d))\<rparr>"

definition set_next :: "addr \<Rightarrow> addr option \<Rightarrow> snull \<Rightarrow> snull option" where
  "set_next p q s = do { k \<leftarrow> heap s p; Some (s\<lparr>heap := (heap s)(p \<mapsto> k\<lparr>pnext := q\<rparr>)\<rparr>) }"

definition spin_lock_irqsave :: "sn \<Rightarrow> snull \<Rightarrow> snull option" where
  "spin_lock_irqsave d s = (if plock (priv s d) then None else Some (upd_priv d (plock_update (\<lambda>_. True)) s))"

definition spin_unlock_irqrestore :: "sn \<Rightarrow> snull \<Rightarrow> snull" where
  "spin_unlock_irqrestore d s = upd_priv d (plock_update (\<lambda>_. False)) s"

section \<open>The pool\<close>

text \<open>
  \<open>kmalloc\<close> is a parameter: the address of a new packet with what its memory holds, or NULL, which
  may depend on the state. \<open>n\<close> is the number of rounds still to do.
\<close>

type_synonym kmalloc = "snull \<Rightarrow> (addr \<times> snull_packet) option"

primrec setup_pool_loop :: "kmalloc \<Rightarrow> sn \<Rightarrow> nat \<Rightarrow> snull \<Rightarrow> snull" where
  "setup_pool_loop kmalloc d 0 s = s"
| "setup_pool_loop kmalloc d (Suc n) s =
     (case kmalloc s of
        None \<Rightarrow> s
      | Some (p, m) \<Rightarrow>
          let s = s\<lparr>heap := (heap s)(p \<mapsto> m\<lparr>pdev := d, pnext := ppool (priv s d)\<rparr>)\<rparr>
          in setup_pool_loop kmalloc d n (upd_priv d (ppool_update (\<lambda>_. Some p)) s))"

definition snull_setup_pool :: "kmalloc \<Rightarrow> int \<Rightarrow> sn \<Rightarrow> snull \<Rightarrow> snull" where
  "snull_setup_pool kmalloc pool_size d s =
     setup_pool_loop kmalloc d (nat pool_size) (upd_priv d (ppool_update (\<lambda>_. None)) s)"

text \<open>The loop of \<^verbatim>\<open>snull_teardown_pool\<close> ends only at a NULL pointer.\<close>

partial_function (option) snull_teardown_pool :: "sn \<Rightarrow> snull \<Rightarrow> snull option" where
  "snull_teardown_pool d s =
     (case ppool (priv s d) of
        None \<Rightarrow> Some s
      | Some p \<Rightarrow> do {
          k \<leftarrow> heap s p;
          snull_teardown_pool d ((upd_priv d (ppool_update (\<lambda>_. pnext k)) s)\<lparr>heap := (heap s)(p := None)\<rparr>)
        })"

text \<open>An empty pool is left with the lock held.\<close>

definition snull_get_tx_buffer :: "sn \<Rightarrow> snull \<Rightarrow> (addr option \<times> snull) option" where
  "snull_get_tx_buffer d s = do {
     s \<leftarrow> spin_lock_irqsave d s;
     (case ppool (priv s d) of
        None \<Rightarrow> Some (None, s)
      | Some p \<Rightarrow> do {
          k \<leftarrow> heap s p;
          let s = upd_priv d (ppool_update (\<lambda>_. pnext k)) s;
          Some (Some p, spin_unlock_irqrestore d s)
        })
   }"

definition snull_release_buffer :: "addr \<Rightarrow> snull \<Rightarrow> snull option" where
  "snull_release_buffer p s = do {
     k \<leftarrow> heap s p;
     let d = pdev k;
     s \<leftarrow> spin_lock_irqsave d s;
     s \<leftarrow> set_next p (ppool (priv s d)) s;
     let s = upd_priv d (ppool_update (\<lambda>_. Some p)) s;
     Some (spin_unlock_irqrestore d s)
   }"

section \<open>The receive queue\<close>

definition snull_enqueue_buf :: "sn \<Rightarrow> addr \<Rightarrow> snull \<Rightarrow> snull option" where
  "snull_enqueue_buf d p s = do {
     s \<leftarrow> spin_lock_irqsave d s;
     s \<leftarrow> set_next p (rx_queue (priv s d)) s;
     let s = upd_priv d (rx_queue_update (\<lambda>_. Some p)) s;
     Some (spin_unlock_irqrestore d s)
   }"

definition snull_dequeue_buf :: "sn \<Rightarrow> snull \<Rightarrow> (addr option \<times> snull) option" where
  "snull_dequeue_buf d s = do {
     s \<leftarrow> spin_lock_irqsave d s;
     (case rx_queue (priv s d) of
        None \<Rightarrow> Some (None, spin_unlock_irqrestore d s)
      | Some p \<Rightarrow> do {
          k \<leftarrow> heap s p;
          let s = upd_priv d (rx_queue_update (\<lambda>_. pnext k)) s;
          Some (Some p, spin_unlock_irqrestore d s)
        })
   }"

section \<open>Transmission\<close>

text \<open>
  \<^verbatim>\<open>snull_hw_tx\<close> flips the third octet of both IP addresses (bytes 28 and 32 of the frame), clears
  and rebuilds the header checksum (bytes 24 and 25), and copies the frame into a pool buffer.
  \<open>csum\<close> stands for \<^verbatim>\<open>ip_fast_csum\<close>: it gives the two bytes of the checksum of so many 32-bit words.
\<close>

definition set_byte :: "nat \<Rightarrow> u8 \<Rightarrow> u8 list \<Rightarrow> u8 list option" where
  "set_byte i v xs = (if i < length xs then Some (xs[i := v]) else None)"

definition mangle :: "(u8 list \<Rightarrow> nat \<Rightarrow> u8 \<times> u8) \<Rightarrow> u8 list \<Rightarrow> u8 list option" where
  "mangle csum buf = do {
     a \<leftarrow> idx buf 28;
     buf \<leftarrow> set_byte 28 (a XOR 1) buf;
     b \<leftarrow> idx buf 32;
     buf \<leftarrow> set_byte 32 (b XOR 1) buf;
     buf \<leftarrow> set_byte 24 0 buf;
     buf \<leftarrow> set_byte 25 0 buf;
     v \<leftarrow> idx buf ETH_HLEN;
     let (x, y) = csum (drop ETH_HLEN buf) (unat (v AND 0x0F));
     buf \<leftarrow> set_byte 24 x buf;
     set_byte 25 y buf
   }"

definition snull_hw_tx :: "(u8 list \<Rightarrow> nat \<Rightarrow> u8 \<times> u8) \<Rightarrow> u8 list \<Rightarrow> sn \<Rightarrow> snull \<Rightarrow> snull option" where
  "snull_hw_tx csum buf d s = do {
     buf \<leftarrow> mangle csum buf;
     (tx_buffer, s) \<leftarrow> snull_get_tx_buffer d s;
     (case tx_buffer of
        None \<Rightarrow> Some s
      | Some p \<Rightarrow> do {
          k \<leftarrow> heap s p;
          if length buf \<le> ETH_DATA_LEN then do {
            let s = s\<lparr>heap := (heap s)(p \<mapsto> k\<lparr>datalen := length buf,
                                           pdata := buf @ drop (length buf) (pdata k)\<rparr>)\<rparr>;
            Some (upd_priv d (\<lambda>v. v\<lparr>tx_packetlen := length buf, tx_packetdata := buf,
                                    status := status v OR SNULL_TX_INTR\<rparr>) s)
          } else None
        })
   }"

text \<open>
  The transmit routine that the kernel calls remembers the packet and sends nothing: the call of \<^verbatim>\<open>snull_hw_tx\<close> is a
  TODO comment. \<open>pv\<close> is what its uninitialised variable \<^verbatim>\<open>priv\<close> happens to hold: a pointer to no private data (\<open>None\<close>), or to those of
  one of the interfaces, not necessarily the one that transmits.
\<close>

definition snull_tx :: "sn option \<Rightarrow> nat \<Rightarrow> sn \<Rightarrow> snull \<Rightarrow> (int \<times> snull) option" where
  "snull_tx pv skb d s = do {
     e \<leftarrow> pv;
     let s = upd_priv e (pskb_update (\<lambda>_. Some skb)) s;
     Some (0, s)
   }"

section \<open>Interrupts\<close>

text \<open>
  A packet for the network stack, with what \<^verbatim>\<open>snull_rx\<close> writes into it. \<open>eth_type_trans\<close> is a parameter: it
  reads the protocol from the Ethernet header and removes the header. The statement that would
  allocate the packet is a TODO comment: \<open>skb\<close> is what the variable of that name happens to hold, NULL
  (\<open>None\<close>) or the address of a packet. \<^verbatim>\<open>spin_lock\<close> is modelled like \<^verbatim>\<open>spin_lock_irqsave\<close>.
\<close>

record sk_buff =
  sk_dev :: sn
  sk_protocol :: u16
  sk_ip_summed :: nat
  sk_data :: "u8 list"

definition CHECKSUM_UNNECESSARY :: nat where "CHECKSUM_UNNECESSARY = 1"

type_synonym eth_type_trans = "sn \<Rightarrow> sk_buff \<Rightarrow> u16 \<times> sk_buff"

definition upd_stats :: "sn \<Rightarrow> (sn_stats \<Rightarrow> sn_stats) \<Rightarrow> snull \<Rightarrow> snull" where
  "upd_stats d f = upd_priv d (\<lambda>v. v\<lparr>pstats := f (pstats v)\<rparr>)"

definition snull_rx :: "eth_type_trans \<Rightarrow> sk_buff option \<Rightarrow> sn \<Rightarrow> addr \<Rightarrow> snull \<Rightarrow> (sk_buff option \<times> snull) option" where
  "snull_rx eth_type_trans skb d p s =
     (case skb of
        None \<Rightarrow> Some (None, upd_stats d (\<lambda>st. st\<lparr>sn_rx_dropped := sn_rx_dropped st + 1\<rparr>) s)
      | Some b \<Rightarrow> do {
          let (proto, b) = eth_type_trans d (b\<lparr>sk_dev := d\<rparr>);
          let b = b\<lparr>sk_protocol := proto, sk_ip_summed := CHECKSUM_UNNECESSARY\<rparr>;
          k \<leftarrow> heap s p;
          Some (Some b, upd_stats d (\<lambda>st. st\<lparr>sn_rx_packets := sn_rx_packets st + 1,
                                              sn_rx_bytes := sn_rx_bytes st + of_nat (datalen k)\<rparr>) s)
        })"

definition tx_over :: "sn \<Rightarrow> snull \<Rightarrow> snull" where
  "tx_over d s = upd_stats d (\<lambda>st. st\<lparr>sn_tx_packets := sn_tx_packets st + 1,
     sn_tx_bytes := sn_tx_bytes st + of_nat (tx_packetlen (priv s d))\<rparr>) s"

definition snull_regular_interrupt :: "eth_type_trans \<Rightarrow> sk_buff option \<Rightarrow> sn option \<Rightarrow> snull \<Rightarrow> snull option" where
  "snull_regular_interrupt eth_type_trans skb dev s =
     (case dev of
        None \<Rightarrow> Some s
      | Some d \<Rightarrow> do {
          s \<leftarrow> spin_lock_irqsave d s;
          let statusword = status (priv s d);
          let s = upd_priv d (status_update (\<lambda>_. 0)) s;
          s \<leftarrow> (if statusword AND SNULL_RX_INTR \<noteq> 0 then
                 (case rx_queue (priv s d) of
                    None \<Rightarrow> Some s
                  | Some p \<Rightarrow> do {
                      k \<leftarrow> heap s p;
                      let s = upd_priv d (rx_queue_update (\<lambda>_. pnext k)) s;
                      map_option snd (snull_rx eth_type_trans skb d p s)
                    })
               else Some s);
          let s = (if statusword AND SNULL_TX_INTR \<noteq> 0 then tx_over d s else s);
          Some (spin_unlock_irqrestore d s)
        })"

text \<open>The handler of \<^verbatim>\<open>snull_napi.c\<close>: the receive branch is a TODO comment.\<close>

definition snull_napi_interrupt :: "sn option \<Rightarrow> snull \<Rightarrow> snull option" where
  "snull_napi_interrupt dev s =
     (case dev of
        None \<Rightarrow> Some s
      | Some d \<Rightarrow> do {
          s \<leftarrow> spin_lock_irqsave d s;
          let statusword = status (priv s d);
          let s = upd_priv d (status_update (\<lambda>_. 0)) s;
          let s = (if statusword AND SNULL_TX_INTR \<noteq> 0 then
                     let s = tx_over d s
                     in if pskb (priv s d) \<noteq> None then upd_priv d (pskb_update (\<lambda>_. None)) s else s
                   else s);
          Some (spin_unlock_irqrestore d s)
        })"

text \<open>
  The poll function of \<^verbatim>\<open>snull_napi.c\<close>. Nothing in the loop takes a packet off the queue or sets \<open>pkt\<close> and
  \<open>skb\<close>, which are what the variables happen to hold; \<open>n\<close> is the number of rounds that the budget still allows.
\<close>

primrec snull_poll_loop :: "eth_type_trans \<Rightarrow> addr \<Rightarrow> sn \<Rightarrow> nat \<Rightarrow> nat \<Rightarrow> sk_buff option \<Rightarrow> snull \<Rightarrow> (nat \<times> snull) option" where
  "snull_poll_loop eth_type_trans pkt d 0 npackets skb s = Some (npackets, s)"
| "snull_poll_loop eth_type_trans pkt d (Suc n) npackets skb s =
     (if rx_queue (priv s d) = None then Some (npackets, s)
      else case skb of
        None \<Rightarrow> do {
          let s = upd_stats d (\<lambda>st. st\<lparr>sn_rx_dropped := sn_rx_dropped st + 1\<rparr>) s;
          s \<leftarrow> snull_release_buffer pkt s;
          snull_poll_loop eth_type_trans pkt d n (npackets + 1) skb s
        }
      | Some b \<Rightarrow> do {
          let (proto, b) = eth_type_trans d (b\<lparr>sk_dev := d\<rparr>);
          let b = b\<lparr>sk_protocol := proto, sk_ip_summed := CHECKSUM_UNNECESSARY\<rparr>;
          k \<leftarrow> heap s pkt;
          let s = upd_stats d (\<lambda>st. st\<lparr>sn_rx_packets := sn_rx_packets st + 1,
                                        sn_rx_bytes := sn_rx_bytes st + of_nat (datalen k)\<rparr>) s;
          s \<leftarrow> snull_release_buffer pkt s;
          snull_poll_loop eth_type_trans pkt d n (npackets + 1) (Some b) s
        })"

definition snull_poll :: "eth_type_trans \<Rightarrow> addr \<Rightarrow> sk_buff option \<Rightarrow> sn \<Rightarrow> nat \<Rightarrow> snull \<Rightarrow> (nat \<times> snull) option" where
  "snull_poll eth_type_trans pkt skb d budget s = do {
     (npackets, s) \<leftarrow> snull_poll_loop eth_type_trans pkt d budget 0 skb s;
     if npackets < budget then do {
       s \<leftarrow> spin_lock_irqsave d s;
       Some (npackets, spin_unlock_irqrestore d s)
     }
     else Some (npackets, s)
   }"

section \<open>Open, close, statistics and the module\<close>

text \<open>Of these functions only the return values are there, and of \<^verbatim>\<open>snull_rx_ints\<close> nothing.\<close>

definition snull_rx_ints :: "sn \<Rightarrow> bool \<Rightarrow> snull \<Rightarrow> snull" where "snull_rx_ints d enable s = s"

definition snull_open :: "sn \<Rightarrow> snull \<Rightarrow> int \<times> snull" where "snull_open d s = (0, s)"

definition snull_release :: "sn \<Rightarrow> snull \<Rightarrow> int \<times> snull" where "snull_release d s = (0, s)"

definition snull_get_stats :: "sn \<Rightarrow> snull \<Rightarrow> sn_stats" where "snull_get_stats d s = pstats (priv s d)"

text \<open>
  \<^verbatim>\<open>snull_init_module\<close> tests the two device pointers, which nothing sets, and then, twice, a result that nothing
  sets; the loop of \<^verbatim>\<open>snull_cleanup\<close> has no statement but TODO comments. \<open>dev0\<close> and \<open>dev1\<close> say whether the pointers are not NULL.
\<close>

definition snull_cleanup :: "snull \<Rightarrow> snull" where "snull_cleanup s = s"

primrec init_module_loop :: "nat \<Rightarrow> int \<Rightarrow> int \<Rightarrow> int" where
  "init_module_loop 0 result ret = ret"
| "init_module_loop (Suc n) result ret = init_module_loop n result (if result \<noteq> 0 then ret else 0)"

definition snull_init_module :: "int \<Rightarrow> bool \<Rightarrow> bool \<Rightarrow> int" where
  "snull_init_module result dev0 dev1 =
     (if \<not> dev0 \<or> \<not> dev1 then - ENOMEM else init_module_loop 2 result (- ENODEV))"

text \<open>
  The setup function, on the interface \<open>nd\<close> and the private data; \<open>pv\<close> is, as in \<open>snull_tx\<close>, what the variable \<^verbatim>\<open>priv\<close> holds.
\<close>

definition snull_init :: "net_consts \<Rightarrow> (ether_dev \<Rightarrow> ether_dev) \<Rightarrow> sn option \<Rightarrow> sn \<Rightarrow> ether_dev \<times> snull \<Rightarrow> (ether_dev \<times> snull) option" where
  "snull_init K ether_setup pv d nds =
     (let (nd, s) = nds;
          nd = ether_setup nd;
          nd = nd\<lparr>flags := flags nd OR IFF_NOARP K\<rparr>;
          nd = nd\<lparr>features := features nd OR NETIF_F_HW_CSUM K\<rparr>
      in do {
           e \<leftarrow> pv;
           let s = upd_priv e (plock_update (\<lambda>_. False)) s;
           let s = upd_priv e (pnetdev_update (\<lambda>_. Some d)) s;
           Some (nd, s)
         })"

section \<open>The header\<close>

text \<open>
  \<^verbatim>\<open>skb_push\<close> takes the header's room from the front of the buffer and stops the kernel when there is
  too little. An address that is NULL is replaced by the interface's own.
\<close>

definition snull_header :: "u8 list \<Rightarrow> u16 \<Rightarrow> u8 list option \<Rightarrow> u8 list option \<Rightarrow> nat \<times> u8 list \<Rightarrow> (nat \<times> u8 list) option" where
  "snull_header dev_addr type daddr saddr skb =
     (let (headroom, data) = skb;
          h_source = (case saddr of None \<Rightarrow> dev_addr | Some a \<Rightarrow> a);
          h_dest = (case daddr of None \<Rightarrow> dev_addr | Some a \<Rightarrow> a)
      in if headroom < ETH_HLEN then None
         else do {
           b \<leftarrow> idx h_dest 5;
           let h_dest = h_dest[5 := b XOR 1];
           let h_proto = [ucast (drop_bit 8 type), ucast type];
           Some (headroom - ETH_HLEN, take 6 h_dest @ take 6 h_source @ h_proto @ data)
         })"

section \<open>Packet lists on the heap\<close>

primrec hlist :: "(addr \<rightharpoonup> snull_packet) \<Rightarrow> addr option \<Rightarrow> addr list \<Rightarrow> bool" where
  "hlist h q [] \<longleftrightarrow> q = None"
| "hlist h q (p # ps) \<longleftrightarrow> q = Some p \<and> (\<exists>k. h p = Some k \<and> hlist h (pnext k) ps)"

lemma hlist_None [simp]: "hlist h None ps \<longleftrightarrow> ps = []"
  by (cases ps) simp_all

lemma hlist_Some: "hlist h (Some p) ps \<longleftrightarrow> (\<exists>qs k. ps = p # qs \<and> h p = Some k \<and> hlist h (pnext k) qs)"
  by (cases ps) auto

lemma hlist_cong: "(\<And>p. p \<in> set ps \<Longrightarrow> map_option pnext (h' p) = map_option pnext (h p)) \<Longrightarrow> hlist h' q ps = hlist h q ps"
proof (induction ps arbitrary: q)
  case (Cons p ps)
  from Cons.prems [of p] have "map_option pnext (h' p) = map_option pnext (h p)" by simp
  moreover have "hlist h' r ps = hlist h r ps" for r using Cons by simp
  ultimately show ?case by (cases "h p"; cases "h' p") auto
qed simp

lemma hlist_upd [simp]: "p \<notin> set ps \<Longrightarrow> hlist (h(p := k)) q ps = hlist h q ps"
  by (rule hlist_cong) auto

lemma hlist_dom: "hlist h q ps \<Longrightarrow> set ps \<subseteq> dom h"
  by (induction ps arbitrary: q) auto

lemma hlist_unique: "hlist h q ps \<Longrightarrow> hlist h q qs \<Longrightarrow> ps = qs"
proof (induction ps arbitrary: q qs)
  case Nil
  then show ?case by simp
next
  case (Cons p ps)
  then show ?case by (cases qs) auto
qed

end
