(* ===== verification/Snull_Props.thy ===== *)
theory Snull_Props
  imports Snull
begin

text \<open>
  The packet pool and the receive queue of \<^verbatim>\<open>snull.c\<close> are both stacks of heap cells: the contract of a
  stack with ownership is stated once, as the locale \<open>lifo\<close>, and interpreted on both.
\<close>

section \<open>Stacks that take over their elements\<close>

primrec for_each :: "('a \<Rightarrow> 's \<Rightarrow> 's option) \<Rightarrow> 'a list \<Rightarrow> 's \<Rightarrow> 's option" where
  "for_each push [] s = Some s"
| "for_each push (x # xs) s = push x s \<bind> for_each push xs"

primrec pop_all :: "('s \<Rightarrow> ('a option \<times> 's) option) \<Rightarrow> nat \<Rightarrow> 's \<Rightarrow> ('a list \<times> 's) option" where
  "pop_all pop 0 s = Some ([], s)"
| "pop_all pop (Suc n) s = do {
     (x, s) \<leftarrow> pop s;
     (case x of
        None \<Rightarrow> Some ([], s)
      | Some x \<Rightarrow> do { (xs, s) \<leftarrow> pop_all pop n s; Some (x # xs, s) })
   }"

text \<open>
  \<open>repr s xs own\<close>: the stack holds \<open>xs\<close>, the top first, and the caller owns the elements \<open>own\<close>. Pushing
  hands an element over, popping hands it back.
\<close>

locale lifo =
  fixes repr :: "'s \<Rightarrow> 'a list \<Rightarrow> 'a list \<Rightarrow> bool"
    and push :: "'a \<Rightarrow> 's \<Rightarrow> 's option" and pop :: "'s \<Rightarrow> ('a option \<times> 's) option"
  assumes push_top: "repr s xs (x # own) \<Longrightarrow> \<exists>s'. push x s = Some s' \<and> repr s' (x # xs) own"
    and pop_top: "repr s (x # xs) own \<Longrightarrow> \<exists>s'. pop s = Some (Some x, s') \<and> repr s' xs (x # own)"
begin

lemma pushes_rev:
  "repr s xs (ys @ own) \<Longrightarrow> \<exists>s'. for_each push ys s = Some s' \<and> repr s' (rev ys @ xs) own"
proof (induction ys arbitrary: s xs)
  case (Cons y ys)
  from push_top [of s xs y "ys @ own"] Cons.prems obtain s1 where
    "push y s = Some s1" "repr s1 (y # xs) (ys @ own)" by auto
  with Cons.IH [of s1 "y # xs"] show ?case by simp
qed simp

lemma pop_all_top:
  "repr s (xs @ ys) own \<Longrightarrow> \<exists>s'. pop_all pop (length xs) s = Some (xs, s') \<and> repr s' ys (rev xs @ own)"
proof (induction xs arbitrary: s own)
  case (Cons x xs)
  from pop_top [of s x "xs @ ys" own] Cons.prems obtain s1 where
    "pop s = Some (Some x, s1)" "repr s1 (xs @ ys) (x # own)" by auto
  with Cons.IH [of s1 "x # own"] show ?case by auto
qed simp

text \<open>What is pushed comes back in reverse order, and the stack is as before.\<close>

lemma push_pop_reverses:
  assumes "repr s xs (ys @ own)"
  shows "\<exists>s1 s2. for_each push ys s = Some s1 \<and> pop_all pop (length ys) s1 = Some (rev ys, s2)
    \<and> repr s2 xs (ys @ own)"
  using pushes_rev [OF assms] pop_all_top [of _ "rev ys" xs own] by fastforce

end

section \<open>The receive queue\<close>

lemmas snull_defs = spin_lock_irqsave_def spin_unlock_irqrestore_def upd_priv_def set_next_def Let_def

definition rxq_repr :: "sn \<Rightarrow> snull \<Rightarrow> addr list \<Rightarrow> addr list \<Rightarrow> bool" where
  "rxq_repr d s qs own \<longleftrightarrow> \<not> plock (priv s d) \<and> hlist (heap s) (rx_queue (priv s d)) qs
     \<and> distinct (qs @ own) \<and> set own \<subseteq> dom (heap s)"

interpretation rxq: lifo "rxq_repr d" "snull_enqueue_buf d" "snull_dequeue_buf d" for d
proof unfold_locales
  show "\<exists>s'. snull_enqueue_buf d p s = Some s' \<and> rxq_repr d s' (p # qs) own"
    if "rxq_repr d s qs (p # own)" for s qs p own
    using that by (auto simp: rxq_repr_def snull_enqueue_buf_def snull_defs)
  show "\<exists>s'. snull_dequeue_buf d s = Some (Some p, s') \<and> rxq_repr d s' qs (p # own)"
    if "rxq_repr d s (p # qs) own" for s qs p own
    using that hlist_dom [of "heap s" _ qs] by (auto simp: rxq_repr_def snull_dequeue_buf_def snull_defs)
qed

section \<open>The pool\<close>

definition pool_repr :: "sn \<Rightarrow> snull \<Rightarrow> addr list \<Rightarrow> addr list \<Rightarrow> bool" where
  "pool_repr d s ps own \<longleftrightarrow> \<not> plock (priv s d) \<and> hlist (heap s) (ppool (priv s d)) ps
     \<and> distinct (ps @ own) \<and> (\<forall>p \<in> set (ps @ own). map_option pdev (heap s p) = Some d)"

interpretation pool: lifo "pool_repr d" snull_release_buffer "snull_get_tx_buffer d" for d
proof unfold_locales
  show "\<exists>s'. snull_release_buffer p s = Some s' \<and> pool_repr d s' (p # ps) own"
    if "pool_repr d s ps (p # own)" for s ps p own
    using that by (auto simp: pool_repr_def snull_release_buffer_def snull_defs)
  show "\<exists>s'. snull_get_tx_buffer d s = Some (Some p, s') \<and> pool_repr d s' ps (p # own)"
    if "pool_repr d s (p # ps) own" for s ps p own
    using that by (auto simp: pool_repr_def snull_get_tx_buffer_def snull_defs)
qed

text \<open>Memory that \<open>kmalloc\<close> returns is not in use.\<close>

definition kmalloc_fresh :: "kmalloc \<Rightarrow> bool" where
  "kmalloc_fresh kmalloc \<longleftrightarrow> (\<forall>s p m. kmalloc s = Some (p, m) \<longrightarrow> heap s p = None)"

lemma setup_pool_loop_spec:
  assumes fresh: "kmalloc_fresh kmalloc"
    and "hlist (heap s) (ppool (priv s d)) ps" "distinct ps"
  shows "\<exists>new. hlist (heap (setup_pool_loop kmalloc d n s)) (ppool (priv (setup_pool_loop kmalloc d n s) d)) (new @ ps)
    \<and> distinct (new @ ps) \<and> set new \<inter> dom (heap s) = {} \<and> length new \<le> n
    \<and> heap (setup_pool_loop kmalloc d n s) |` (- set new) = heap s
    \<and> (\<forall>p \<in> set new. map_option pdev (heap (setup_pool_loop kmalloc d n s) p) = Some d)
    \<and> ((\<forall>s. kmalloc s \<noteq> None) \<longrightarrow> length new = n)"
  using assms(2,3)
proof (induction n arbitrary: s ps)
  case 0
  then show ?case by (intro exI [of _ "[]"]) simp
next
  case (Suc n)
  show ?case
  proof (cases "kmalloc s")
    case None
    then show ?thesis using Suc.prems by (intro exI [of _ "[]"]) (auto intro: exI [of _ s])
  next
    case (Some a)
    obtain p m where a: "a = (p, m)" by fastforce
    let ?k = "m\<lparr>pdev := d, pnext := ppool (priv s d)\<rparr>"
    let ?s = "upd_priv d (ppool_update (\<lambda>_. Some p)) (s\<lparr>heap := (heap s)(p \<mapsto> ?k)\<rparr>)"
    from fresh Some a have p: "heap s p = None" by (simp add: kmalloc_fresh_def)
    with hlist_dom [OF Suc.prems(1)] have np: "p \<notin> set ps" by blast
    have "hlist (heap ?s) (ppool (priv ?s d)) (p # ps)" "distinct (p # ps)"
      using Suc.prems np by (simp_all add: upd_priv_def)
    from Suc.IH [OF this] obtain new where
      new: "hlist (heap (setup_pool_loop kmalloc d n ?s)) (ppool (priv (setup_pool_loop kmalloc d n ?s) d)) (new @ p # ps)"
        "distinct (new @ p # ps)" "set new \<inter> dom (heap ?s) = {}" "length new \<le> n"
        "heap (setup_pool_loop kmalloc d n ?s) |` (- set new) = heap ?s"
        "\<forall>q \<in> set new. map_option pdev (heap (setup_pool_loop kmalloc d n ?s) q) = Some d"
        "(\<forall>s. kmalloc s \<noteq> None) \<longrightarrow> length new = n" by blast
    have run: "setup_pool_loop kmalloc d (Suc n) s = setup_pool_loop kmalloc d n ?s"
      using Some a by (simp add: Let_def)
    have hp: "heap (setup_pool_loop kmalloc d n ?s) p = Some ?k"
      using fun_cong [OF new(5), of p] new(2) by (simp add: upd_priv_def restrict_map_def)
    have "heap (setup_pool_loop kmalloc d n ?s) |` (- set (new @ [p])) = heap s"
    proof
      fix q
      show "(heap (setup_pool_loop kmalloc d n ?s) |` (- set (new @ [p]))) q = heap s q"
        using fun_cong [OF new(5), of q] p new(3) by (auto simp: upd_priv_def restrict_map_def split: if_splits)
    qed
    with new hp p show ?thesis unfolding run
      by (intro exI [of _ "new @ [p]"]) (auto simp: upd_priv_def)
  qed
qed

lemma teardown_pool_spec:
  assumes "hlist (heap s) (ppool (priv s d)) ps" "distinct ps"
  shows "\<exists>s'. snull_teardown_pool d s = Some s' \<and> heap s' = heap s |` (- set ps)
    \<and> ppool (priv s' d) = None"
  using assms
proof (induction ps arbitrary: s)
  case Nil
  then show ?case by (subst snull_teardown_pool.simps) (simp add: restrict_map_def)
next
  case (Cons p ps)
  then obtain k where k: "ppool (priv s d) = Some p" "heap s p = Some k" "hlist (heap s) (pnext k) ps" "p \<notin> set ps"
    by auto
  let ?s = "(upd_priv d (ppool_update (\<lambda>_. pnext k)) s)\<lparr>heap := (heap s)(p := None)\<rparr>"
  have "hlist (heap ?s) (ppool (priv ?s d)) ps" "distinct ps" using Cons.prems k by (simp_all add: upd_priv_def)
  from Cons.IH [OF this] obtain s' where s': "snull_teardown_pool d ?s = Some s'"
    "heap s' = heap ?s |` (- set ps)" "ppool (priv s' d) = None" by blast
  have "snull_teardown_pool d s = Some s'" using k s'(1) by (subst snull_teardown_pool.simps) simp
  moreover have "heap s' = heap s |` (- set (p # ps))"
    using s'(2) by (auto simp: restrict_map_def fun_eq_iff)
  ultimately show ?case using s'(3) by blast
qed

section \<open>Properties\<close>

text \<open>
  C34. Setting up a pool makes a list of at most \<^verbatim>\<open>pool_size\<close> new, distinct packets of the interface,
  exactly as many when memory does not run out; tearing it down terminates, frees exactly these
  packets and leaves the memory as it was before.
\<close>

theorem snull_pool_roundtrip:
  assumes "kmalloc_fresh kmalloc"
  shows "\<exists>ps s'. hlist (heap (snull_setup_pool kmalloc pool_size d s)) (ppool (priv (snull_setup_pool kmalloc pool_size d s) d)) ps
    \<and> distinct ps \<and> set ps \<inter> dom (heap s) = {} \<and> length ps \<le> nat pool_size
    \<and> ((\<forall>s. kmalloc s \<noteq> None) \<longrightarrow> length ps = nat pool_size)
    \<and> (\<forall>p \<in> set ps. map_option pdev (heap (snull_setup_pool kmalloc pool_size d s) p) = Some d)
    \<and> snull_teardown_pool d (snull_setup_pool kmalloc pool_size d s) = Some s'
    \<and> heap s' = heap s \<and> ppool (priv s' d) = None"
proof -
  let ?s = "upd_priv d (ppool_update (\<lambda>_. None)) s"
  let ?t = "snull_setup_pool kmalloc pool_size d s"
  have "hlist (heap ?s) (ppool (priv ?s d)) []" "distinct ([] :: addr list)" "heap ?s = heap s"
    by (simp_all add: upd_priv_def)
  with setup_pool_loop_spec [OF assms, of ?s d "[]" "nat pool_size"] obtain ps where
    ps: "hlist (heap ?t) (ppool (priv ?t d)) ps" "distinct ps" "set ps \<inter> dom (heap s) = {}" "length ps \<le> nat pool_size"
      "heap ?t |` (- set ps) = heap s" "\<forall>p \<in> set ps. map_option pdev (heap ?t p) = Some d"
      "(\<forall>s. kmalloc s \<noteq> None) \<longrightarrow> length ps = nat pool_size"
    by (auto simp: snull_setup_pool_def)
  from teardown_pool_spec [OF ps(1,2)] obtain s' where
    "snull_teardown_pool d ?t = Some s'" "heap s' = heap ?t |` (- set ps)" "ppool (priv s' d) = None" by blast
  with ps show ?thesis by auto
qed

text \<open>Two interfaces with empty pools, and an allocator that hands out the addresses 0, 1, 2, and then fails.\<close>

definition sn_empty :: snull where
  "sn_empty = \<lparr>heap = \<lambda>_. None, priv = \<lambda>_. \<lparr>pstats = \<lparr>sn_rx_packets = 0, sn_tx_packets = 0, sn_rx_bytes = 0,
     sn_tx_bytes = 0, sn_rx_dropped = 0\<rparr>, status = 0, ppool = None, rx_queue = None, tx_packetlen = 0, tx_packetdata = [],
     pskb = None, plock = False, pnetdev = None\<rparr>\<rparr>"

definition three :: kmalloc where
  "three s = (case filter (\<lambda>p. heap s p = None) [0, 1, 2] of [] \<Rightarrow> None
     | p # _ \<Rightarrow> Some (p, \<lparr>pnext = None, pdev = Sn0, datalen = 0,
         pdata = replicate ETH_DATA_LEN 0\<rparr>))"

lemma three_fresh: "kmalloc_fresh three"
  by (auto simp: kmalloc_fresh_def three_def split: if_splits)

theorem snull_pool_roundtrip_witness:
  "\<exists>ps s'. hlist (heap (snull_setup_pool three 8 Sn1 sn_empty)) (ppool (priv (snull_setup_pool three 8 Sn1 sn_empty) Sn1)) ps
    \<and> distinct ps \<and> length ps \<le> 8 \<and> snull_teardown_pool Sn1 (snull_setup_pool three 8 Sn1 sn_empty) = Some s'
    \<and> heap s' = heap sn_empty \<and> ppool (priv s' Sn1) = None"
  using snull_pool_roundtrip [OF three_fresh, of 8 Sn1 sn_empty] by auto

text \<open>
  C35. The receive queue is last in, first out: packets put into an empty queue one after the other
  come out in reverse order (the comment in the source admits it), each exactly once, and leave the
  queue empty and the lock free.
\<close>

theorem rx_queue_reverses:
  assumes "\<not> plock (priv s d)" "rx_queue (priv s d) = None" "distinct ps" "set ps \<subseteq> dom (heap s)"
  shows "\<exists>s1 s2. for_each (snull_enqueue_buf d) ps s = Some s1
    \<and> pop_all (snull_dequeue_buf d) (length ps) s1 = Some (rev ps, s2)
    \<and> rx_queue (priv s2 d) = None \<and> \<not> plock (priv s2 d)"
proof -
  have "rxq_repr d s [] (ps @ [])" using assms by (simp add: rxq_repr_def)
  from rxq.push_pop_reverses [OF this] show ?thesis by (auto simp: rxq_repr_def)
qed

definition sn_three :: snull where "sn_three = snull_setup_pool three 3 Sn0 sn_empty"

lemma sn_three_simps:
  "plock (priv sn_three d) = False" "rx_queue (priv sn_three d) = None"
  "ppool (priv sn_three Sn0) = Some 2" "dom (heap sn_three) = {0, 1, 2}"
  "hlist (heap sn_three) (Some 2) [2, 1, 0]" "map_option pdev (heap sn_three 0) = Some Sn0"
  "map_option pdev (heap sn_three 1) = Some Sn0" "map_option pdev (heap sn_three 2) = Some Sn0"
  by (auto simp: sn_three_def snull_setup_pool_def sn_empty_def three_def upd_priv_def eval_nat_numeral Let_def split: if_splits)


theorem rx_queue_reverses_witness:
  "\<exists>s1 s2. for_each (snull_enqueue_buf Sn1) [0, 1, 2] sn_three = Some s1
    \<and> pop_all (snull_dequeue_buf Sn1) 3 s1 = Some ([2, 1, 0], s2)
    \<and> rx_queue (priv s2 Sn1) = None \<and> \<not> plock (priv s2 Sn1)"
  using rx_queue_reverses [of sn_three Sn1 "[0, 1, 2]"] by (simp add: sn_three_simps eval_nat_numeral)

lemma mangle_total:
  assumes "34 \<le> length buf"
  shows "\<exists>buf'. mangle csum buf = Some buf' \<and> length buf' = length buf
    \<and> buf' ! 28 = buf ! 28 XOR 1 \<and> buf' ! 32 = buf ! 32 XOR 1
    \<and> (\<forall>i < length buf. i \<notin> {24, 25, 28, 32} \<longrightarrow> buf' ! i = buf ! i)"
  using assms by (auto simp: mangle_def set_byte_def ETH_HLEN_def nth_list_update split: prod.splits)

lemma hw_tx_takes:
  assumes "pool_repr d s (p # ps) own" "34 \<le> length buf" "length buf \<le> ETH_DATA_LEN"
  shows "\<exists>s'. snull_hw_tx csum buf d s = Some s' \<and> pool_repr d s' ps (p # own)
    \<and> status (priv s' d) = status (priv s d) OR SNULL_TX_INTR \<and> tx_packetlen (priv s' d) = length buf
    \<and> pstats (priv s' d) = pstats (priv s d)"
proof -
  from mangle_total [OF assms(2)] obtain b where b: "mangle csum buf = Some b" "length b = length buf" by blast
  from assms(1) obtain k where k: "ppool (priv s d) = Some p" "heap s p = Some k" "pdev k = d" "\<not> plock (priv s d)"
    by (auto simp: pool_repr_def)
  let ?v = "(priv s d)\<lparr>ppool := pnext k, plock := False, tx_packetlen := length b, tx_packetdata := b,
    status := status (priv s d) OR SNULL_TX_INTR\<rparr>"
  let ?s = "s\<lparr>heap := (heap s)(p \<mapsto> k\<lparr>datalen := length b, pdata := b @ drop (length b) (pdata k)\<rparr>), priv := (priv s)(d := ?v)\<rparr>"
  have "snull_hw_tx csum buf d s = Some ?s"
    using b k assms(3) by (simp add: snull_hw_tx_def snull_get_tx_buffer_def snull_defs)
  moreover have "pool_repr d ?s ps (p # own)"
    using assms(1) k by (auto simp: pool_repr_def)
  ultimately show ?thesis using b(2) by simp
qed

text \<open>The interrupt that follows a transmission counts it and clears the status.\<close>

definition counted :: "u8 list \<Rightarrow> sn_stats \<Rightarrow> sn_stats" where
  "counted buf st = st\<lparr>sn_tx_packets := sn_tx_packets st + 1, sn_tx_bytes := sn_tx_bytes st + of_nat (length buf)\<rparr>"

lemma interrupt_counts:
  assumes "\<not> plock (priv s d)" "status (priv s d) = SNULL_TX_INTR" "tx_packetlen (priv s d) = length buf"
  shows "snull_regular_interrupt ett skb (Some d) s =
    Some (upd_priv d (\<lambda>v. v\<lparr>status := 0, pstats := counted buf (pstats v), plock := False\<rparr>) s)"
  using assms
  by (simp add: snull_regular_interrupt_def snull_defs tx_over_def upd_stats_def counted_def SNULL_RX_INTR_def SNULL_TX_INTR_def)







text \<open>
  The status is one bit: the interrupt after a burst of transmissions counts one of them, the last.
\<close>

lemma burst_counts_once:
  assumes "pool_repr d s (p # q # ps) own" "status (priv s d) = 0"
    and "\<forall>b \<in> {buf1, buf2}. 34 \<le> length b \<and> length b \<le> ETH_DATA_LEN"
  shows "\<exists>s1 s2 s3. snull_hw_tx csum buf1 d s = Some s1 \<and> snull_hw_tx csum buf2 d s1 = Some s2
    \<and> snull_regular_interrupt ett skb (Some d) s2 = Some s3 \<and> pstats (priv s3 d) = counted buf2 (pstats (priv s d))"
proof -
  from hw_tx_takes [OF assms(1), of buf1 csum] assms(2,3) obtain s1 where
    s1: "snull_hw_tx csum buf1 d s = Some s1" "pool_repr d s1 (q # ps) (p # own)" "status (priv s1 d) = SNULL_TX_INTR"
      "pstats (priv s1 d) = pstats (priv s d)" by auto
  from hw_tx_takes [OF s1(2), of buf2 csum] assms(3) s1(3,4) obtain s2 where
    s2: "snull_hw_tx csum buf2 d s1 = Some s2" "pool_repr d s2 ps (q # p # own)" "status (priv s2 d) = SNULL_TX_INTR"
      "tx_packetlen (priv s2 d) = length buf2" "pstats (priv s2 d) = pstats (priv s d)" by auto
  from s2(2) have "\<not> plock (priv s2 d)" by (simp add: pool_repr_def)
  from interrupt_counts [OF this s2(3,4), of ett skb] s1(1) s2(1,5) show ?thesis by (auto simp: upd_priv_def)
qed

end
