(* ===== verification/Snull_Machine.thy ===== *)
theory Snull_Machine
  imports Snull_Props Machines
begin

text \<open>
  The operations of the \<^verbatim>\<open>snull\<close> interfaces as events on the shared packet memory, in any order. The
  typing of that memory is their common invariant: four lists, the pools and the receive queues of
  both interfaces, that end and have no packet in common, where a pool holds only packets of its
  interface (a receive queue may hold packets of either).
\<close>

section \<open>Well-formed packet memory\<close>

definition sn_lists :: "snull \<Rightarrow> (sn \<Rightarrow> addr list) \<Rightarrow> (sn \<Rightarrow> addr list) \<Rightarrow> bool" where
  "sn_lists s pl ql \<longleftrightarrow>
     (\<forall>d. hlist (heap s) (ppool (priv s d)) (pl d) \<and> hlist (heap s) (rx_queue (priv s d)) (ql d)
        \<and> (\<forall>p \<in> set (pl d). map_option pdev (heap s p) = Some d))
     \<and> distinct (pl Sn0 @ pl Sn1 @ ql Sn0 @ ql Sn1)"

text \<open>Buffers have their size; the length of a packet outside the pools is that of a frame that fits.\<close>

definition sn_cells :: "snull \<Rightarrow> addr set \<Rightarrow> bool" where
  "sn_cells s pool \<longleftrightarrow> (\<forall>p k. heap s p = Some k \<longrightarrow>
     length (pdata k) = ETH_DATA_LEN \<and> (p \<notin> pool \<longrightarrow> datalen k \<le> ETH_DATA_LEN))"

definition sn_inv :: "snull \<Rightarrow> bool" where
  "sn_inv s \<longleftrightarrow> (\<exists>pl ql. sn_lists s pl ql \<and> sn_cells s (set (pl Sn0) \<union> set (pl Sn1)))"

lemma sn_invI: "sn_lists s pl ql \<Longrightarrow> sn_cells s (set (pl Sn0) \<union> set (pl Sn1)) \<Longrightarrow> sn_inv s"
  unfolding sn_inv_def by blast

section \<open>Events\<close>

text \<open>
  The operations of both files that touch the packet memory or the private data, apart from the setup
  and the teardown of the pools, which stand at the beginning and at the end. A caller hands over only
  packets that it owns, that is, that are in none of the lists, and frames with complete headers that
  fit a packet; an event that would wait for a lock is not enabled, and \<open>Tx\<close> and \<open>Init\<close>, the transmit
  routine and the setup function, are called with their unset pointer at the private data of one of
  the interfaces. \<open>Poll\<close> has the contents of its two unset variables as arguments; it is enabled when it
  makes no round, or one round with a packet that its caller owns: that more rounds destroy the pool
  is lemma \<open>poll_breaks_pool\<close> below.
\<close>

datatype sn_event = HwTx sn "u8 list" | Enqueue sn addr | Dequeue sn | Release addr
  | Interrupt "sk_buff option" "sn option" | NapiInterrupt "sn option" | Tx "sn option" nat sn
  | Poll addr "sk_buff option" sn nat
  | Init net_consts "ether_dev \<Rightarrow> ether_dev" ether_dev "sn option" sn

definition in_lists :: "addr \<Rightarrow> snull \<Rightarrow> bool" where
  "in_lists p s \<longleftrightarrow> (\<exists>d ps. p \<in> set ps \<and> (hlist (heap s) (ppool (priv s d)) ps \<or> hlist (heap s) (rx_queue (priv s d)) ps))"

fun sn_enabled :: "sn_event \<Rightarrow> snull \<Rightarrow> bool" where
  "sn_enabled (HwTx d buf) s \<longleftrightarrow> \<not> plock (priv s d) \<and> 34 \<le> length buf \<and> length buf \<le> ETH_DATA_LEN"
| "sn_enabled (Enqueue d p) s \<longleftrightarrow> \<not> plock (priv s d) \<and> p \<in> dom (heap s) \<and> \<not> in_lists p s"
| "sn_enabled (Dequeue d) s \<longleftrightarrow> \<not> plock (priv s d)"
| "sn_enabled (Release p) s \<longleftrightarrow> (\<exists>k. heap s p = Some k \<and> \<not> plock (priv s (pdev k))) \<and> \<not> in_lists p s"
| "sn_enabled (Interrupt skb dev) s \<longleftrightarrow> (\<forall>d. dev = Some d \<longrightarrow> \<not> plock (priv s d))"
| "sn_enabled (NapiInterrupt dev) s \<longleftrightarrow> (\<forall>d. dev = Some d \<longrightarrow> \<not> plock (priv s d))"
| "sn_enabled (Tx pv skb d) s \<longleftrightarrow> pv \<noteq> None"
| "sn_enabled (Poll pkt skb d budget) s \<longleftrightarrow>
     budget = 0 \<or> rx_queue (priv s d) = None \<and> \<not> plock (priv s d)
     \<or> rx_queue (priv s d) \<noteq> None \<and> budget = 1
       \<and> (\<exists>k. heap s pkt = Some k \<and> \<not> plock (priv s (pdev k))) \<and> \<not> in_lists pkt s"
| "sn_enabled (Init K es nd pv d) s \<longleftrightarrow> pv \<noteq> None"

fun sn_step :: "(u8 list \<Rightarrow> nat \<Rightarrow> u8 \<times> u8) \<Rightarrow> eth_type_trans \<Rightarrow> sn_event \<Rightarrow> snull \<Rightarrow> snull option" where
  "sn_step csum ett (HwTx d buf) s = snull_hw_tx csum buf d s"
| "sn_step csum ett (Enqueue d p) s = snull_enqueue_buf d p s"
| "sn_step csum ett (Dequeue d) s = map_option snd (snull_dequeue_buf d s)"
| "sn_step csum ett (Release p) s = snull_release_buffer p s"
| "sn_step csum ett (Interrupt skb dev) s = snull_regular_interrupt ett skb dev s"
| "sn_step csum ett (NapiInterrupt dev) s = snull_napi_interrupt dev s"
| "sn_step csum ett (Tx pv skb d) s = map_option snd (snull_tx pv skb d s)"
| "sn_step csum ett (Poll pkt skb d budget) s = map_option snd (snull_poll ett pkt skb d budget s)"
| "sn_step csum ett (Init K es nd pv d) s = map_option snd (snull_init K es pv d (nd, s))"

section \<open>Preservation\<close>

text \<open>What the invariant says does not depend on the fields that an event changes besides the lists.\<close>

lemma sn_lists_cong:
  assumes "\<And>p. map_option pnext (heap s' p) = map_option pnext (heap s p)"
    and "\<And>p. map_option pdev (heap s' p) = map_option pdev (heap s p)"
    and "\<And>d. ppool (priv s' d) = ppool (priv s d)" "\<And>d. rx_queue (priv s' d) = rx_queue (priv s d)"
  shows "sn_lists s' pl ql = sn_lists s pl ql"
proof -
  have "hlist (heap s') q xs = hlist (heap s) q xs" for q xs by (rule hlist_cong) (rule assms(1))
  with assms(2-4) show ?thesis by (simp add: sn_lists_def)
qed

lemma sn_inv_cong:
  assumes "heap s' = heap s" "\<And>d. ppool (priv s' d) = ppool (priv s d)" "\<And>d. rx_queue (priv s' d) = rx_queue (priv s d)"
    and "sn_inv s"
  shows "sn_inv s'"
proof -
  have "sn_lists s' pl ql = sn_lists s pl ql" for pl ql by (rule sn_lists_cong) (simp_all add: assms(1-3))
  with assms(1,4) show ?thesis by (simp add: sn_inv_def sn_cells_def)
qed

lemma sn_lists_dom:
  assumes "sn_lists s pl ql"
  shows "set (pl d) \<subseteq> dom (heap s)" "set (ql d) \<subseteq> dom (heap s)"
proof -
  have "hlist (heap s) (ppool (priv s d)) (pl d)" "hlist (heap s) (rx_queue (priv s d)) (ql d)"
    using assms by (simp_all add: sn_lists_def)
  from this [THEN hlist_dom] show "set (pl d) \<subseteq> dom (heap s)" "set (ql d) \<subseteq> dom (heap s)" .
qed

lemma sn_lists_in: "sn_lists s pl ql \<Longrightarrow> p \<in> set (pl d) \<or> p \<in> set (ql d) \<Longrightarrow> in_lists p s"
  by (auto simp: sn_lists_def in_lists_def)

lemma sn_lists_dequeue:
  assumes "sn_lists s pl ql" "rx_queue (priv s d) = Some p"
  obtains k qs where "heap s p = Some k" "ql d = p # qs"
    "sn_lists (upd_priv d (rx_queue_update (\<lambda>_. pnext k)) s) pl (ql(d := qs))"
proof -
  from assms(1) have "hlist (heap s) (rx_queue (priv s d)) (ql d)" by (simp add: sn_lists_def)
  with assms(2) obtain k qs where "heap s p = Some k" "ql d = p # qs" "hlist (heap s) (pnext k) qs"
    by (auto simp: hlist_Some)
  moreover from this assms(1) have "sn_lists (upd_priv d (rx_queue_update (\<lambda>_. pnext k)) s) pl (ql(d := qs))"
    by (cases d) (auto simp: sn_lists_def upd_priv_def)
  ultimately show ?thesis using that by blast
qed

lemma dequeue_inv:
  assumes "sn_inv s" "rx_queue (priv s d) = Some p"
  obtains k where "heap s p = Some k" "sn_inv (upd_priv d (rx_queue_update (\<lambda>_. pnext k)) s)"
proof -
  from assms(1) obtain pl ql where l: "sn_lists s pl ql" "sn_cells s (set (pl Sn0) \<union> set (pl Sn1))"
    by (auto simp: sn_inv_def)
  from sn_lists_dequeue [OF l(1) assms(2)] obtain k qs where
    k: "heap s p = Some k" "sn_lists (upd_priv d (rx_queue_update (\<lambda>_. pnext k)) s) pl (ql(d := qs))" .
  from k(2) l(2) have "sn_inv (upd_priv d (rx_queue_update (\<lambda>_. pnext k)) s)"
    by (intro sn_invI [of _ pl]) (simp_all add: sn_cells_def upd_priv_def)
  with k(1) show ?thesis by (rule that)
qed

lemma push_inv:
  assumes "sn_inv s" "heap s p = Some k" "\<not> in_lists p s"
  shows "sn_inv (upd_priv d (rx_queue_update (\<lambda>_. Some p)) (s\<lparr>heap := (heap s)(p \<mapsto> k\<lparr>pnext := rx_queue (priv s d)\<rparr>)\<rparr>))"
    and "sn_inv (upd_priv (pdev k) (ppool_update (\<lambda>_. Some p))
      (s\<lparr>heap := (heap s)(p \<mapsto> k\<lparr>pnext := ppool (priv s (pdev k))\<rparr>)\<rparr>))"
proof -
  from assms(1) obtain pl ql where l: "sn_lists s pl ql" "sn_cells s (set (pl Sn0) \<union> set (pl Sn1))"
    by (auto simp: sn_inv_def)
  have new: "p \<notin> set (pl e)" "p \<notin> set (ql e)" for e using sn_lists_in [OF l(1)] assms(3) by blast+
  show "sn_inv (upd_priv d (rx_queue_update (\<lambda>_. Some p)) (s\<lparr>heap := (heap s)(p \<mapsto> k\<lparr>pnext := rx_queue (priv s d)\<rparr>)\<rparr>))"
  proof (rule sn_invI)
    show "sn_lists (upd_priv d (rx_queue_update (\<lambda>_. Some p)) (s\<lparr>heap := (heap s)(p \<mapsto> k\<lparr>pnext := rx_queue (priv s d)\<rparr>)\<rparr>))
        pl (ql(d := p # ql d))"
      using l(1) new by (cases d) (auto simp: sn_lists_def upd_priv_def)
  qed (use l(2) new assms(2) in \<open>auto simp: sn_cells_def upd_priv_def\<close>)
  show "sn_inv (upd_priv (pdev k) (ppool_update (\<lambda>_. Some p))
      (s\<lparr>heap := (heap s)(p \<mapsto> k\<lparr>pnext := ppool (priv s (pdev k))\<rparr>)\<rparr>))"
  proof (rule sn_invI)
    show "sn_lists (upd_priv (pdev k) (ppool_update (\<lambda>_. Some p))
        (s\<lparr>heap := (heap s)(p \<mapsto> k\<lparr>pnext := ppool (priv s (pdev k))\<rparr>)\<rparr>)) (pl(pdev k := p # pl (pdev k))) ql"
      using l(1) new by (cases "pdev k") (auto simp: sn_lists_def upd_priv_def)
  qed (use l(2) new assms(2) in \<open>cases "pdev k"; auto simp: sn_cells_def upd_priv_def\<close>)
qed

lemma pool_head_inv:
  assumes "sn_inv s" "ppool (priv s d) = Some p" "length buf \<le> ETH_DATA_LEN"
  obtains k where "heap s p = Some k"
    "sn_inv (upd_priv d (ppool_update (\<lambda>_. pnext k))
       (s\<lparr>heap := (heap s)(p \<mapsto> k\<lparr>datalen := length buf, pdata := buf @ drop (length buf) (pdata k)\<rparr>)\<rparr>))"
proof -
  from assms(1) obtain pl ql where l: "sn_lists s pl ql" "sn_cells s (set (pl Sn0) \<union> set (pl Sn1))"
    by (auto simp: sn_inv_def)
  from l(1) have "hlist (heap s) (ppool (priv s d)) (pl d)" by (simp add: sn_lists_def)
  with assms(2) obtain k ps where k: "heap s p = Some k" "pl d = p # ps" "hlist (heap s) (pnext k) ps"
    by (auto simp: hlist_Some)
  let ?h = "(heap s)(p \<mapsto> k\<lparr>datalen := length buf, pdata := buf @ drop (length buf) (pdata k)\<rparr>)"
  have "sn_lists (upd_priv d (ppool_update (\<lambda>_. pnext k)) s) (pl(d := ps)) ql"
    using l(1) k by (cases d) (auto simp: sn_lists_def upd_priv_def)
  then have "sn_lists (upd_priv d (ppool_update (\<lambda>_. pnext k)) (s\<lparr>heap := ?h\<rparr>)) (pl(d := ps)) ql"
    by (rule iffD1 [OF sn_lists_cong, rotated -1]) (simp_all add: upd_priv_def k(1))
  moreover have "sn_cells (upd_priv d (ppool_update (\<lambda>_. pnext k)) (s\<lparr>heap := ?h\<rparr>)) (set ((pl(d := ps)) Sn0) \<union> set ((pl(d := ps)) Sn1))"
    using l(2) k(1,2) assms(3) by (cases d) (auto simp: sn_cells_def upd_priv_def)
  ultimately have "sn_inv (upd_priv d (ppool_update (\<lambda>_. pnext k)) (s\<lparr>heap := ?h\<rparr>))" by (rule sn_invI)
  with k(1) show ?thesis by (rule that)
qed

section \<open>Every event keeps the memory well-formed\<close>

lemma sn_inv_upd:
  assumes "sn_inv s" "\<And>v. ppool (f v) = ppool v" "\<And>v. rx_queue (f v) = rx_queue v"
  shows "sn_inv (upd_priv d f s)"
  by (rule sn_inv_cong [OF _ _ _ assms(1)]) (simp_all add: upd_priv_def assms(2,3))

lemma unlock_inv: "sn_inv s \<Longrightarrow> sn_inv (spin_unlock_irqrestore d s)"
  unfolding spin_unlock_irqrestore_def by (rule sn_inv_upd) simp_all

lemma lock_inv:
  assumes "sn_inv s" "\<not> plock (priv s d)"
  obtains s' where "spin_lock_irqsave d s = Some s'" "sn_inv s'" "heap s' = heap s"
    "\<forall>p. in_lists p s' = in_lists p s"
proof
  let ?s = "upd_priv d (plock_update (\<lambda>_. True)) s"
  show "spin_lock_irqsave d s = Some ?s" using assms(2) by (simp add: spin_lock_irqsave_def)
  show "sn_inv ?s" using assms(1) by (rule sn_inv_upd) simp_all
  have "ppool (priv ?s e) = ppool (priv s e)" "rx_queue (priv ?s e) = rx_queue (priv s e)" for e
    by (simp_all add: upd_priv_def)
  then show "\<forall>p. in_lists p ?s = in_lists p s" by (simp add: in_lists_def upd_priv_def)
qed (simp add: upd_priv_def)

lemma stats_inv: "sn_inv s \<Longrightarrow> sn_inv (upd_stats d f s)"
  unfolding upd_stats_def by (rule sn_inv_upd) simp_all

lemma tx_over_inv: "sn_inv s \<Longrightarrow> sn_inv (tx_over d s)"
  unfolding tx_over_def by (rule stats_inv)

lemma hw_tx_inv:
  assumes "sn_inv s" "\<not> plock (priv s d)" "34 \<le> length buf" "length buf \<le> ETH_DATA_LEN"
  shows "\<exists>s'. snull_hw_tx csum buf d s = Some s' \<and> sn_inv s'"
proof -
  from mangle_total [OF assms(3)] obtain b where b: "mangle csum buf = Some b" "length b = length buf" by blast
  show ?thesis
  proof (cases "ppool (priv s d)")
    case None
    let ?s = "upd_priv d (plock_update (\<lambda>_. True)) s"
    have "sn_inv ?s" using assms(1) by (rule sn_inv_upd) simp_all
    moreover have "snull_hw_tx csum buf d s = Some ?s"
      using None assms(2) b(1) by (simp add: snull_hw_tx_def snull_get_tx_buffer_def snull_defs)
    ultimately show ?thesis by blast
  next
    case (Some p)
    from assms(4) b(2) have "length b \<le> ETH_DATA_LEN" by simp
    from pool_head_inv [OF assms(1) Some this] obtain k where k: "heap s p = Some k"
      "sn_inv (upd_priv d (ppool_update (\<lambda>_. pnext k))
         (s\<lparr>heap := (heap s)(p \<mapsto> k\<lparr>datalen := length b, pdata := b @ drop (length b) (pdata k)\<rparr>)\<rparr>))" .
    let ?s = "upd_priv d (\<lambda>v. v\<lparr>plock := False, tx_packetlen := length b, tx_packetdata := b, status := status v OR SNULL_TX_INTR\<rparr>)
      (upd_priv d (ppool_update (\<lambda>_. pnext k))
         (s\<lparr>heap := (heap s)(p \<mapsto> k\<lparr>datalen := length b, pdata := b @ drop (length b) (pdata k)\<rparr>)\<rparr>))"
    have "sn_inv ?s" using k(2) by (rule sn_inv_upd) simp_all
    moreover have "snull_hw_tx csum buf d s = Some ?s"
      using Some k(1) assms(2,4) b by (simp add: snull_hw_tx_def snull_get_tx_buffer_def snull_defs)
    ultimately show ?thesis by blast
  qed
qed

lemma enqueue_inv:
  assumes "sn_inv s" "\<not> plock (priv s d)" "heap s p = Some k" "\<not> in_lists p s"
  shows "\<exists>s'. snull_enqueue_buf d p s = Some s' \<and> sn_inv s'"
proof -
  from lock_inv [OF assms(1,2)] obtain s1 where s1: "spin_lock_irqsave d s = Some s1" "sn_inv s1" "heap s1 = heap s"
    "\<forall>p. in_lists p s1 = in_lists p s" .
  from push_inv(1) [OF s1(2), of p k d] assms(3,4) s1 show ?thesis
    by (auto simp: snull_enqueue_buf_def set_next_def upd_priv_def intro: unlock_inv)
qed

lemma release_inv:
  assumes "sn_inv s" "heap s p = Some k" "\<not> plock (priv s (pdev k))" "\<not> in_lists p s"
  shows "\<exists>s'. snull_release_buffer p s = Some s' \<and> sn_inv s'"
proof -
  from lock_inv [OF assms(1,3)] obtain s1 where s1: "spin_lock_irqsave (pdev k) s = Some s1" "sn_inv s1" "heap s1 = heap s"
    "\<forall>p. in_lists p s1 = in_lists p s" .
  from push_inv(2) [OF s1(2), of p k] assms(2,4) s1 show ?thesis
    by (auto simp: snull_release_buffer_def set_next_def upd_priv_def Let_def intro: unlock_inv)
qed

lemma dequeue_buf_inv:
  assumes "sn_inv s" "\<not> plock (priv s d)"
  shows "\<exists>r s'. snull_dequeue_buf d s = Some (r, s') \<and> sn_inv s'"
proof -
  from lock_inv [OF assms] obtain s1 where s1: "spin_lock_irqsave d s = Some s1" "sn_inv s1" .
  show ?thesis
  proof (cases "rx_queue (priv s1 d)")
    case None
    with s1 show ?thesis by (auto simp: snull_dequeue_buf_def intro: unlock_inv)
  next
    case (Some p)
    from dequeue_inv [OF s1(2) Some] obtain k where
      "heap s1 p = Some k" "sn_inv (upd_priv d (rx_queue_update (\<lambda>_. pnext k)) s1)" .
    with s1(1) Some show ?thesis by (auto simp: snull_dequeue_buf_def intro: unlock_inv)
  qed
qed

lemma snull_rx_inv:
  assumes "sn_inv s" "heap s p = Some k"
  shows "\<exists>r s'. snull_rx ett skb d p s = Some (r, s') \<and> sn_inv s'"
  using assms by (cases skb) (auto simp: snull_rx_def stats_inv split: prod.split)

lemma regular_interrupt_inv:
  assumes "sn_inv s" "\<not> plock (priv s d)"
  shows "\<exists>s'. snull_regular_interrupt ett skb (Some d) s = Some s' \<and> sn_inv s'"
proof -
  from lock_inv [OF assms] obtain s1 where s1: "spin_lock_irqsave d s = Some s1" "sn_inv s1" .
  let ?u = "upd_priv d (status_update (\<lambda>_. 0)) s1" and ?w = "status (priv s1 d)"
  have u: "sn_inv ?u" using s1(2) by (rule sn_inv_upd) simp_all
  have fin: "\<exists>s'. Some (spin_unlock_irqrestore d (if b then tx_over d v else v)) = Some s' \<and> sn_inv s'" if "sn_inv v" for b v
    using that by (simp add: unlock_inv tx_over_inv)
  show ?thesis
  proof (cases "?w AND SNULL_RX_INTR = 0 \<or> rx_queue (priv ?u d) = None")
    case True
    then have "snull_regular_interrupt ett skb (Some d) s =
        Some (spin_unlock_irqrestore d (if ?w AND SNULL_TX_INTR \<noteq> 0 then tx_over d ?u else ?u))"
      using s1(1) by (auto simp: snull_regular_interrupt_def Let_def)
    with fin [OF u] show ?thesis by simp
  next
    case False
    then obtain p where p: "?w AND SNULL_RX_INTR \<noteq> 0" "rx_queue (priv ?u d) = Some p" by auto
    from dequeue_inv [OF u p(2)] obtain k where
      k: "heap ?u p = Some k" "sn_inv (upd_priv d (rx_queue_update (\<lambda>_. pnext k)) ?u)" .
    let ?v = "upd_priv d (rx_queue_update (\<lambda>_. pnext k)) ?u"
    have "heap ?v p = Some k" using k(1) by (simp add: upd_priv_def)
    from snull_rx_inv [OF k(2) this, of ett skb d] obtain r v where v: "snull_rx ett skb d p ?v = Some (r, v)" "sn_inv v" by blast
    then have "snull_regular_interrupt ett skb (Some d) s =
        Some (spin_unlock_irqrestore d (if ?w AND SNULL_TX_INTR \<noteq> 0 then tx_over d v else v))"
      using s1(1) p k(1) by (simp add: snull_regular_interrupt_def Let_def)
    with fin [OF v(2)] show ?thesis by simp
  qed
qed

lemma napi_interrupt_inv:
  assumes "sn_inv s" "\<not> plock (priv s d)"
  shows "\<exists>s'. snull_napi_interrupt (Some d) s = Some s' \<and> sn_inv s'"
proof -
  from lock_inv [OF assms] obtain s1 where s1: "spin_lock_irqsave d s = Some s1" "sn_inv s1" .
  let ?u = "upd_priv d (status_update (\<lambda>_. 0)) s1"
  have "sn_inv ?u" using s1(2) by (rule sn_inv_upd) simp_all
  moreover have "sn_inv (upd_priv d (pskb_update (\<lambda>_. None)) v)" if "sn_inv v" for v
    using that by (rule sn_inv_upd) simp_all
  ultimately show ?thesis
    using s1(1) by (auto simp: snull_napi_interrupt_def Let_def intro!: unlock_inv tx_over_inv)
qed

lemma tx_inv:
  assumes "sn_inv s" "pv \<noteq> None"
  shows "\<exists>s'. snull_tx pv skb d s = Some (0, s') \<and> sn_inv s'"
proof -
  from assms(2) obtain e where "pv = Some e" by blast
  moreover have "sn_inv (upd_priv e (pskb_update (\<lambda>_. Some skb)) s)"
    by (rule sn_inv_cong [OF _ _ _ assms(1)]) (simp_all add: upd_priv_def)
  ultimately show ?thesis by (simp add: snull_tx_def)
qed

lemma snull_poll_inv:
  assumes "sn_inv s" "sn_enabled (Poll pkt skb d budget) s"
  shows "\<exists>n s'. snull_poll ett pkt skb d budget s = Some (n, s') \<and> sn_inv s'"
proof -
  consider "budget = 0" | "budget \<noteq> 0" "rx_queue (priv s d) = None" "\<not> plock (priv s d)"
    | k where "rx_queue (priv s d) \<noteq> None" "budget = 1" "heap s pkt = Some k" "\<not> plock (priv s (pdev k))"
        "\<not> in_lists pkt s"
    using assms(2) by auto
  then show ?thesis
  proof cases
    case 1
    with assms(1) show ?thesis by (simp add: snull_poll_def)
  next
    case 2
    then obtain n where "budget = Suc n" by (cases budget) auto
    moreover from lock_inv [OF assms(1) 2(3)] obtain s1 where "spin_lock_irqsave d s = Some s1" "sn_inv s1" .
    ultimately show ?thesis using 2(2) by (simp add: snull_poll_def unlock_inv)
  next
    case (3 k)
    have rel: "\<exists>s'. snull_release_buffer pkt (upd_stats d f s) = Some s' \<and> sn_inv s'" for f
    proof (rule release_inv [OF stats_inv [OF assms(1)]])
      have "ppool (priv (upd_stats d f s) e) = ppool (priv s e)"
        "rx_queue (priv (upd_stats d f s) e) = rx_queue (priv s e)" "heap (upd_stats d f s) = heap s" for e
        by (simp_all add: upd_stats_def upd_priv_def)
      with 3(5) show "\<not> in_lists pkt (upd_stats d f s)" by (simp add: in_lists_def)
    qed (use 3(3,4) in \<open>auto simp: upd_stats_def upd_priv_def\<close>)
    have b: "budget = Suc 0" using 3(2) by simp
    show ?thesis
    proof (cases skb)
      case None
      with rel [of "\<lambda>st. st\<lparr>sn_rx_dropped := sn_rx_dropped st + 1\<rparr>"] 3(1) show ?thesis
        unfolding b by (auto simp: snull_poll_def)
    next
      case (Some x)
      with rel [of "\<lambda>st. st\<lparr>sn_rx_packets := sn_rx_packets st + 1,
          sn_rx_bytes := sn_rx_bytes st + of_nat (datalen k)\<rparr>"] 3(1,3) show ?thesis
        unfolding b by (auto simp: snull_poll_def split: prod.split)
    qed
  qed
qed

text \<open>The setup frees the lock of whichever private data the pointer names, also one that is held.\<close>

lemma snull_init_ok:
  "\<exists>nd' s'. snull_init K es (Some e) d (nd, s) = Some (nd', s') \<and> flags nd' AND IFF_NOARP K = IFF_NOARP K
    \<and> \<not> plock (priv s' e) \<and> pnetdev (priv s' e) = Some d \<and> (sn_inv s \<longrightarrow> sn_inv s')"
proof -
  let ?s = "upd_priv e (pnetdev_update (\<lambda>_. Some d)) (upd_priv e (plock_update (\<lambda>_. False)) s)"
  have "sn_inv ?s" if "sn_inv s" by (rule sn_inv_cong [OF _ _ _ that]) (simp_all add: upd_priv_def)
  moreover have "(w OR v) AND v = v" for w v :: u32 by (rule bit_word_eqI) (auto simp: bit_simps)
  ultimately show ?thesis by (simp add: snull_init_def Let_def upd_priv_def)
qed

interpretation snm: machine sn_inv sn_enabled "sn_step csum ett" for csum ett
proof unfold_locales
  show "\<exists>s'. sn_step csum ett ev s = Some s' \<and> sn_inv s'" if inv: "sn_inv s" and en: "sn_enabled ev s" for ev s
  proof (cases ev)
    case (HwTx d buf)
    with hw_tx_inv [OF inv, of d buf csum] en show ?thesis by simp
  next
    case (Enqueue d p)
    with enqueue_inv [OF inv, of d p] en show ?thesis by auto
  next
    case (Dequeue d)
    with dequeue_buf_inv [OF inv, of d] en show ?thesis by auto
  next
    case (Release p)
    with release_inv [OF inv, of p] en show ?thesis by auto
  next
    case (Interrupt skb dev)
    with regular_interrupt_inv [OF inv, of _ ett skb] inv en show ?thesis
      by (cases dev) (auto simp: snull_regular_interrupt_def [of _ _ None])
  next
    case (NapiInterrupt dev)
    with napi_interrupt_inv [OF inv] inv en show ?thesis
      by (cases dev) (auto simp: snull_napi_interrupt_def [of None])
  next
    case (Tx pv skb d)
    with tx_inv [OF inv, of pv skb d] en show ?thesis by auto
  next
    case (Poll pkt skb d budget)
    with snull_poll_inv [OF inv en [unfolded Poll], of ett] show ?thesis by auto
  next
    case (Init K es nd pv d)
    with en obtain e where "pv = Some e" by auto
    with snull_init_ok [of K es e d nd s] inv Init show ?thesis by auto
  qed
qed

section \<open>The initial state\<close>

text \<open>The memory that \<open>kmalloc\<close> returns for a packet has room for its data.\<close>

definition kmalloc_sized :: "kmalloc \<Rightarrow> bool" where
  "kmalloc_sized kmalloc \<longleftrightarrow> (\<forall>s p m. kmalloc s = Some (p, m) \<longrightarrow> length (pdata m) = ETH_DATA_LEN)"

lemma setup_pool_frame:
  "rx_queue (priv (setup_pool_loop kmalloc d n s) e) = rx_queue (priv s e)"
  "e \<noteq> d \<Longrightarrow> ppool (priv (setup_pool_loop kmalloc d n s) e) = ppool (priv s e)"
  "plock (priv (setup_pool_loop kmalloc d n s) e) = plock (priv s e)"
  by (induction n arbitrary: s) (auto simp: upd_priv_def Let_def split: option.split)

lemma setup_pool_sized:
  assumes "kmalloc_sized kmalloc" "\<forall>k \<in> ran (heap s). length (pdata k) = ETH_DATA_LEN"
  shows "\<forall>k \<in> ran (heap (setup_pool_loop kmalloc d n s)). length (pdata k) = ETH_DATA_LEN"
  using assms(2)
proof (induction n arbitrary: s)
  case (Suc n)
  show ?case
  proof (cases "kmalloc s")
    case (Some a)
    obtain p m where a: "a = (p, m)" by fastforce
    let ?s = "upd_priv d (ppool_update (\<lambda>_. Some p)) (s\<lparr>heap := (heap s)(p \<mapsto> m\<lparr>pdev := d, pnext := ppool (priv s d)\<rparr>)\<rparr>)"
    have "length (pdata m) = ETH_DATA_LEN" using assms(1) Some a by (auto simp: kmalloc_sized_def)
    with Suc.prems have "\<forall>k \<in> ran (heap ?s). length (pdata k) = ETH_DATA_LEN"
      by (auto simp: upd_priv_def ran_def split: if_splits)
    from Suc.IH [OF this] Some a show ?thesis by (simp add: Let_def)
  qed (use Suc.prems in simp)
qed simp

text \<open>A pool that is set up consists of new packets; what was in memory before is untouched.\<close>

lemma setup_pool_new:
  assumes "kmalloc_fresh kmalloc"
  obtains ps where
    "hlist (heap (snull_setup_pool kmalloc n d s)) (ppool (priv (snull_setup_pool kmalloc n d s) d)) ps" "distinct ps"
    "set ps \<inter> dom (heap s) = {}" "\<And>p. p \<notin> set ps \<Longrightarrow> heap (snull_setup_pool kmalloc n d s) p = heap s p"
    "\<forall>p \<in> set ps. map_option pdev (heap (snull_setup_pool kmalloc n d s) p) = Some d"
proof -
  let ?s = "upd_priv d (ppool_update (\<lambda>_. None)) s"
  let ?t = "snull_setup_pool kmalloc n d s"
  have "heap ?s = heap s" "ppool (priv ?s d) = None" by (simp_all add: upd_priv_def)
  with setup_pool_loop_spec [OF assms, of ?s d "[]" "nat n"] obtain ps where
    ps: "hlist (heap ?t) (ppool (priv ?t d)) ps" "distinct ps" "set ps \<inter> dom (heap s) = {}"
      "heap ?t |` (- set ps) = heap s" "\<forall>p \<in> set ps. map_option pdev (heap ?t p) = Some d"
    by (auto simp: snull_setup_pool_def)
  have "heap ?t p = heap s p" if "p \<notin> set ps" for p using fun_cong [OF ps(4), of p] that by simp
  from ps(1-3) this ps(5) show ?thesis by (rule that)
qed

lemma setup_pool_others:
  "rx_queue (priv (snull_setup_pool kmalloc n d s) e) = rx_queue (priv s e)"
  "e \<noteq> d \<Longrightarrow> ppool (priv (snull_setup_pool kmalloc n d s) e) = ppool (priv s e)"
  "plock (priv (snull_setup_pool kmalloc n d s) e) = plock (priv s e)"
  by (simp_all add: snull_setup_pool_def setup_pool_frame upd_priv_def)

lemma setup_pool_lists:
  assumes l: "sn_lists s pl ql"
    and t: "hlist (heap t) (ppool (priv t d)) ps" "distinct ps" "set ps \<inter> dom (heap s) = {}"
      "\<And>p. p \<notin> set ps \<Longrightarrow> heap t p = heap s p" "\<forall>p \<in> set ps. map_option pdev (heap t p) = Some d"
      "\<And>e. rx_queue (priv t e) = rx_queue (priv s e)" "\<And>e. e \<noteq> d \<Longrightarrow> ppool (priv t e) = ppool (priv s e)"
  shows "sn_lists t (pl(d := ps)) ql"
proof -
  have disj: "set (pl e) \<inter> set ps = {}" "set (ql e) \<inter> set ps = {}" for e
    using sn_lists_dom [OF l] t(3) by blast+
  have same: "heap t p = heap s p" if "p \<in> set xs" "set xs \<inter> set ps = {}" for p xs using t(4) that by blast
  have keep: "hlist (heap t) q xs = hlist (heap s) q xs" if "set xs \<inter> set ps = {}" for q xs
    by (rule hlist_cong) (simp only: same [OF _ that])
  have "hlist (heap t) (rx_queue (priv t e)) (ql e)" for e
    using l keep [OF disj(2)] t(6) by (simp add: sn_lists_def)
  moreover have "hlist (heap t) (ppool (priv t e)) ((pl(d := ps)) e)
      \<and> (\<forall>p \<in> set ((pl(d := ps)) e). map_option pdev (heap t p) = Some e)" for e
    using l t(1,5) t(7) [of e] keep [OF disj(1) [of e]] same [OF _ disj(1)] by (cases "e = d") (simp_all add: sn_lists_def)
  moreover have "distinct ((pl(d := ps)) Sn0 @ (pl(d := ps)) Sn1 @ ql Sn0 @ ql Sn1)"
    using l t(2) disj by (cases d) (auto simp: sn_lists_def)
  ultimately show ?thesis by (simp only: sn_lists_def simp_thms) blast
qed

lemma setup_pool_inv:
  assumes K: "kmalloc_fresh kmalloc" "kmalloc_sized kmalloc"
    and l: "sn_lists s pl ql" "sn_cells s (set (pl Sn0) \<union> set (pl Sn1))" "pl d = []"
  shows "\<exists>ps. sn_lists (snull_setup_pool kmalloc n d s) (pl(d := ps)) ql
    \<and> sn_cells (snull_setup_pool kmalloc n d s) (set ((pl(d := ps)) Sn0) \<union> set ((pl(d := ps)) Sn1))"
proof -
  let ?t = "snull_setup_pool kmalloc n d s"
  from setup_pool_new [OF K(1), of n d s] obtain ps where
    ps: "hlist (heap ?t) (ppool (priv ?t d)) ps" "distinct ps" "set ps \<inter> dom (heap s) = {}"
      "\<And>p. p \<notin> set ps \<Longrightarrow> heap ?t p = heap s p" "\<forall>p \<in> set ps. map_option pdev (heap ?t p) = Some d" by blast
  have "\<forall>k \<in> ran (heap (upd_priv d (ppool_update (\<lambda>_. None)) s)). length (pdata k) = ETH_DATA_LEN"
    using l(2) by (auto simp: sn_cells_def ran_def upd_priv_def)
  from setup_pool_sized [OF K(2) this] have "\<forall>k \<in> ran (heap ?t). length (pdata k) = ETH_DATA_LEN"
    unfolding snull_setup_pool_def .
  moreover have "datalen k \<le> ETH_DATA_LEN" if "heap ?t p = Some k" "p \<notin> set ((pl(d := ps)) Sn0) \<union> set ((pl(d := ps)) Sn1)" for p k
  proof -
    have "p \<notin> set ps" "p \<notin> set (pl Sn0) \<union> set (pl Sn1)" using that(2) l(3) by (cases d; simp)+
    with ps(4) [of p] that(1) l(2) show ?thesis by (simp add: sn_cells_def)
  qed
  ultimately have "sn_cells ?t (set ((pl(d := ps)) Sn0) \<union> set ((pl(d := ps)) Sn1))"
    unfolding sn_cells_def by (blast intro: ranI)
  with setup_pool_lists [OF l(1) ps setup_pool_others(1,2)] show ?thesis by blast
qed

section \<open>The poll function with a budget of two or more\<close>

text \<open>
  The poll function of \<^verbatim>\<open>snull_napi.c\<close> takes nothing off the queue. When its packet variable happens to
  hold the address of a packet of the interface, it uses up the whole budget as long as
  the queue is not empty, and releases that packet once in each round: from the second round on
  the packet is its own successor, and the pool is no list any more.
\<close>

lemma release_again:
  assumes "heap s p = Some k" "pdev k = d" "\<not> plock (priv s d)"
  shows "\<exists>s'. snull_release_buffer p s = Some s' \<and> heap s' p = Some (k\<lparr>pnext := ppool (priv s d)\<rparr>)
    \<and> ppool (priv s' d) = Some p \<and> rx_queue (priv s' d) = rx_queue (priv s d) \<and> \<not> plock (priv s' d)"
  using assms by (simp add: snull_release_buffer_def snull_defs)

lemma poll_loop_spins:
  assumes "heap s p = Some k" "pdev k = d" "\<not> plock (priv s d)" "rx_queue (priv s d) \<noteq> None"
  shows "\<exists>s' k'. snull_poll_loop ett p d n m None s = Some (m + n, s') \<and> heap s' p = Some k' \<and> pdev k' = d
    \<and> rx_queue (priv s' d) = rx_queue (priv s d) \<and> \<not> plock (priv s' d)
    \<and> (2 \<le> n \<longrightarrow> ppool (priv s' d) = Some p \<and> pnext k' = Some p)
    \<and> (1 \<le> n \<and> ppool (priv s d) = Some p \<longrightarrow> ppool (priv s' d) = Some p \<and> pnext k' = Some p)"
  using assms
proof (induction n arbitrary: m s k)
  case (Suc n)
  let ?t = "upd_stats d (\<lambda>st. st\<lparr>sn_rx_dropped := sn_rx_dropped st + 1\<rparr>) s"
  have t: "heap ?t p = Some k" "\<not> plock (priv ?t d)" "ppool (priv ?t d) = ppool (priv s d)" "rx_queue (priv ?t d) = rx_queue (priv s d)"
    using Suc.prems by (simp_all add: upd_stats_def upd_priv_def)
  from release_again [OF t(1) Suc.prems(2) t(2)] t(3,4) obtain u where
    u: "snull_release_buffer p ?t = Some u" "heap u p = Some (k\<lparr>pnext := ppool (priv s d)\<rparr>)" "ppool (priv u d) = Some p"
      "rx_queue (priv u d) = rx_queue (priv s d)" "\<not> plock (priv u d)" by auto
  have "snull_poll_loop ett p d (Suc n) m None s = snull_poll_loop ett p d n (m + 1) None u"
    using Suc.prems(4) u(1) by auto
  moreover note Suc.IH [OF u(2) _ u(5), of "m + 1"]
  ultimately show ?case using Suc.prems u by (cases n) fastforce+
qed auto

lemma no_list_through_loop: "h p = Some k \<Longrightarrow> pnext k = Some p \<Longrightarrow> \<not> hlist h (Some p) ps"
  by (induction ps) auto

lemma poll_breaks_pool:
  assumes "heap s p = Some k" "pdev k = d" "\<not> plock (priv s d)" "rx_queue (priv s d) \<noteq> None" "2 \<le> budget"
  shows "\<exists>s'. snull_poll ett p None d budget s = Some (budget, s') \<and> rx_queue (priv s' d) = rx_queue (priv s d)
    \<and> (\<forall>ps. \<not> hlist (heap s') (ppool (priv s' d)) ps)"
proof -
  from poll_loop_spins [OF assms(1-4), of ett budget 0] assms(5) obtain s' k' where
    s': "snull_poll_loop ett p d budget 0 None s = Some (budget, s')" "heap s' p = Some k'" "pnext k' = Some p"
      "ppool (priv s' d) = Some p" "rx_queue (priv s' d) = rx_queue (priv s d)" by auto
  with no_list_through_loop [of "heap s'", OF s'(2,3)] show ?thesis by (simp add: snull_poll_def)
qed

section \<open>Results\<close>

lemma sn_empty_lists: "sn_lists sn_empty (\<lambda>_. []) (\<lambda>_. [])" "sn_cells sn_empty A"
  by (simp_all add: sn_lists_def sn_cells_def sn_empty_def)

lemma setup_both_inv:
  assumes "kmalloc_fresh kmalloc" "kmalloc_sized kmalloc"
  shows "sn_inv (snull_setup_pool kmalloc n Sn1 (snull_setup_pool kmalloc n Sn0 sn_empty))"
proof -
  from setup_pool_inv [OF assms sn_empty_lists refl, of n Sn0] obtain ps where
    "sn_lists (snull_setup_pool kmalloc n Sn0 sn_empty) ((\<lambda>_. [])(Sn0 := ps)) (\<lambda>_. [])"
    "sn_cells (snull_setup_pool kmalloc n Sn0 sn_empty) (set (((\<lambda>_. [])(Sn0 := ps)) Sn0) \<union> set (((\<lambda>_. [])(Sn0 := ps)) Sn1))"
    by blast
  from setup_pool_inv [OF assms this, of Sn1 n] show ?thesis by (auto intro: sn_invI)
qed

lemma teardown_any:
  assumes "sn_inv s"
  shows "\<exists>s'. snull_teardown_pool d s = Some s' \<and> ppool (priv s' d) = None"
proof -
  from assms obtain pl ql where "sn_lists s pl ql" by (auto simp: sn_inv_def)
  then have "hlist (heap s) (ppool (priv s d)) (pl d)" "distinct (pl d)"
    by (cases d; simp add: sn_lists_def)+
  from teardown_pool_spec [OF this] show ?thesis by blast
qed

text \<open>
  C30. The packet memory of the two interfaces stays well-formed. From two freshly set up pools on,
  after any sequence of the operations of both files whose callers keep the conditions of \<open>sn_enabled\<close>,
  the pools and the receive queues are four lists that end and have no packet in common, a pool holds only
  packets of its interface, every packet has a buffer of full size, and outside the pools the
  length of a packet does not exceed it; no such operation faults, and the teardown of either pool
  terminates. The conditions: the lock taken is free; a frame to transmit has 34 to 1500 bytes; a packet handed over
  is in no list; the unset private data pointer of \<^verbatim>\<open>snull_tx\<close> and \<^verbatim>\<open>snull_init\<close> happens to be valid; and \<^verbatim>\<open>snull_poll\<close>
  makes at most one round. The last one is needed: with a budget of two or more and packets waiting,
  polling with a stale packet pointer of the interface turns its pool into a cycle.
\<close>

theorem snull_well_formed:
  assumes "kmalloc_fresh kmalloc" "kmalloc_sized kmalloc"
    and "reach sn_enabled (sn_step csum ett) (snull_setup_pool kmalloc n Sn1 (snull_setup_pool kmalloc n Sn0 sn_empty)) s"
  shows "(\<exists>pl ql. (\<forall>d. hlist (heap s) (ppool (priv s d)) (pl d) \<and> hlist (heap s) (rx_queue (priv s d)) (ql d)
         \<and> (\<forall>p \<in> set (pl d). map_option pdev (heap s p) = Some d))
       \<and> distinct (pl Sn0 @ pl Sn1 @ ql Sn0 @ ql Sn1)
       \<and> (\<forall>p k. heap s p = Some k \<longrightarrow> length (pdata k) = ETH_DATA_LEN
            \<and> (p \<notin> set (pl Sn0) \<union> set (pl Sn1) \<longrightarrow> datalen k \<le> ETH_DATA_LEN)))
    \<and> (\<forall>ev. sn_enabled ev s \<longrightarrow> sn_step csum ett ev s \<noteq> None)
    \<and> (\<forall>d. \<exists>s'. snull_teardown_pool d s = Some s' \<and> ppool (priv s' d) = None)
    \<and> (\<forall>p k d budget. heap s p = Some k \<and> pdev k = d \<and> \<not> plock (priv s d) \<and> rx_queue (priv s d) \<noteq> None
         \<and> 2 \<le> budget
         \<longrightarrow> (\<exists>s'. snull_poll ett p None d budget s = Some (budget, s')
               \<and> (\<forall>ps. \<not> hlist (heap s') (ppool (priv s' d)) ps)))"
proof -
  note start = setup_both_inv [OF assms(1,2), of n]
  have inv: "sn_inv s" by (rule snm.reach_inv [OF assms(3) start])
  have "\<exists>pl ql. (\<forall>d. hlist (heap s) (ppool (priv s d)) (pl d) \<and> hlist (heap s) (rx_queue (priv s d)) (ql d)
         \<and> (\<forall>p \<in> set (pl d). map_option pdev (heap s p) = Some d))
       \<and> distinct (pl Sn0 @ pl Sn1 @ ql Sn0 @ ql Sn1)
       \<and> (\<forall>p k. heap s p = Some k \<longrightarrow> length (pdata k) = ETH_DATA_LEN
            \<and> (p \<notin> set (pl Sn0) \<union> set (pl Sn1) \<longrightarrow> datalen k \<le> ETH_DATA_LEN))"
    using inv unfolding sn_inv_def sn_lists_def sn_cells_def conj_assoc .
  moreover have "\<exists>s'. snull_poll ett p None d budget s = Some (budget, s')
      \<and> (\<forall>ps. \<not> hlist (heap s') (ppool (priv s' d)) ps)"
    if "heap s p = Some k" "pdev k = d" "\<not> plock (priv s d)" "rx_queue (priv s d) \<noteq> None" "2 \<le> budget" for p k d budget
    using poll_breaks_pool [OF that, of ett] by blast
  ultimately show ?thesis
    using snm.reach_no_fault [OF assms(3) start] teardown_any [OF inv] by (intro conjI allI impI) blast+
qed

lemma three_sized: "kmalloc_sized three"
  by (auto simp: kmalloc_sized_def three_def split: if_splits)

theorem snull_well_formed_witness:
  "\<exists>s. sn_step (\<lambda>_ _. (0, 0)) (\<lambda>_ b. (0, b)) (HwTx Sn0 (replicate 60 0))
         (snull_setup_pool three 3 Sn1 (snull_setup_pool three 3 Sn0 sn_empty)) = Some s
    \<and> (\<exists>s'. snull_teardown_pool Sn0 s = Some s' \<and> ppool (priv s' Sn0) = None)"
proof -
  let ?s = "snull_setup_pool three 3 Sn1 (snull_setup_pool three 3 Sn0 sn_empty)"
  have "plock (priv ?s Sn0) = plock (priv sn_empty Sn0)"
    by (simp only: setup_pool_others(3))
  then have "\<not> plock (priv ?s Sn0)" by (simp add: sn_empty_def)
  then have en: "sn_enabled (HwTx Sn0 (replicate 60 0)) ?s" by (simp add: ETH_DATA_LEN_def)
  note W = snull_well_formed [OF three_fresh three_sized, where n = 3 and csum = "\<lambda>_ _. (0, 0)" and ett = "\<lambda>_ b. (0, b)"]
  note no_fault = W [THEN conjunct2, THEN conjunct1, rule_format]
    and teardown = W [THEN conjunct2, THEN conjunct2, THEN conjunct1, rule_format]
  from no_fault [OF reach_start en] obtain s where
    s: "sn_step (\<lambda>_ _. (0, 0)) (\<lambda>_ b. (0, b)) (HwTx Sn0 (replicate 60 0)) ?s = Some s" by blast
  have "reach sn_enabled (sn_step (\<lambda>_ _. (0, 0)) (\<lambda>_ b. (0, b))) ?s s"
    using reach_start en s by (rule reach_step)
  from teardown [OF this, of Sn0] s show ?thesis by blast
qed

section \<open>The transmit routine\<close>

text \<open>
  As the file stands the transmit routine only remembers the packet: it requests no transmission, so that the
  interrupt that would free the packet finds nothing to do, and the next packet replaces the first, which is lost.
\<close>

lemma tx_not_sent:
  assumes "snull_tx pv skb d s = Some (r, s')"
  shows "r = 0 \<and> heap s' = heap s \<and> (\<forall>e. status (priv s' e) = status (priv s e))"
  using assms by (cases pv) (auto simp: snull_tx_def upd_priv_def)

lemma tx_forgets:
  assumes "snull_tx pv p d s = Some (r, s1)"
  shows "snull_tx pv q d s1 = snull_tx pv q d s"
  using assms by (cases pv) (auto simp: snull_tx_def upd_priv_def)

lemma tx_never_freed:
  assumes "snull_tx (Some e) skb d s = Some (r, s1)" "status (priv s e) = 0" "\<not> plock (priv s e)"
  shows "\<exists>s2. snull_napi_interrupt (Some e) s1 = Some s2 \<and> pskb (priv s2 e) = Some skb"
  using assms by (auto simp: snull_tx_def snull_napi_interrupt_def snull_defs)

text \<open>The module of \<^verbatim>\<open>snull.c\<close> does not load: nothing sets its device pointers.\<close>

lemma snull_does_not_load: "snull_init_module result False False = - ENOMEM"
  by (simp add: snull_init_module_def)

end
