(* ===== verification/Expt_Char.thy ===== *)
theory Expt_Char
  imports Char_Dev
begin

text \<open>
  \<^verbatim>\<open>Solutions/expt_drv_init_char.c\<close>: the PCI driver with a character device that reads the station
  address from the EEPROM. The file has one \<^verbatim>\<open>#endif\<close> too many (line 203) and is read without it.
  The statements behind its remaining TODO comments (deregistering the character device on removal,
  copying the address to the reader) are not there.
\<close>

section \<open>State\<close>

text \<open>The trace of the device, and whether its driver data is set.\<close>

record ic_dev =
  itr :: trace
  ic_drvdata :: bool

definition ic_put :: "res \<Rightarrow> ic_dev \<Rightarrow> ic_dev" where
  "ic_put r s = s\<lparr>itr := release r (itr s)\<rparr>"

section \<open>File operations\<close>

definition ic_open :: "ic_dev \<Rightarrow> int \<times> ic_dev" where "ic_open s = (0, s)"

definition ic_close :: "ic_dev \<Rightarrow> int \<times> ic_dev" where "ic_close s = (0, s)"

text \<open>A read returns how much it would have copied, and the file position.\<close>

definition ic_read :: "nat \<Rightarrow> nat \<Rightarrow> int \<times> nat" where
  "ic_read len off = (if off \<ge> 6 then (0, off) else (int (min len (6 - off)), off))"

section \<open>The EEPROM\<close>

definition EERD :: nat where "EERD = 0x14"

text \<open>The wait for the done bit has no bound: not returning is \<open>None\<close>.\<close>

partial_function (option) eeprom_wait :: "env \<Rightarrow> trace \<Rightarrow> trace option" where
  "eeprom_wait E t =
     (let (v, t) = REG_R32 E EERD t in if v AND push_bit 4 1 \<noteq> 0 then Some t else eeprom_wait E t)"

definition read_eeprom :: "env \<Rightarrow> u32 \<Rightarrow> trace \<Rightarrow> (u16 \<times> trace) option" where
  "read_eeprom E eaddr t = do {
     let t = REG_W32 (1 OR push_bit 8 eaddr) EERD t;
     t \<leftarrow> eeprom_wait E t;
     let (temp, t) = REG_R32 E EERD t;
     Some (ucast (drop_bit 16 temp), t)
   }"

section \<open>Registration, probe and remove\<close>

definition ic_char_register_dev :: "env \<Rightarrow> ic_dev \<Rightarrow> int \<times> ic_dev" where
  "ic_char_register_dev E s = (let (ret, t) = chrdev_register E (itr s) in (ret, s\<lparr>itr := t\<rparr>))"

definition ic_char_deregister_dev :: "ic_dev \<Rightarrow> ic_dev" where
  "ic_char_deregister_dev s = s\<lparr>itr := chrdev_unregister (itr s)\<rparr>"

definition ic_probe_mapped :: "env \<Rightarrow> ic_dev \<Rightarrow> (int \<times> ic_dev) option" where
  "ic_probe_mapped E s = do {
     let s = s\<lparr>ic_drvdata := True\<rparr>;
     (_, t) \<leftarrow> read_eeprom E 0 (itr s);
     (_, t) \<leftarrow> read_eeprom E 1 t;
     (_, t) \<leftarrow> read_eeprom E 2 t;
     let (retval, s) = ic_char_register_dev E (s\<lparr>itr := t\<rparr>);
     if retval \<noteq> 0 then
       Some (retval, ic_put PciDevice (ic_put Regions (ic_put RegMap (s\<lparr>ic_drvdata := False\<rparr>))))
     else Some (0, s)
   }"

definition ic_probe :: "env \<Rightarrow> ic_dev \<Rightarrow> (int \<times> ic_dev) option" where
  "ic_probe E s =
     (let (retval, t) = acquire E PciDevice (itr s); s = s\<lparr>itr := t\<rparr>
      in if retval \<noteq> 0 then Some (retval, s)
         else
           let (retval, t) = acquire E Regions (itr s); s = s\<lparr>itr := t\<rparr>
           in if retval \<noteq> 0 then Some (retval, ic_put PciDevice s)
              else
                let (null, t) = acquire E RegMap (itr s); s = s\<lparr>itr := t\<rparr>
                in if null \<noteq> 0 then Some (- ENODEV, ic_put PciDevice (ic_put Regions s))
                   else ic_probe_mapped E s)"

definition ic_remove :: "ic_dev \<Rightarrow> ic_dev option" where
  "ic_remove s =
     (if \<not> ic_drvdata s then None
      else Some (ic_put PciDevice (ic_put Regions (ic_put RegMap (s\<lparr>ic_drvdata := False\<rparr>)))))"

definition ic_pci_init :: "env \<Rightarrow> trace \<Rightarrow> int \<times> trace" where
  "ic_pci_init E t = acquire E PciDriver t"

definition ic_pci_exit :: "trace \<Rightarrow> trace" where
  "ic_pci_exit t = release PciDriver t"

section \<open>The EEPROM wait returns when the device answers\<close>

primrec poll_n :: "env \<Rightarrow> nat \<Rightarrow> trace \<Rightarrow> trace" where
  "poll_n E 0 t = t"
| "poll_n E (Suc n) t = poll_n E n (R32 EERD (ioread32 E t EERD) # t)"

text \<open>Asked again and again, the device sets the done bit sooner or later.\<close>

definition eeprom_answers :: "env \<Rightarrow> bool" where
  "eeprom_answers E \<longleftrightarrow> (\<forall>t. \<exists>n. ioread32 E (poll_n E n t) EERD AND push_bit 4 1 \<noteq> 0)"

lemma eeprom_wait_returns:
  assumes "ioread32 E (poll_n E n t) EERD AND push_bit 4 1 \<noteq> 0"
  shows "\<exists>u. eeprom_wait E t = Some u \<and> ledger u = ledger t"
  using assms
proof (induction n arbitrary: t)
  case 0
  then show ?case by (subst eeprom_wait.simps) (simp add: REG_defs Let_def trace_simps)
next
  case (Suc n)
  let ?t = "R32 EERD (ioread32 E t EERD) # t"
  from Suc.IH [of ?t] Suc.prems obtain u where "eeprom_wait E ?t = Some u" "ledger u = ledger t"
    by (auto simp: trace_simps)
  then show ?case by (subst eeprom_wait.simps) (simp add: REG_defs Let_def trace_simps)
qed

lemma read_eeprom_returns:
  assumes "eeprom_answers E"
  obtains v u where "read_eeprom E a t = Some (v, u)" "ledger u = ledger t"
proof -
  let ?t = "REG_W32 (1 OR push_bit 8 a) EERD t"
  from assms obtain n where "ioread32 E (poll_n E n ?t) EERD AND push_bit 4 1 \<noteq> 0"
    unfolding eeprom_answers_def by blast
  from eeprom_wait_returns [OF this] obtain u where "eeprom_wait E ?t = Some u" "ledger u = ledger t"
    by (auto simp: REG_defs trace_simps)
  then show thesis
    using that [of "ucast (drop_bit 16 (ioread32 E u EERD))" "R32 EERD (ioread32 E u EERD) # u"]
    by (simp add: read_eeprom_def REG_R32_def Let_def trace_simps)
qed

lemma ic_probe_mapped_spec:
  assumes "chrdev_codes_ok E" "eeprom_answers E" "held (itr s) = Some (RegMap # Regions # PciDevice # h)"
  shows "\<exists>r s'. ic_probe_mapped E s = Some (r, s') \<and>
    (if r = 0 then ic_drvdata s' \<and> held (itr s') = Some (chr_res @ RegMap # Regions # PciDevice # h)
     else \<not> ic_drvdata s' \<and> held (itr s') = Some h)"
proof -
  from read_eeprom_returns [OF assms(2), of 0 "itr s"] obtain v0 t0 where
    t0: "read_eeprom E 0 (itr s) = Some (v0, t0)" "ledger t0 = ledger (itr s)" .
  from read_eeprom_returns [OF assms(2), of 1 t0] obtain v1 t1 where
    t1: "read_eeprom E 1 t0 = Some (v1, t1)" "ledger t1 = ledger t0" .
  from read_eeprom_returns [OF assms(2), of 2 t1] obtain v2 t2 where
    t2: "read_eeprom E 2 t1 = Some (v2, t2)" "ledger t2 = ledger t1" .
  have "ledger t2 = ledger (itr s)" using t0(2) t1(2) t2(2) by simp
  from ledger_eqD(3) [OF this] assms(3) have "held t2 = Some (RegMap # Regions # PciDevice # h)" by simp
  from chrdev_register_spec [OF assms(1) this] obtain c u where
    u: "chrdev_register E t2 = (c, u)" "held u = Some (if c = 0 then chr_res @ RegMap # Regions # PciDevice # h
      else RegMap # Regions # PciDevice # h)" .
  have run: "ic_probe_mapped E s = Some (if c = 0 then (0, s\<lparr>ic_drvdata := True, itr := u\<rparr>)
      else (c, s\<lparr>ic_drvdata := False, itr := Put PciDevice # Put Regions # Put RegMap # u\<rparr>))"
    using t0(1) t1(1) t2(1) u(1)
    by (simp add: ic_probe_mapped_def ic_char_register_dev_def ic_put_def release_def Let_def)
  show ?thesis using run u(2) by (cases "c = 0") simp_all
qed

lemma ic_probe_spec:
  assumes "chrdev_codes_ok E" "eeprom_answers E" "held (itr s) = Some h" "\<not> ic_drvdata s"
  shows "\<exists>r s'. ic_probe E s = Some (r, s') \<and>
    (if r = 0 then ic_drvdata s' \<and> held (itr s') = Some (chr_res @ RegMap # Regions # PciDevice # h)
     else \<not> ic_drvdata s' \<and> held (itr s') = Some h)"
proof -
  let ?t1 = "Got PciDevice # itr s"
  let ?t2 = "Got Regions # ?t1"
  consider "grant E (itr s) PciDevice \<noteq> 0"
    | "grant E (itr s) PciDevice = 0" "grant E ?t1 Regions \<noteq> 0"
    | "grant E (itr s) PciDevice = 0" "grant E ?t1 Regions = 0" "grant E ?t2 RegMap \<noteq> 0"
    | (mapped) "grant E (itr s) PciDevice = 0" "grant E ?t1 Regions = 0" "grant E ?t2 RegMap = 0" by blast
  then show ?thesis
  proof cases
    case mapped
    then have "ic_probe E s = ic_probe_mapped E (s\<lparr>itr := Got RegMap # ?t2\<rparr>)"
      by (simp add: ic_probe_def acquire_def Let_def)
    then show ?thesis
      using assms ic_probe_mapped_spec [of E "s\<lparr>itr := Got RegMap # ?t2\<rparr>" h] by simp
  qed (use assms in \<open>simp_all add: ic_probe_def acquire_def Let_def ic_put_def release_def ENODEV_def\<close>)
qed

end
