(* ===== verification/Debug_Mods.thy ===== *)
theory Debug_Mods
  imports Char_Dev
begin

text \<open>
  The modules of \<^verbatim>\<open>Debugging\<close> that have behaviour of their own: the one-byte character device of
  \<^verbatim>\<open>buggy.c\<close>, the adder of \<^verbatim>\<open>debugfs1.c\<close>, the return probe of \<^verbatim>\<open>kretprobe.c\<close> that hides a fault of the
  former, the files of \<^verbatim>\<open>debugfs.c\<close> and \<^verbatim>\<open>debugfs2.c\<close>, the probe of \<^verbatim>\<open>kprobe.c\<close>, and the disk load generator \<^verbatim>\<open>PerfTool/io_app.c\<close>.
\<close>

section \<open>buggy.c\<close>

text \<open>The variable \<^verbatim>\<open>c\<close>, initially 'A', and the trace of the module.\<close>

record buggy =
  btr :: trace
  bchar :: u8

definition buggy_init :: buggy where "buggy_init = \<lparr>btr = [], bchar = 65\<rparr>"

definition my_open :: "buggy \<Rightarrow> int \<times> buggy" where "my_open s = (0, s)"

definition my_close :: "buggy \<Rightarrow> int \<times> buggy" where "my_close s = (0, s)"

text \<open>The return code, the bytes put at the start of the user's buffer, whatever its length, and the new position.\<close>

definition my_read :: "env \<Rightarrow> nat \<Rightarrow> nat \<Rightarrow> buggy \<Rightarrow> int \<times> u8 list \<times> nat" where
  "my_read E len off s =
     (if off = 0 then
        if user_copied E (btr s) 1 < 1 then (- EFAULT, [], off)
        else (1, [bchar s], off + 2)
      else (- 1, [], off))"

text \<open>
  The copy from the user reads the one byte at the address \<^verbatim>\<open>buf + len - 1\<close> of the user's memory, in
  64-bit arithmetic. A copy from the user that fails clears its destination.
\<close>

definition my_write :: "env \<Rightarrow> (u64 \<Rightarrow> u8) \<Rightarrow> u64 \<Rightarrow> u64 \<Rightarrow> buggy \<Rightarrow> int \<times> buggy" where
  "my_write E mem buf len s =
     (if user_copied E (btr s) 1 < 1 then (- EFAULT, s\<lparr>bchar := 0\<rparr>)
      else (sint len, s\<lparr>bchar := mem (buf + len - 1)\<rparr>))"

definition debug_init :: "env \<Rightarrow> buggy \<Rightarrow> int \<times> buggy" where
  "debug_init E s = (let (ret, t) = chrdev_register E (btr s) in (ret, s\<lparr>btr := t\<rparr>))"

definition debug_exit :: "buggy \<Rightarrow> buggy" where
  "debug_exit s = s\<lparr>btr := chrdev_unregister (btr s)\<rparr>"

section \<open>kretprobe.c\<close>

text \<open>
  The return handler of the probe on \<^verbatim>\<open>my_read\<close> gets the registers at the return of the function, looks at
  the return value, and overwrites the register that holds it.
\<close>

record pt_regs =
  ax :: u64

definition handler :: "pt_regs \<Rightarrow> int \<times> pt_regs" where
  "handler regs = (0, regs\<lparr>ax := 0\<rparr>)"

text \<open>A read with the probe planted: the caller gets the return value from the register.\<close>

definition probed_read :: "env \<Rightarrow> nat \<Rightarrow> nat \<Rightarrow> buggy \<Rightarrow> int \<times> u8 list \<times> nat" where
  "probed_read E len off s =
     (let (r, bytes, off) = my_read E len off s;
          (_, regs) = handler \<lparr>ax = of_int r\<rparr>
      in (sint (ax regs), bytes, off))"

text \<open>
  What a write leaves is the last byte of the data in the user's buffer, and the next read returns
  it. A write of length 0 stores the byte in front of the buffer. The second read of a file fails with \<open>-1\<close>
  where the end of the file is meant; the probe turns that into 0, and the successful read too.
\<close>

definition user_buffer :: "(u64 \<Rightarrow> u8) \<Rightarrow> u64 \<Rightarrow> u8 list \<Rightarrow> bool" where
  "user_buffer mem buf data \<longleftrightarrow> (\<forall>i < length data. mem (buf + of_nat i) = data ! i)"

lemma user_buffer_last:
  assumes "user_buffer mem buf data" "data \<noteq> []"
  shows "mem (buf + of_nat (length data) - 1) = last data"
proof -
  from assms(2) obtain n where n: "length data = Suc n" by (cases data) auto
  then have "buf + of_nat (length data) - 1 = buf + of_nat n" by simp
  moreover have "last data = data ! n" using assms(2) n by (simp add: last_conv_nth)
  ultimately show ?thesis using assms(1) n by (simp add: user_buffer_def)
qed

lemma buggy_roundtrip:
  assumes "1 \<le> user_copied E (btr s) 1" "user_buffer mem buf data" "data \<noteq> []"
  shows "my_read E n 0 (snd (my_write E mem buf (of_nat (length data)) s)) = (1, [last data], 2)"
  using assms(1) user_buffer_last [OF assms(2,3)] by (simp add: my_write_def my_read_def)

lemma buggy_empty_write: "1 \<le> user_copied E (btr s) 1 \<Longrightarrow> bchar (snd (my_write E mem buf 0 s)) = mem (buf - 1)"
  by (simp add: my_write_def)

lemma probe_hides_results:
  "off \<noteq> 0 \<Longrightarrow> my_read E n off s = (- 1, [], off) \<and> probed_read E n off s = (0, [], off)"
  "1 \<le> user_copied E (btr s) 1 \<Longrightarrow> my_read E n 0 s = (1, [bchar s], 2) \<and> probed_read E n 0 s = (0, [bchar s], 2)"
  by (simp_all add: my_read_def probed_read_def handler_def)

text \<open>
  The entry handler stores a letter in the data of the probe instance, which the return handler
  prints. Probes are planted and removed by the module functions of \<^verbatim>\<open>kretprobe.c\<close> and, with handlers that only print,
  of \<^verbatim>\<open>kprobe.c\<close>.
\<close>

definition kretprobe_entry :: "u8 \<Rightarrow> int \<times> u8" where "kretprobe_entry data = (0, 75)"

definition kretprobe_init :: "env \<Rightarrow> trace \<Rightarrow> int \<times> trace" where "kretprobe_init E t = acquire E Kprobe t"

definition kretprobe_exit :: "trace \<Rightarrow> trace" where "kretprobe_exit t = release Kprobe t"

definition kprobe_pre :: int where "kprobe_pre = 0"

definition kprobe_init :: "env \<Rightarrow> trace \<Rightarrow> int \<times> trace" where "kprobe_init E t = acquire E Kprobe t"

definition kprobe_exit :: "trace \<Rightarrow> trace" where "kprobe_exit t = release Kprobe t"

lemma probe_init_exit:
  assumes "held t = Some h"
  shows "case kretprobe_init E t of (r, u) \<Rightarrow>
      if r = 0 then held (kretprobe_exit u) = Some h else held u = Some h"
    and "case kprobe_init E t of (r, u) \<Rightarrow> if r = 0 then held (kprobe_exit u) = Some h else held u = Some h"
  using assms by (simp_all add: kretprobe_init_def kretprobe_exit_def kprobe_init_def kprobe_exit_def acquire_def release_def Let_def)

section \<open>Files under /sys/kernel/debug\<close>

text \<open>
  \<^verbatim>\<open>debugfs.c\<close>, \<^verbatim>\<open>debugfs1.c\<close> and \<^verbatim>\<open>debugfs2.c\<close> make a directory with files in it. What \<^verbatim>\<open>debugfs_create_dir\<close>
  returns is a parameter: NULL, an error pointer, or a directory. The functions give their result, the
  value of the directory variable and the calls into debugfs, in order. For debugfs a NULL parent means the root
  of its file system.
\<close>

datatype dentry = NullDentry | ErrDentry | Dentry

datatype dcall = CreateDir string | CreateFile string dentry | RemoveRecursive dentry

definition debugfs_init :: "dentry \<Rightarrow> int \<times> dentry \<times> dcall list" where
  "debugfs_init d =
     (if d = NullDentry then (- 1, d, [CreateDir ''example1''])
      else (0, d, [CreateDir ''example1'', CreateFile ''hello'' d]))"

definition debugfs_exit :: "dentry \<Rightarrow> dcall list" where "debugfs_exit dir = [RemoveRecursive dir]"

definition debugfs1_init :: "dentry \<Rightarrow> int \<times> dentry \<times> dcall list" where
  "debugfs1_init d =
     (if d = NullDentry then (- 1, d, [CreateDir ''example2''])
      else (0, d, [CreateDir ''example2'', CreateFile ''add'' d, CreateFile ''sum'' d]))"

definition debugfs1_exit :: "dentry \<Rightarrow> dcall list" where "debugfs1_exit dir = [RemoveRecursive dir]"

definition init_debug :: "dentry \<Rightarrow> int \<times> dentry \<times> dcall list" where
  "init_debug d = (0, d, [CreateDir ''test'', CreateFile ''text'' d, CreateFile ''number'' d, CreateFile ''hexnum'' d])"

definition exit_debug :: "dentry \<Rightarrow> dcall list" where "exit_debug dirret = [RemoveRecursive dirret]"

text \<open>
  The first two modules create files only in the directory that their exit functions remove. The
  third does not test for failure: without a directory it loads all the same and its files go to the root,
  where its exit function, called with NULL, does not find them.
\<close>

definition files_in_dir :: "dentry \<Rightarrow> dcall list \<Rightarrow> bool" where
  "files_in_dir d cs \<longleftrightarrow> (\<forall>c \<in> set cs. \<forall>f q. c = CreateFile f q \<longrightarrow> q = d \<and> q \<noteq> NullDentry)"

lemma debugfs_files:
  "case debugfs_init d of (r, dir, cs) \<Rightarrow> files_in_dir dir cs \<and> debugfs_exit dir = [RemoveRecursive dir]"
  "case debugfs1_init d of (r, dir, cs) \<Rightarrow> files_in_dir dir cs \<and> debugfs1_exit dir = [RemoveRecursive dir]"
  "\<exists>cs. init_debug NullDentry = (0, NullDentry, cs) \<and> CreateFile ''text'' NullDentry \<in> set cs
     \<and> exit_debug NullDentry = [RemoveRecursive NullDentry]"
  by (simp_all add: debugfs_init_def debugfs_exit_def debugfs1_init_def debugfs1_exit_def init_debug_def exit_debug_def
      files_in_dir_def)

text \<open>
  The file \<^verbatim>\<open>text\<close> of \<^verbatim>\<open>debugfs2.c\<close>: the buffer \<^verbatim>\<open>ker_buf\<close> behind the kernel's \<^verbatim>\<open>simple_read_from_buffer\<close> (count, position,
  buffer) and \<^verbatim>\<open>simple_write_to_buffer\<close> (buffer, position, data), which are parameters. They yield the
  result, the bytes read or the new buffer, and the new position.
\<close>

definition ker_len :: nat where "ker_len = 200"

type_synonym read_from_buffer = "nat \<Rightarrow> nat \<Rightarrow> u8 list \<Rightarrow> int \<times> u8 list \<times> nat"
type_synonym write_to_buffer = "u8 list \<Rightarrow> nat \<Rightarrow> u8 list \<Rightarrow> int \<times> u8 list \<times> nat"

definition myreader :: "read_from_buffer \<Rightarrow> nat \<Rightarrow> nat \<Rightarrow> u8 list \<Rightarrow> int \<times> u8 list \<times> nat" where
  "myreader simple_read count pos ker_buf = simple_read count pos ker_buf"

definition mywriter :: "write_to_buffer \<Rightarrow> u8 list \<Rightarrow> nat \<Rightarrow> u8 list \<Rightarrow> int \<times> u8 list \<times> nat" where
  "mywriter simple_write data pos ker_buf =
     (if length data > ker_len then (- EINVAL, ker_buf, pos) else simple_write ker_buf pos data)"

text \<open>
  What the kernel documents of the two: they transfer as many bytes as there are between the
  position and the end of the buffer, at most \<open>count\<close>, and advance the position by that number.
\<close>

definition reads_buffer :: "read_from_buffer \<Rightarrow> bool" where
  "reads_buffer rd \<longleftrightarrow> (\<forall>count pos buf. let n = min count (length buf - pos) in
     rd count pos buf = (int n, take n (drop pos buf), pos + n))"

definition writes_buffer :: "write_to_buffer \<Rightarrow> bool" where
  "writes_buffer wr \<longleftrightarrow> (\<forall>buf pos data. let n = min (length data) (length buf - pos) in
     wr buf pos data = (int n, take pos buf @ take n data @ drop (pos + n) buf, pos + n))"

lemma text_file_roundtrip:
  assumes "reads_buffer rd" "writes_buffer wr" "length buf = ker_len" "pos + length data \<le> ker_len"
  shows "\<exists>buf'. mywriter wr data pos buf = (int (length data), buf', pos + length data) \<and> length buf' = ker_len
    \<and> myreader rd (length data) pos buf' = (int (length data), data, pos + length data)"
proof -
  let ?b = "take pos buf @ data @ drop (pos + length data) buf"
  have n: "min (length data) (length buf - pos) = length data" and b: "length ?b = ker_len"
    using assms(3,4) by auto
  have "mywriter wr data pos buf = (int (length data), ?b, pos + length data)"
    using assms(2,4) n by (simp add: mywriter_def writes_buffer_def Let_def)
  moreover have "myreader rd (length data) pos ?b = (int (length data), data, pos + length data)"
    using assms b n by (simp add: myreader_def reads_buffer_def Let_def)
  ultimately show ?thesis using b by blast
qed

section \<open>debugfs1.c\<close>

text \<open>A 64-bit value written to the file \<^verbatim>\<open>add\<close> is added to the 32-bit variable \<^verbatim>\<open>sum\<close>.\<close>

definition add_write_op :: "u64 \<Rightarrow> u32 \<Rightarrow> int \<times> u32" where
  "add_write_op value tot = (0, ucast (ucast tot + value))"

lemma add_write_op_wraps: "unat (snd (add_write_op v s)) = (unat s + unat v) mod 2 ^ 32"
proof -
  have "unat (ucast (ucast s + v :: u64) :: u32) = unat (ucast s + v :: u64) mod 2 ^ 32"
    by (simp add: unsigned_ucast_eq take_bit_eq_mod)
  also have "\<dots> = (unat s + unat v) mod 2 ^ 64 mod 2 ^ 32"
    by (simp add: unat_word_ariths unsigned_ucast_eq take_bit_eq_mod mod_add_left_eq)
  also have "\<dots> = (unat s + unat v) mod 2 ^ 32" by (rule mod_mod_cancel) (simp add: le_imp_power_dvd)
  finally show ?thesis by (simp add: add_write_op_def)
qed

section \<open>PerfTool/io\_app.c\<close>

text \<open>
  \<open>write_pass\<close> is the inner loop of \<^verbatim>\<open>write_log\<close>; \<open>ws\<close> are the sizes written so far, newest first. The
  results of \<^verbatim>\<open>write\<close> and \<^verbatim>\<open>lseek\<close> are parameters. \<open>Inl\<close>: the program exits with this code.
\<close>

definition BUFSIZE :: nat where "BUFSIZE = 8 * 1024"
definition BIGSIZE :: nat where "BIGSIZE = 10 * 1024 * 1024"
definition FILESIZE :: nat where "FILESIZE = 10 * 1024 * 1024"

function write_pass :: "(nat list \<Rightarrow> nat \<Rightarrow> int) \<Rightarrow> nat \<Rightarrow> nat \<Rightarrow> nat list \<Rightarrow> (int \<times> nat list) + nat list" where
  "write_pass W i j ws =
     (if i < FILESIZE then
        let n = (if j mod 100 = 0 then BIGSIZE else BUFSIZE)
        in if W ws n < 0 then Inl (2, n # ws) else write_pass W (i + n) (j + 1) (n # ws)
      else Inr ws)"
  by pat_completeness auto
termination by (relation "measure (\<lambda>(W, i, j, ws). FILESIZE - i)") (auto simp: BIGSIZE_def BUFSIZE_def)

declare write_pass.simps [simp del]

text \<open>The outer loop never ends by itself; \<open>write_rounds\<close> runs \<open>n\<close> rounds of it.\<close>

primrec write_rounds :: "(nat list \<Rightarrow> nat \<Rightarrow> int) \<Rightarrow> (nat list \<Rightarrow> int) \<Rightarrow> nat \<Rightarrow> nat list \<Rightarrow> (int \<times> nat list) + nat list" where
  "write_rounds W L 0 ws = Inr ws"
| "write_rounds W L (Suc n) ws =
     (case write_pass W 0 0 ws of
        Inl r \<Rightarrow> Inl r
      | Inr ws \<Rightarrow> if L ws < 0 then Inl (3, ws) else write_rounds W L n ws)"

text \<open>\<open>buf\<close> and \<open>big\<close> say whether the two allocations succeed, \<open>fd\<close> is the result of \<^verbatim>\<open>open\<close>.\<close>

definition write_log :: "bool \<Rightarrow> bool \<Rightarrow> (nat list \<Rightarrow> nat \<Rightarrow> int) \<Rightarrow> (nat list \<Rightarrow> int) \<Rightarrow> nat \<Rightarrow> (int \<times> nat list) + nat list" where
  "write_log buf big W L n = (if \<not> buf \<or> \<not> big then Inl (1, []) else write_rounds W L n [])"

definition io_main :: "int \<Rightarrow> bool \<Rightarrow> bool \<Rightarrow> (nat list \<Rightarrow> nat \<Rightarrow> int) \<Rightarrow> (nat list \<Rightarrow> int) \<Rightarrow> nat \<Rightarrow> (int \<times> nat list) + nat list" where
  "io_main fd buf big W L n = (if fd < 0 then Inl (1, []) else write_log buf big W L n)"

lemma write_pass_once:
  "write_pass W 0 0 ws = (if W ws BIGSIZE < 0 then Inl (2, BIGSIZE # ws) else Inr (BIGSIZE # ws))"
proof -
  have "write_pass W (0 + BIGSIZE) 1 (BIGSIZE # ws) = Inr (BIGSIZE # ws)"
    by (subst write_pass.simps) (simp add: BIGSIZE_def FILESIZE_def)
  then show ?thesis by (subst write_pass.simps) (simp add: FILESIZE_def Let_def)
qed

end
