(* ===== verification/Dummy_Net.thy ===== *)
theory Dummy_Net
  imports Char_Dev Ether_Dev
begin

text \<open>
  The dummy network exercises: the ping responder \<^verbatim>\<open>dummy_ping.c\<close>, the registration of its receive
  function in \<^verbatim>\<open>dummy_hw.c\<close>, the address check of \<^verbatim>\<open>dummy_rtnl.c\<close> and the per-CPU statistics of
  \<^verbatim>\<open>dummy.c\<close>. Reading or writing outside a frame has no result (\<open>None\<close>).
\<close>

section \<open>Byte ranges of a frame\<close>

definition bytes_at :: "nat \<Rightarrow> nat \<Rightarrow> u8 list \<Rightarrow> u8 list option" where
  "bytes_at i n xs = (if i + n \<le> length xs then Some (take n (drop i xs)) else None)"

definition put_at :: "nat \<Rightarrow> u8 list \<Rightarrow> u8 list \<Rightarrow> u8 list option" where
  "put_at i ys xs = (if i + length ys \<le> length xs then Some (take i xs @ ys @ drop (i + length ys) xs) else None)"

text \<open>What a written range leaves of the others; these rules carry the proofs about frames.\<close>

lemma put_at_Some:
  "i + length ys \<le> length xs \<Longrightarrow> \<exists>zs. put_at i ys xs = Some zs \<and> length zs = length xs"
  by (simp add: put_at_def)

lemma put_at_nth:
  assumes "put_at i ys xs = Some zs"
  shows "length zs = length xs" "k < length xs \<Longrightarrow> zs ! k = (if i \<le> k \<and> k < i + length ys then ys ! (k - i) else xs ! k)"
  using assms by (auto simp: put_at_def nth_append min_def split: if_splits)

lemma bytes_at_nth:
  "bytes_at i n xs = Some ys \<longleftrightarrow> i + n \<le> length xs \<and> length ys = n \<and> (\<forall>k < n. ys ! k = xs ! (i + k))"
  by (auto simp: bytes_at_def list_eq_iff_nth_eq)

lemma put_at_same: "put_at i ys xs = Some zs \<Longrightarrow> bytes_at i (length ys) zs = Some ys"
  by (auto simp: put_at_def bytes_at_def split: if_splits)

lemma put_at_other:
  assumes "put_at i ys xs = Some zs" "j + n \<le> i \<or> i + length ys \<le> j"
  shows "bytes_at j n zs = bytes_at j n xs"
proof -
  have "take n (drop j zs) = take n (drop j xs)" if "j + n \<le> length xs"
    using that put_at_nth [OF assms(1)] assms(2) by (intro nth_equalityI) auto
  then show ?thesis using put_at_nth(1) [OF assms(1)] by (simp add: bytes_at_def)
qed

section \<open>dummy\_ping.c\<close>

definition ETH_ALEN6 :: nat where "ETH_ALEN6 = 6"
definition IPPROTO_ICMP :: u8 where "IPPROTO_ICMP = 1"
definition ICMP_ECHOREPLY :: u8 where "ICMP_ECHOREPLY = 0"
definition EADDRNOTAVAIL :: int where "EADDRNOTAVAIL = 99"

text \<open>
  The bytes of a frame with the offsets of its network and transport headers; the pointers that
  \<^verbatim>\<open>ip_hdr\<close> and \<^verbatim>\<open>icmp_hdr\<close> compute from them are never NULL.
\<close>

record frame =
  fdata :: "u8 list"
  network_header :: nat
  transport_header :: nat

datatype rx_outcome = NoSkb | Freed | PushedUp "u8 list"

text \<open>
  Swap of the MAC addresses at the start of the data, and of the IP addresses at bytes 12 and 16 of the IP header.
\<close>

definition swap_mac :: "u8 list \<Rightarrow> u8 list option" where
  "swap_mac d = do {
     eth_addr \<leftarrow> bytes_at 0 ETH_ALEN6 d;
     src \<leftarrow> bytes_at ETH_ALEN6 ETH_ALEN6 d;
     d \<leftarrow> put_at 0 src d;
     put_at ETH_ALEN6 eth_addr d
   }"

definition swap_ip :: "nat \<Rightarrow> u8 list \<Rightarrow> u8 list option" where
  "swap_ip iph d = do {
     addr \<leftarrow> bytes_at (iph + 16) 4 d;
     src \<leftarrow> bytes_at (iph + 12) 4 d;
     d \<leftarrow> put_at (iph + 16) src d;
     put_at (iph + 12) addr d
   }"

text \<open>
  The ICMP part: type and checksum. \<open>csum\<close> stands for \<^verbatim>\<open>csum_fold(csum_partial(..))\<close>; the length it
  covers is computed from the IP header.
\<close>

definition icmp_reply :: "(u8 list \<Rightarrow> u8 \<times> u8) \<Rightarrow> nat \<Rightarrow> nat \<Rightarrow> u8 list \<Rightarrow> u8 list option" where
  "icmp_reply csum iph icmph d = do {
     d \<leftarrow> put_at icmph [ICMP_ECHOREPLY] d;
     d \<leftarrow> put_at (icmph + 2) [0, 0] d;
     v \<leftarrow> idx d iph;
     hi \<leftarrow> idx d (iph + 2);
     lo \<leftarrow> idx d (iph + 3);
     let tot_len = unat hi * 256 + unat lo;
     let hlen = unat (v AND 0x0F) * 4;
     if tot_len < hlen then None
     else do {
       body \<leftarrow> bytes_at icmph (tot_len - hlen) d;
       let (x, y) = csum body;
       put_at (icmph + 2) [x, y] d
     }
   }"

definition dummy_eth_rx :: "(u8 list \<Rightarrow> u8 \<times> u8) \<Rightarrow> frame option \<Rightarrow> (int \<times> rx_outcome) option" where
  "dummy_eth_rx csum skb =
     (case skb of
        None \<Rightarrow> Some (- EINVAL, NoSkb)
      | Some f \<Rightarrow> do {
          proto \<leftarrow> idx (fdata f) (network_header f + 9);
          if proto = IPPROTO_ICMP then do {
            d \<leftarrow> swap_mac (fdata f);
            d \<leftarrow> swap_ip (network_header f) d;
            d \<leftarrow> icmp_reply csum (network_header f) (transport_header f) d;
            Some (0, PushedUp d)
          }
          else Some (0, Freed)
        })"

section \<open>dummy\_hw.c\<close>

text \<open>
  \<open>dummy_drv_rx\<close> is the receive function, if one is registered; the second result says whether the
  thread is woken. Deregistering does not clear the pointer.
\<close>

definition lt_request_irq :: "bool \<Rightarrow> 'f option \<Rightarrow> 'f option \<Rightarrow> int \<times> bool \<times> 'f option" where
  "lt_request_irq mode rx_fn dummy_drv_rx =
     (if mode \<and> dummy_drv_rx = None then (0, False, rx_fn)
      else if \<not> mode \<and> dummy_drv_rx \<noteq> None then (0, True, dummy_drv_rx)
      else (0, False, dummy_drv_rx))"

lemma lt_request_irq_keeps: "lt_request_irq False f (Some g) = (0, True, Some g)"
  by (simp add: lt_request_irq_def)

text \<open>
  The simulated hardware. Its queue and its thread are left to the exercise: \<open>skb\<close> is what the
  variable of the packet to deliver happens to hold; it is freed when no receive function is
  registered, and otherwise nothing is done with it, the call of that function being left out.
  A transmitted packet is not queued, and \<open>hw_thread_id\<close> is stopped on exit if it is set.
\<close>

datatype hw_irq = NothingQueued | NotRequested nat | Kept nat

definition dummy_hw_send_irq :: "nat option \<Rightarrow> 'f option \<Rightarrow> hw_irq" where
  "dummy_hw_send_irq skb dummy_drv_rx =
     (case skb of
        None \<Rightarrow> NothingQueued
      | Some p \<Rightarrow> if dummy_drv_rx = None then NotRequested p else Kept p)"

definition lt_hw_tx :: "nat \<Rightarrow> nat list \<Rightarrow> int \<times> nat list" where "lt_hw_tx skb skb_tx_q = (0, skb_tx_q)"

definition init_hw :: int where "init_hw = 0"

datatype hw_stop = KthreadStop nat

definition deinit_hw :: "nat option \<Rightarrow> hw_stop list" where
  "deinit_hw hw_thread_id = (case hw_thread_id of None \<Rightarrow> [] | Some t \<Rightarrow> [KthreadStop t])"

text \<open>
  The thread: a loop that sleeps until it is told to stop, and the delivery of packets is left to the exercise.
  \<open>should_stop i\<close> is what \<^verbatim>\<open>kthread_should_stop\<close> answers in round \<open>i\<close>; the result is the number of rounds slept with
  the return value. It ends exactly when the kernel asks it to at some time, after the rounds before that.
\<close>

partial_function (option) hw_thread_loop :: "(nat \<Rightarrow> bool) \<Rightarrow> nat \<Rightarrow> nat option" where
  "hw_thread_loop should_stop i = (if should_stop i then Some i else hw_thread_loop should_stop (i + 1))"

definition dummy_hw_thread :: "(nat \<Rightarrow> bool) \<Rightarrow> (nat \<times> int) option" where
  "dummy_hw_thread should_stop = map_option (\<lambda>n. (n, 0)) (hw_thread_loop should_stop 0)"

lemma hw_thread_loop_stops:
  assumes "should_stop n" "i \<le> n"
  shows "\<exists>k. hw_thread_loop should_stop i = Some k"
  using assms(2)
proof (induction rule: inc_induct)
  case base
  show ?case using assms(1) by (simp add: hw_thread_loop.simps [of _ n])
next
  case (step i)
  then show ?case by (cases "should_stop i") (simp_all add: hw_thread_loop.simps [of _ i])
qed

lemma hw_thread_loop_result:
  assumes "hw_thread_loop should_stop i = Some k"
  shows "i \<le> k \<and> should_stop k \<and> (\<forall>j. i \<le> j \<and> j < k \<longrightarrow> \<not> should_stop j)"
proof (rule hw_thread_loop.raw_induct [OF _ assms])
  fix loop and should_stop :: "nat \<Rightarrow> bool" and i k :: nat
  assume IH: "\<And>ss i k. loop ss i = Some k \<Longrightarrow> i \<le> k \<and> ss k \<and> (\<forall>j. i \<le> j \<and> j < k \<longrightarrow> \<not> ss j)"
    and run: "(if should_stop i then Some i else loop should_stop (i + 1)) = Some k"
  show "i \<le> k \<and> should_stop k \<and> (\<forall>j. i \<le> j \<and> j < k \<longrightarrow> \<not> should_stop j)"
  proof (cases "should_stop i")
    case False
    with run IH [of should_stop "i + 1" k] have "i + 1 \<le> k \<and> should_stop k \<and> (\<forall>j. i + 1 \<le> j \<and> j < k \<longrightarrow> \<not> should_stop j)" by simp
    moreover have "j = i \<or> i + 1 \<le> j" if "i \<le> j" for j using that by auto
    ultimately show ?thesis using False by auto
  qed (use run in auto)
qed

lemma hw_thread_ends_iff: "(\<exists>r. dummy_hw_thread should_stop = Some r) \<longleftrightarrow> (\<exists>n. should_stop n)"
proof
  assume "\<exists>r. dummy_hw_thread should_stop = Some r"
  then obtain k where "hw_thread_loop should_stop 0 = Some k" by (auto simp: dummy_hw_thread_def)
  from hw_thread_loop_result [OF this] show "\<exists>n. should_stop n" by blast
next
  assume "\<exists>n. should_stop n"
  then obtain n where "should_stop n" ..
  from hw_thread_loop_stops [of should_stop, OF this, of 0] show "\<exists>r. dummy_hw_thread should_stop = Some r"
    by (auto simp: dummy_hw_thread_def)
qed

lemma hw_thread_rounds: "should_stop n \<Longrightarrow> dummy_hw_thread should_stop = Some ((LEAST i. should_stop i), 0)"
  using hw_thread_loop_stops [of should_stop n 0] hw_thread_loop_result [of should_stop 0]
  by (fastforce simp: dummy_hw_thread_def intro!: Least_equality [symmetric] leI)

lemma deregistered_not_freed:
  assumes "lt_request_irq False f (Some g) = (r, woken, rx)"
  shows "dummy_hw_send_irq (Some p) rx = Kept p"
  using assms by (auto simp: lt_request_irq_def dummy_hw_send_irq_def)

section \<open>dummy\_rtnl.c\<close>

definition dummy_validate :: "(u8 list \<Rightarrow> bool) \<Rightarrow> u8 list option \<Rightarrow> int" where
  "dummy_validate is_valid_ether_addr ifla_address =
     (case ifla_address of
        None \<Rightarrow> 0
      | Some a \<Rightarrow> if length a \<noteq> ETH_ALEN6 then - EINVAL
                  else if \<not> is_valid_ether_addr a then - EADDRNOTAVAIL
                  else 0)"

section \<open>dummy.c\<close>

text \<open>
  The statistics are the sums over all processors, added to what the caller's record holds. A
  snapshot of one processor is repeated until no update came in between; \<open>cpus\<close> are the snapshots.
\<close>

record rtnl_link_stats64 =
  tx_bytes64 :: u64
  tx_packets64 :: u64

primrec dummy_get_stats64 :: "(u64 \<times> u64) list \<Rightarrow> rtnl_link_stats64 \<Rightarrow> rtnl_link_stats64" where
  "dummy_get_stats64 [] st = st"
| "dummy_get_stats64 (c # cpus) st =
     (let (tbytes, tpackets) = c
      in dummy_get_stats64 cpus (st\<lparr>tx_bytes64 := tx_bytes64 st + tbytes, tx_packets64 := tx_packets64 st + tpackets\<rparr>))"

lemma dummy_get_stats64_sums:
  "tx_bytes64 (dummy_get_stats64 cpus st) = tx_bytes64 st + sum_list (map fst cpus)"
  "tx_packets64 (dummy_get_stats64 cpus st) = tx_packets64 st + sum_list (map snd cpus)"
  by (induction cpus arbitrary: st) (auto split: prod.split simp: add.assoc)

text \<open>
  The per-CPU counters are allocated and freed with the interface; the transmit routine neither
  counts nor frees the packet (both are TODO comments), and the carrier is ignored.
\<close>

definition dummy_dev_init :: "env \<Rightarrow> trace \<Rightarrow> int \<times> trace" where
  "dummy_dev_init E t = (let (null, t) = acquire E PcpuStats t in if null \<noteq> 0 then (- ENOMEM, t) else (0, t))"

definition dummy_dev_uninit :: "trace \<Rightarrow> trace" where "dummy_dev_uninit t = release PcpuStats t"

definition NETDEV_TX_OK :: int where "NETDEV_TX_OK = 0"

definition dummy_xmit :: "u64 \<times> u64 \<Rightarrow> int \<times> (u64 \<times> u64)" where "dummy_xmit dstats = (NETDEV_TX_OK, dstats)"

definition dummy_change_carrier :: "bool \<Rightarrow> int" where "dummy_change_carrier new_carrier = 0"

text \<open>
  \<^verbatim>\<open>dev_dummy\<close> says whether the pointer is not NULL, which nothing makes true; \<open>err\<close> is what the variable happens to hold.
  \<^verbatim>\<open>dummy_setup\<close> is in \<open>Ether_Dev\<close>; the bodies of \<^verbatim>\<open>set_multicast_list\<close> and of the cleanup are empty.
\<close>

definition dummy_init_module :: "bool \<Rightarrow> int \<Rightarrow> int" where
  "dummy_init_module dev_dummy err = (if \<not> dev_dummy then - ENOMEM else if err < 0 then err else 0)"

definition dummy_cleanup_module :: "trace \<Rightarrow> trace" where "dummy_cleanup_module t = t"

lemma dummy_dev_init_uninit:
  assumes "held t = Some h"
  shows "case dummy_dev_init E t of (r, u) \<Rightarrow>
    if r = 0 then held (dummy_dev_uninit u) = Some h else r = - ENOMEM \<and> held u = Some h"
  using assms by (simp add: dummy_dev_init_def dummy_dev_uninit_def acquire_def release_def Let_def ENOMEM_def)

text \<open>As the file stands no transmission shows in the statistics.\<close>

lemma xmit_not_counted:
  "dummy_get_stats64 (map (snd \<circ> dummy_xmit) cpus) st = dummy_get_stats64 cpus st"
  by (simp add: dummy_xmit_def comp_def)

end
