(* ===== verification/Training_Props.thy ===== *)
theory Training_Props
  imports Expt_Char Debug_Mods Dummy_Net Example_Env
begin

text \<open>
  Properties of the smaller modules: the EEPROM driver, the ping responder and the load generator.
\<close>

section \<open>The EEPROM driver\<close>

text \<open>How often a resource has been granted and not been given back.\<close>

fun res_bal :: "res \<Rightarrow> trace \<Rightarrow> int" where
  "res_bal r [] = 0"
| "res_bal r (Got q # t) = res_bal r t + (if q = r then 1 else 0)"
| "res_bal r (Put q # t) = res_bal r t - (if q = r then 1 else 0)"
| "res_bal r (_ # t) = res_bal r t"

lemma held_res_bal: "held t = Some h \<Longrightarrow> r \<noteq> DmaMask \<Longrightarrow> res_bal r t = int (count_list h r)"
  by (induction t arbitrary: h rule: held.induct) (auto split: option.splits list.splits if_splits)

text \<open>
  C37. Provided the EEPROM answers sooner or later, probing returns: either the device is bound, with
  its character device on top of the PCI resources, or everything is given back in reverse order. Removal however
  gives back only the PCI resources: the device node, its class, the character device and its
  number stay registered.
\<close>

theorem ic_remove_leaks:
  assumes "chrdev_codes_ok E" "eeprom_answers E" "held (itr s) = Some h" "\<not> ic_drvdata s"
  shows "\<exists>r s'. ic_probe E s = Some (r, s') \<and>
    (if r = 0 then held (itr s') = Some (chr_res @ RegMap # Regions # PciDevice # h)
       \<and> (\<exists>u. ic_remove s' = Some u \<and> held (itr u) = None
            \<and> (\<forall>x \<in> set chr_res. res_bal x (itr u) = int (count_list h x) + 1)
            \<and> (\<forall>x \<in> {RegMap, Regions, PciDevice}. res_bal x (itr u) = int (count_list h x)))
     else \<not> ic_drvdata s' \<and> held (itr s') = Some h)"
proof -
  from ic_probe_spec [OF assms] obtain r s' where run: "ic_probe E s = Some (r, s')"
    and post: "if r = 0 then ic_drvdata s' \<and> held (itr s') = Some (chr_res @ RegMap # Regions # PciDevice # h)
     else \<not> ic_drvdata s' \<and> held (itr s') = Some h" by blast
  show ?thesis
  proof (cases "r = 0")
    case False
    then show ?thesis using run post by simp
  next
    case True
    let ?u = "s'\<lparr>ic_drvdata := False, itr := Put PciDevice # Put Regions # Put RegMap # itr s'\<rparr>"
    from True post have s': "ic_drvdata s'" "held (itr s') = Some (chr_res @ RegMap # Regions # PciDevice # h)" by simp_all
    have "ic_remove s' = Some ?u" using s'(1) by (simp add: ic_remove_def ic_put_def release_def)
    moreover have "held (itr ?u) = None" using s'(2) by (simp add: chr_res_def)
    moreover have "\<forall>x \<in> set chr_res. res_bal x (itr ?u) = int (count_list h x) + 1"
      "\<forall>x \<in> {RegMap, Regions, PciDevice}. res_bal x (itr ?u) = int (count_list h x)"
      using held_res_bal [OF s'(2)] by (simp_all add: chr_res_def)
    ultimately show ?thesis using run True s'(2) by (intro exI [of _ r] exI [of _ s']) auto
  qed
qed

theorem ic_remove_leaks_witness:
  "\<exists>r s'. ic_probe (env0\<lparr>ioread32 := \<lambda>_ _. 16\<rparr>) \<lparr>itr = [], ic_drvdata = False\<rparr> = Some (r, s') \<and>
    (if r = 0 then held (itr s') = Some (chr_res @ RegMap # Regions # PciDevice # [])
       \<and> (\<exists>u. ic_remove s' = Some u \<and> held (itr u) = None
            \<and> (\<forall>x \<in> set chr_res. res_bal x (itr u) = int (count_list [] x) + 1)
            \<and> (\<forall>x \<in> {RegMap, Regions, PciDevice}. res_bal x (itr u) = int (count_list [] x)))
     else \<not> ic_drvdata s' \<and> held (itr s') = Some [])"
  by (rule ic_remove_leaks) (simp_all add: chrdev_codes_ok_def eeprom_answers_def env0_def)

section \<open>The ping responder\<close>

lemma put_at_twice:
  assumes "put_at i ys xs = Some zs" "length ys' = length ys"
  shows "put_at i ys' zs = put_at i ys' xs"
proof -
  from assms(1) have "i + length ys \<le> length xs" "zs = take i xs @ ys @ drop (i + length ys) xs"
    by (simp_all add: put_at_def split: if_splits)
  then show ?thesis using assms(2) by (simp add: put_at_def min_absorb2)
qed

lemma bytes_at_nthD: "bytes_at j 1 r = bytes_at j 1 d \<Longrightarrow> j < length d \<Longrightarrow> j < length r \<Longrightarrow> r ! j = d ! j"
proof -
  assume "bytes_at j 1 r = bytes_at j 1 d" "j < length d" "j < length r"
  moreover have "bytes_at j 1 xs = Some [xs ! j]" if "j < length xs" for xs
    using that by (simp add: bytes_at_nth del: One_nat_def)
  ultimately show ?thesis by simp
qed

text \<open>Exchanging two disjoint ranges of \<open>n\<close> bytes leaves everything else in place.\<close>

lemma swap_ranges:
  assumes "i + n \<le> length d" "j + n \<le> length d" "i + n \<le> j \<or> j + n \<le> i"
  obtains a b e r where "bytes_at i n d = Some a" "bytes_at j n d = Some b" "put_at i b d = Some e"
    "put_at j a e = Some r" "length r = length d" "bytes_at i n r = Some b" "bytes_at j n r = Some a"
    "\<And>k m. (k + m \<le> i \<or> i + n \<le> k) \<and> (k + m \<le> j \<or> j + n \<le> k) \<Longrightarrow> bytes_at k m r = bytes_at k m d"
proof -
  obtain a where a: "bytes_at i n d = Some a" "length a = n" using assms by (simp add: bytes_at_def)
  obtain b where b: "bytes_at j n d = Some b" "length b = n" using assms by (simp add: bytes_at_def)
  from put_at_Some [of i b d] assms b obtain e where e: "put_at i b d = Some e" "length e = length d" by auto
  from put_at_Some [of j a e] assms a e obtain r where r: "put_at j a e = Some r" "length r = length d" by auto
  have "bytes_at i n r = Some b" "bytes_at j n r = Some a"
    using put_at_same [OF r(1)] put_at_same [OF e(1)] put_at_other [OF r(1), of i n] assms(3) a b by auto
  moreover have "bytes_at k m r = bytes_at k m d" if "(k + m \<le> i \<or> i + n \<le> k) \<and> (k + m \<le> j \<or> j + n \<le> k)" for k m
    using that put_at_other [OF r(1), of k m] put_at_other [OF e(1), of k m] a(2) b(2) by simp
  ultimately show thesis using that a(1) b(1) e(1) r by blast
qed

lemma swap_mac_spec:
  assumes "12 \<le> length d"
  shows "\<exists>r. swap_mac d = Some r \<and> length r = length d \<and> bytes_at 0 6 r = bytes_at 6 6 d
    \<and> bytes_at 6 6 r = bytes_at 0 6 d \<and> (\<forall>j n. 12 \<le> j \<longrightarrow> bytes_at j n r = bytes_at j n d)"
proof -
  from assms have "0 + 6 \<le> length d" "6 + 6 \<le> length d" "0 + 6 \<le> (6 :: nat) \<or> 6 + 6 \<le> (0 :: nat)" by simp_all
  then show ?thesis by (rule swap_ranges) (simp add: swap_mac_def ETH_ALEN6_def)
qed

lemma swap_ip_spec:
  assumes "p + 20 \<le> length d"
  shows "\<exists>r. swap_ip p d = Some r \<and> length r = length d \<and> bytes_at (p + 12) 4 r = bytes_at (p + 16) 4 d
    \<and> bytes_at (p + 16) 4 r = bytes_at (p + 12) 4 d
    \<and> (\<forall>j n. j + n \<le> p + 12 \<or> p + 20 \<le> j \<longrightarrow> bytes_at j n r = bytes_at j n d)"
proof -
  from assms have "(p + 16) + 4 \<le> length d" "(p + 12) + 4 \<le> length d" "(p + 16) + 4 \<le> p + 12 \<or> (p + 12) + 4 \<le> p + 16"
    by simp_all
  then show ?thesis by (rule swap_ranges) (auto simp: swap_ip_def)
qed

text \<open>The length of the ICMP message according to the IP header at offset \<open>p\<close>.\<close>

definition icmp_len :: "nat \<Rightarrow> u8 list \<Rightarrow> nat" where
  "icmp_len p d = unat (d ! (p + 2)) * 256 + unat (d ! (p + 3)) - unat (d ! p AND 0x0F) * 4"

definition ip_lengths_ok :: "nat \<Rightarrow> nat \<Rightarrow> u8 list \<Rightarrow> bool" where
  "ip_lengths_ok p t d \<longleftrightarrow> p + 20 \<le> t \<and> t + 4 \<le> length d
     \<and> unat (d ! p AND 0x0F) * 4 \<le> unat (d ! (p + 2)) * 256 + unat (d ! (p + 3))
     \<and> t + icmp_len p d \<le> length d"

lemma icmp_reply_spec:
  assumes "ip_lengths_ok p t d"
  shows "\<exists>z body x y r. icmp_reply csum p t d = Some r \<and> length r = length d \<and> bytes_at t 1 r = Some [ICMP_ECHOREPLY]
    \<and> put_at (t + 2) [0, 0] r = Some z \<and> bytes_at t (icmp_len p d) z = Some body
    \<and> csum body = (x, y) \<and> bytes_at (t + 2) 2 r = Some [x, y]
    \<and> (\<forall>j n. j + n \<le> t \<or> t + 1 \<le> j \<and> j + n \<le> t + 2 \<or> t + 4 \<le> j \<longrightarrow> bytes_at j n r = bytes_at j n d)"
proof -
  from assms have L: "p + 20 \<le> t" "t + 4 \<le> length d" "t + icmp_len p d \<le> length d"
    "unat (d ! p AND 0x0F) * 4 \<le> unat (d ! (p + 2)) * 256 + unat (d ! (p + 3))" by (simp_all add: ip_lengths_ok_def)
  from put_at_Some [of t "[ICMP_ECHOREPLY]" d] L obtain d1 where
    d1: "put_at t [ICMP_ECHOREPLY] d = Some d1" "length d1 = length d" by auto
  from put_at_Some [of "t + 2" "[0, 0]" d1] L d1(2) obtain z where
    z: "put_at (t + 2) [0, 0] d1 = Some z" "length z = length d" by auto
  obtain body where body: "bytes_at t (icmp_len p d) z = Some body" using L z(2) by (simp add: bytes_at_def)
  obtain x y where xy: "csum body = (x, y)" by fastforce
  from put_at_Some [of "t + 2" "[x, y]" z] L z(2) obtain r where
    r: "put_at (t + 2) [x, y] z = Some r" "length r = length d" by auto
  have same: "bytes_at j n z = bytes_at j n d \<and> bytes_at j n r = bytes_at j n d" if "j + n \<le> t \<or> t + 1 \<le> j \<and> j + n \<le> t + 2 \<or> t + 4 \<le> j" for j n
    using that put_at_other [OF d1(1), of j n] put_at_other [OF z(1), of j n] put_at_other [OF r(1), of j n] by auto
  have hdr: "z ! i = d ! i" if "i < t" for i
    using that put_at_nth(2) [OF d1(1), of i] put_at_nth(2) [OF z(1), of i] L(2) d1(2) by simp
  have i: "idx z p = Some (d ! p)" "idx z (p + 2) = Some (d ! (p + 2))" "idx z (p + 3) = Some (d ! (p + 3))"
    using L(1,2) z(2) hdr by simp_all
  have "icmp_reply csum p t d = Some r"
    using d1(1) z(1) i L(4) body xy r(1) by (simp add: icmp_reply_def icmp_len_def Let_def)
  moreover have "bytes_at t 1 r = Some [ICMP_ECHOREPLY]"
    using put_at_same [OF d1(1)] put_at_other [OF z(1), of t 1] put_at_other [OF r(1), of t 1] by simp
  moreover have "bytes_at (t + 2) 2 r = Some [x, y]" using put_at_same [OF r(1)] by (simp add: numeral_2_eq_2)
  moreover have "put_at (t + 2) [0, 0] r = Some z"
    using put_at_twice [OF r(1), of "[0, 0]"] put_at_twice [OF z(1), of "[0, 0]"] z(1) by simp
  ultimately show ?thesis using r(2) body xy same by blast
qed

text \<open>
  C38. A ping request with consistent lengths is answered: MAC addresses and IP addresses are
  exchanged, the type becomes an echo reply, the checksum is the one of the ICMP message of the reply with
  its checksum field zeroed, and every other byte of the frame (the Ethernet type, the rest of the IP
  header with its checksum and options, the ICMP code, identifier and payload) is unchanged.
\<close>

theorem ping_is_answered:
  assumes "d = fdata f" "p = network_header f" "t = transport_header f"
    and "12 \<le> p" "ip_lengths_ok p t d" "d ! (p + 9) = IPPROTO_ICMP"
  shows "\<exists>r z body x y. dummy_eth_rx csum (Some f) = Some (0, PushedUp r) \<and> length r = length d
    \<and> bytes_at 0 6 r = bytes_at 6 6 d \<and> bytes_at 6 6 r = bytes_at 0 6 d
    \<and> bytes_at (p + 12) 4 r = bytes_at (p + 16) 4 d \<and> bytes_at (p + 16) 4 r = bytes_at (p + 12) 4 d
    \<and> bytes_at t 1 r = Some [ICMP_ECHOREPLY]
    \<and> (\<forall>i < length d. i \<notin> {0..<12} \<union> {p + 12..<p + 20} \<union> {t, t + 2, t + 3} \<longrightarrow> r ! i = d ! i)
    \<and> put_at (t + 2) [0, 0] r = Some z
    \<and> bytes_at t (icmp_len p d) z = Some body \<and> csum body = (x, y) \<and> bytes_at (t + 2) 2 r = Some [x, y]"
proof -
  from assms(5) have L: "p + 20 \<le> t" "t + 4 \<le> length d" by (simp_all add: ip_lengths_ok_def)
  from swap_mac_spec [of d] assms(4) L obtain d1 where d1: "swap_mac d = Some d1" "length d1 = length d"
    "bytes_at 0 6 d1 = bytes_at 6 6 d" "bytes_at 6 6 d1 = bytes_at 0 6 d"
    "\<And>j n. 12 \<le> j \<Longrightarrow> bytes_at j n d1 = bytes_at j n d" by auto
  from swap_ip_spec [of p d1] L d1(2) obtain d2 where d2: "swap_ip p d1 = Some d2" "length d2 = length d"
    "bytes_at (p + 12) 4 d2 = bytes_at (p + 16) 4 d1" "bytes_at (p + 16) 4 d2 = bytes_at (p + 12) 4 d1"
    "\<And>j n. j + n \<le> p + 12 \<or> p + 20 \<le> j \<Longrightarrow> bytes_at j n d2 = bytes_at j n d1" by auto
  have "d2 ! i = d ! i" if "p \<le> i" "i < p + 12" for i
    using that assms(4) L d2(2) d2(5) [of i 1] d1(5) [of i 1] by (intro bytes_at_nthD) auto
  then have hdr: "d2 ! p = d ! p" "d2 ! (p + 2) = d ! (p + 2)" "d2 ! (p + 3) = d ! (p + 3)" by simp_all
  then have len: "icmp_len p d2 = icmp_len p d" by (simp add: icmp_len_def)
  with hdr assms(5) d2(2) have "ip_lengths_ok p t d2" by (simp add: ip_lengths_ok_def)
  from icmp_reply_spec [OF this, of csum, unfolded len] obtain z body x y r where
    r: "icmp_reply csum p t d2 = Some r" "length r = length d2" "bytes_at t 1 r = Some [ICMP_ECHOREPLY]"
      "put_at (t + 2) [0, 0] r = Some z" "bytes_at t (icmp_len p d) z = Some body" "csum body = (x, y)"
      "bytes_at (t + 2) 2 r = Some [x, y]"
      "\<forall>j n. j + n \<le> t \<or> t + 1 \<le> j \<and> j + n \<le> t + 2 \<or> t + 4 \<le> j \<longrightarrow> bytes_at j n r = bytes_at j n d2"
    by blast
  note r8 = r(8) [rule_format]
  have run: "dummy_eth_rx csum (Some f) = Some (0, PushedUp r)"
    using d1(1) d2(1) r(1) assms(1-3,6) L by (simp add: dummy_eth_rx_def)
  have "bytes_at 0 6 r = bytes_at 6 6 d" "bytes_at 6 6 r = bytes_at 0 6 d"
    using r8 [of 0 6] r8 [of 6 6] d2(5) [of 0 6] d2(5) [of 6 6] d1(3-5) assms(4) L
    by simp_all
  moreover have "bytes_at (p + 12) 4 r = bytes_at (p + 16) 4 d" "bytes_at (p + 16) 4 r = bytes_at (p + 12) 4 d"
    using r8 [of "p + 12" 4] r8 [of "p + 16" 4] d2(3,4) d1(5) assms(4) L by simp_all
  moreover have "r ! i = d ! i"
    if i: "i < length d" "i \<notin> {0..<12} \<union> {p + 12..<p + 20} \<union> {t, t + 2, t + 3}" for i
  proof (rule bytes_at_nthD)
    from i(2) have "i + 1 \<le> t \<or> t + 1 \<le> i \<and> i + 1 \<le> t + 2 \<or> t + 4 \<le> i" "i + 1 \<le> p + 12 \<or> p + 20 \<le> i" "12 \<le> i"
      by auto
    from r8 [OF this(1)] d2(5) [OF this(2)] d1(5) [OF this(3)] show "bytes_at i 1 r = bytes_at i 1 d" by simp
  qed (use i r(2) d2(2) in simp_all)
  ultimately show ?thesis using run r d2(2) by (intro exI [of _ r] exI [of _ z] exI [of _ body] exI [of _ x] exI [of _ y]) simp
qed

text \<open>A ping of 42 bytes: 14 of Ethernet header, 20 of IP header (length 28, protocol 1), 8 of ICMP echo request.\<close>

definition ping0 :: frame where
  "ping0 = \<lparr>fdata = [1, 2, 3, 4, 5, 6] @ [11, 12, 13, 14, 15, 16] @ [8, 0] @ [0x45, 0, 0, 28] @ [0, 0, 0, 0] @ [64, 1, 0, 0]
     @ [10, 0, 0, 1] @ [10, 0, 0, 2] @ [8, 0, 7, 7] @ [1, 1, 1, 1], network_header = 14, transport_header = 34\<rparr>"

theorem ping_is_answered_witness:
  "\<exists>r z body x y. dummy_eth_rx (\<lambda>b. (5, of_nat (length b))) (Some ping0) = Some (0, PushedUp r) \<and> length r = 42
    \<and> bytes_at 0 6 r = Some [11, 12, 13, 14, 15, 16] \<and> bytes_at 26 4 r = Some [10, 0, 0, 2]
    \<and> bytes_at 34 1 r = Some [0] \<and> bytes_at 34 8 z = Some body \<and> (5, of_nat (length body)) = (x, y)
    \<and> bytes_at 36 2 r = Some [x, y]"
proof -
  have ok: "ip_lengths_ok 14 34 (fdata ping0)" "fdata ping0 ! 23 = IPPROTO_ICMP" "icmp_len 14 (fdata ping0) = 8"
    by (simp_all add: ip_lengths_ok_def icmp_len_def ping0_def IPPROTO_ICMP_def)
  have d: "bytes_at 6 6 (fdata ping0) = Some [11, 12, 13, 14, 15, 16]" "bytes_at 30 4 (fdata ping0) = Some [10, 0, 0, 2]"
    "length (fdata ping0) = 42" by (simp_all add: bytes_at_def ping0_def)
  have "14 = network_header ping0" "34 = transport_header ping0" "12 \<le> (14 :: nat)" "fdata ping0 ! (14 + 9) = IPPROTO_ICMP"
    using ok(2) by (simp_all add: ping0_def)
  from ping_is_answered [OF refl this(1,2,3) ok(1) this(4), of "\<lambda>b. (5, of_nat (length b))"]
  obtain r z body x y where "dummy_eth_rx (\<lambda>b. (5, of_nat (length b))) (Some ping0) = Some (0, PushedUp r)"
    "length r = length (fdata ping0)" "bytes_at 0 6 r = bytes_at 6 6 (fdata ping0)"
    "bytes_at (14 + 12) 4 r = bytes_at (14 + 16) 4 (fdata ping0)" "bytes_at 34 1 r = Some [ICMP_ECHOREPLY]"
    "bytes_at 34 (icmp_len 14 (fdata ping0)) z = Some body" "(5, of_nat (length body)) = (x, y)"
    "bytes_at (34 + 2) 2 r = Some [x, y]" by blast
  then show ?thesis using d ok(3)
    by (intro exI [of _ r] exI [of _ z] exI [of _ body] exI [of _ x] exI [of _ y]) (simp add: ICMP_ECHOREPLY_def)
qed

section \<open>The load generator\<close>





end
