(* ===== verification/Spec2Isabelle.thy ===== *)
theory Spec2Isabelle
  imports Net_Props Net_Exercise Poll_Race Hw_Props Expt_Props Pci_Skel Snull_Machine Training_Props
begin

text \<open>
  Verification of the drivers of the training repository (directories \<^verbatim>\<open>Solutions\<close>, \<^verbatim>\<open>PCIDriverAssn\<close>,
  \<^verbatim>\<open>NetworkDriver\<close> and \<^verbatim>\<open>Debugging\<close>).

  \<^bold>\<open>The program.\<close> The repository holds a complete Linux network driver for the Realtek 8101 Ethernet chip
  (\<^verbatim>\<open>Solutions/Rt8169Drv\<close>: \<^verbatim>\<open>pci_net.c\<close> binds the PCI device, \<^verbatim>\<open>net_stk.c\<close> is the network device with its
  descriptor rings, \<^verbatim>\<open>mac.c\<close> and \<^verbatim>\<open>phy.c\<close> program the chip), a character driver for the same chip with
  one descriptor in each direction (\<^verbatim>\<open>Solutions/expt_drv_with_dma.c\<close>), a character driver that reads an
  EEPROM (\<^verbatim>\<open>Solutions/expt_drv_init_char.c\<close>), incomplete exercise versions of these (\<^verbatim>\<open>NetworkDriver/Rt8169Drv\<close>, \<^verbatim>\<open>PCIDriverAssn\<close>), the loop-back interfaces \<^verbatim>\<open>snull\<close>, the dummy network
  exercises, and small debugging modules.

  \<^bold>\<open>The kernel and the devices\<close> are not part of the repository. \<open>Kernel_Env\<close> makes them a parameter: the
  record \<open>env\<close> says what every register read returns, which requests are granted, what an allocation
  or a mapping yields, each as a function of the whole trace of events so far. A driver operation
  extends the trace. Ledgers computed from a trace (\<open>held\<close>, \<open>dma_bal\<close>, \<open>skb_bal\<close>, \<open>freed\<close>, \<open>received\<close>)
  say which resources, DMA mappings and packets the driver owns. An operation whose result is \<open>None\<close>
  makes the kernel fault: it follows a null or freed pointer, leaves an array, takes a lock it
  holds, enables NAPI twice, or overwrites or frees a timer that is armed. Handlers run to completion; the interleavings considered are
  those of whole handlers with each other and with the device, and in \<open>Poll_Race\<close> one inside a handler.

  \<^bold>\<open>Theories, shared.\<close>
  \<^item> \<open>Prelude\<close>: C integer types, checked array access, polling loops, upwards to a bound and downwards to the wrap-around.
  \<^item> \<open>Ring_Index\<close>: a ring indexed by free-running 32-bit counters, as the locale \<open>ring\<close>, and a loop that takes its finished
    slots in order, as \<open>ring_scan\<close>, interpreted on the receive and the transmit loop.
  \<^item> \<open>R8101\<close>: registers and bits of \<^verbatim>\<open>r8101.h\<close>. \<open>Kernel_Env\<close>: see above. \<open>Char_Dev\<close>: registration of a
    character device.
  \<^item> \<open>Machines\<close>: the locales \<open>machine\<close> (an invariant under enabled events), \<open>packet_fifo\<close> (no packet is
    lost, reordered or duplicated) and \<open>pci_driver\<close> (probe and remove as the PCI core calls them).
  \<^item> \<open>Example_Env\<close>, \<open>Examples\<close>: a concrete kernel, and states of the drivers in it.

  \<^bold>\<open>The Realtek network driver.\<close> \<open>Net_Types\<close> is \<^verbatim>\<open>struct DrvPvt\<close> and the ring constants of \<^verbatim>\<open>net_stk.h\<close>;
  \<open>Phy\<close> and \<open>Mac\<close> are \<^verbatim>\<open>phy.c\<close> and \<^verbatim>\<open>mac.c\<close>; \<open>Buffers\<close>, \<open>Net_Irq\<close>, \<open>Net_Ops\<close> and \<open>Net_Dev\<close> are the four
  parts of \<^verbatim>\<open>net_stk.c\<close> (ring buffers and link timer; receive, transmit completion, poll and interrupt; open, close,
  transmit, reset; registration) with \<^verbatim>\<open>pci_net.c\<close>, one definition per C function and one per
  loop. \<open>Ring_Inv\<close>, \<open>Tx_Path\<close>, \<open>Rx_Path\<close>, \<open>Open_Close\<close> and \<open>Driver\<close> prove what each operation does to
  the rings and the ledgers; \<open>Driver_Machine\<close> turns the handlers and the device into events, with one lemma per event on a running interface, and
  interprets \<open>machine\<close> and, for the transmit ring, \<open>packet_fifo\<close>, under all events but opening and closing; \<open>Rx_Order\<close> interprets \<open>packet_fifo\<close> for the
  receive ring, with a device that fills it in order; \<open>Driver_Live\<close> interprets \<open>machine\<close> a
  second time, with the invariant that whatever ends a masked or stopped state is pending; \<open>Pci_Net\<close> interprets
  \<open>pci_driver\<close>. \<open>Net_Props\<close> (C1 to C8, C10 to C14, C16, C17 and C39), \<open>Live_Props\<close> (C9 and C15),
  \<open>Poll_Race\<close> (C19) and \<open>Hw_Props\<close> (C18 and C20 to C23) state the results: the driver is safe in every reachable state, transmits
  and receives first in first out, is never stuck, probes and opens all or nothing, releases everything; and what goes wrong when
  the interrupt is refused, the indices wrap, the interface is closed with a reset task pending, or the link drops in a memory shortage, with frames in the ring, or, on another processor, while a poll is in its
  receive loop, which runs without the lock.

  The guards of the events are what the kernel guarantees, with four restrictions that exclude those
  faults: \<open>irq_granted\<close> (the interrupt is granted), \<open>tx_nowrap\<close> (the transmit index is not within 1024
  of its wrap-around when the ring is cleared), a completely filled receive ring when the link
  timer runs, and no pending reset task when the interface is opened or the driver unbound. C12, C13, C14 and
  C39 show what happens outside them.

  \<open>Net_Exercise\<close> holds the functions in which the exercise copy \<^verbatim>\<open>NetworkDriver/Rt8169Drv\<close> differs from the completed
  driver; it interprets \<open>pci_driver\<close> and shows that the exercise refuses every device and keeps nothing.

  \<^bold>\<open>The character drivers.\<close> \<open>Expt_Dma\<close> is \<^verbatim>\<open>expt_drv_with_dma.c\<close>; \<open>Expt_Life\<close> proves its invariant and
  interprets \<open>pci_driver\<close>; \<open>Expt_Props\<close> (C24 to C28, C32 and C33) states the results: life cycle, reading returns the
  frame, writing is exclusive, and the faults (out of memory, a jammed transmitter, lengths that
  accumulate, an unbounded wait). The receive guards of its events say that frames fit the 256-byte buffer, its
  life cycle assumes that \<^verbatim>\<open>kmalloc\<close> grants the packet buffers (\<open>pkts_granted\<close>; C26 and C27 show why), and files are
  used while the device is bound only (lemma \<open>files_outlive_removal\<close>). \<open>Expt_Char\<close> is \<^verbatim>\<open>expt_drv_init_char.c\<close>.
  \<open>Pci_Assn\<close> holds the exercises \<^verbatim>\<open>expt_drv_init_char.c\<close>, \<^verbatim>\<open>expt_drv_intr.c\<close> and \<^verbatim>\<open>expt_drv_dma.c\<close> of \<^verbatim>\<open>PCIDriverAssn\<close> as they
  stand; \<open>Assn_Props\<close> (C29 and C31) interprets \<open>pci_driver\<close> on all three and shows their life cycle, the one write that faults, and that reading
  returns the station address. \<open>Pci_Skel\<close> holds the three smaller exercises \<^verbatim>\<open>expt_drv_probe.c\<close>, \<^verbatim>\<open>expt_drv_config.c\<close> and
  \<^verbatim>\<open>expt_drv_init.c\<close> and interprets \<open>pci_driver\<close> on them; the last one gives back what it never asked for, or faults,
  depending on the uninitialised variables it reads.

  \<^bold>\<open>The exercises.\<close> \<open>Snull\<close> is \<^verbatim>\<open>snull.c\<close> and \<^verbatim>\<open>snull_napi.c\<close> as far as the files go, on an explicit heap of packets.
  \<open>Snull_Props\<close> (C34 to C36) interprets the locale \<open>lifo\<close> on the pool and on the receive queue; \<open>Snull_Machine\<close> (C30) takes
  all operations between setup and teardown as events, under conditions on their callers, and interprets \<open>machine\<close> with the
  well-formedness of the packet memory as invariant; polling more than once breaks it. Local
  variables that only a TODO comment would set are parameters. \<open>Ether_Dev\<close> is the setup of an interface; \<open>Dummy_Net\<close> and
  \<open>Debug_Mods\<close> are the dummy network and debugging modules; \<open>Training_Props\<close> (C37, C38 and C40) states their properties and those of \<open>Expt_Char\<close>.

  \<^bold>\<open>Loops.\<close> Polling loops run at most their C bound of 10 or 100; the one of \<^verbatim>\<open>hw_shut\<close>, whose signed counter runs
  downwards, is a recursion on the 32-bit counter that ends where it wraps; ring loops recurse on the number of descriptors left, which the C
  code computes before it enters the loop, or on the distance of two indices. The EEPROM wait, the pool teardown and the thread of \<^verbatim>\<open>dummy_hw.c\<close> have no
  bound in the code: they are partial functions, and their return is proved under the stated
  conditions. The outer loop of the load generator never ends; it is run for any number of rounds.

  \<^bold>\<open>Not modelled.\<close> Of the exercise copy of the Realtek driver, what is the same text as the completed version, and the
  functions that call the rest of the driver with pointers that are never set (\<^verbatim>\<open>rtl8101_open\<close>) or use an undeclared
  variable (\<^verbatim>\<open>rtl8101_rx_interrupt\<close>); log output, delays, memory order, and, with the exception of \<open>Poll_Race\<close>, handlers that overlap; scripts, slides and datasheets.
\<close>

end
